(* ===== verification/Prelude.thy ===== *)
theory Prelude
  imports Main "HOL-Library.Word" "HOL-Library.Sublist" "HOL-Library.Char_ord"
    "HOL-Library.List_Lexorder" "HOL-Library.AList"
begin

text \<open>
  Shared vocabulary of the octoserve development: the byte type, results with an error
  branch, the 64-bit wrap-around of Go's \<open>int64\<close>, the part of Go's \<open>strings\<close> and
  \<open>strconv\<close> packages that the registry calls, and the generic list facts that several
  components use. The collections \<open>frame\<close> (what an operation leaves alone) and
  \<open>keeps\<close> (invariant preservation) are filled by the components.
\<close>

named_theorems frame \<open>what an operation leaves unchanged\<close>
named_theorems keeps \<open>operations that keep an invariant\<close>

type_synonym bytes = "8 word list"

abbreviation Ok :: "'a \<Rightarrow> 'e + 'a" where "Ok \<equiv> Inr"
abbreviation Err :: "'e \<Rightarrow> 'e + 'a" where "Err \<equiv> Inl"

fun isOk :: "'e + 'a \<Rightarrow> bool" where
  "isOk (Inr _) = True"
| "isOk (Inl _) = False"

lemma isOk_iff: "isOk r \<longleftrightarrow> (\<exists>x. r = Ok x)"
  by (cases r) auto

lemma not_isOk_iff: "\<not> isOk r \<longleftrightarrow> (\<exists>e. r = Err e)"
  by (cases r) auto

subsection \<open>Machine integers\<close>

text \<open>Go's \<open>int64\<close> arithmetic on mathematical integers: the value modulo \<open>2^64\<close>,
  read as two's complement.\<close>

definition int64 :: "int \<Rightarrow> int" where
  "int64 x = (x + 2 ^ 63) mod 2 ^ 64 - 2 ^ 63"

definition in_int64 :: "int \<Rightarrow> bool" where
  "in_int64 x \<longleftrightarrow> - (2 ^ 63) \<le> x \<and> x < 2 ^ 63"

lemma int64_id [simp]: "in_int64 x \<Longrightarrow> int64 x = x"
  by (simp add: int64_def in_int64_def)

lemma in_int64_int64 [simp]: "in_int64 (int64 x)"
proof -
  have "0 \<le> (x + 2 ^ 63) mod 2 ^ 64" "(x + 2 ^ 63) mod 2 ^ 64 < (2 ^ 64 :: int)"
    by (rule pos_mod_sign pos_mod_bound; simp)+
  then show ?thesis by (simp add: int64_def in_int64_def)
qed

subsection \<open>Strings\<close>

definition HasPrefix :: "string \<Rightarrow> string \<Rightarrow> bool" where
  "HasPrefix s p \<longleftrightarrow> take (length p) s = p"

definition HasSuffix :: "string \<Rightarrow> string \<Rightarrow> bool" where
  "HasSuffix s p \<longleftrightarrow> HasPrefix (rev s) (rev p)"

fun Contains :: "string \<Rightarrow> string \<Rightarrow> bool" where
  "Contains [] sub = (sub = [])"
| "Contains (c # s) sub = (HasPrefix (c # s) sub \<or> Contains s sub)"

definition TrimPrefix :: "string \<Rightarrow> string \<Rightarrow> string" where
  "TrimPrefix s p = (if HasPrefix s p then drop (length p) s else s)"

text \<open>\<open>strings.Split\<close> at a one-byte separator, and \<open>strings.SplitN(s, sep, 2)\<close>.\<close>

fun Split :: "char \<Rightarrow> string \<Rightarrow> string list" where
  "Split c [] = [[]]"
| "Split c (x # xs) =
     (if x = c then [] # Split c xs
      else (case Split c xs of [] \<Rightarrow> [[x]] | p # ps \<Rightarrow> (x # p) # ps))"

fun SplitN2 :: "char \<Rightarrow> string \<Rightarrow> string list" where
  "SplitN2 c [] = [[]]"
| "SplitN2 c (x # xs) =
     (if x = c then [[], xs]
      else (case SplitN2 c xs of [] \<Rightarrow> [[x]] | p # ps \<Rightarrow> (x # p) # ps))"

text \<open>\<open>strings.ReplaceAll\<close> where both strings are one byte long.\<close>

definition ReplaceChar :: "char \<Rightarrow> char \<Rightarrow> string \<Rightarrow> string" where
  "ReplaceChar old new s = map (\<lambda>c. if c = old then new else c) s"

lemma HasPrefix_append [simp]: "HasPrefix (p @ s) p"
  by (simp add: HasPrefix_def)

lemma HasPrefixD: "HasPrefix s p \<Longrightarrow> \<exists>t. s = p @ t"
  by (metis HasPrefix_def append_take_drop_id)

lemma HasPrefix_iff: "HasPrefix s p \<longleftrightarrow> (\<exists>t. s = p @ t)"
  using HasPrefixD by auto

lemma HasSuffix_append [simp]: "HasSuffix (s @ p) p"
  by (simp add: HasSuffix_def)

lemma HasSuffixD: "HasSuffix s p \<Longrightarrow> \<exists>t. s = t @ p"
  unfolding HasSuffix_def HasPrefix_iff by (metis rev_append rev_rev_ident)

lemma Contains_sublist: "Contains s sub \<longleftrightarrow> (\<exists>a b. s = a @ sub @ b)"
proof (induction s)
  case Nil
  then show ?case by auto
next
  case (Cons c s)
  have "(\<exists>a b. c # s = a @ sub @ b) \<longleftrightarrow>
    (\<exists>b. c # s = sub @ b) \<or> (\<exists>a b. s = a @ sub @ b)" (is "?l \<longleftrightarrow> ?r")
  proof
    assume ?l
    then obtain a b where "c # s = a @ sub @ b" by blast
    then show ?r by (cases a) auto
  next
    assume ?r
    then show ?l
    proof (elim disjE exE)
      fix b assume "c # s = sub @ b"
      then have "c # s = [] @ sub @ b" by simp
      then show ?l by blast
    next
      fix a b assume "s = a @ sub @ b"
      then have "c # s = (c # a) @ sub @ b" by simp
      then show ?l by blast
    qed
  qed
  with Cons show ?case by (simp add: HasPrefix_iff)
qed

lemma Split_not_Nil [simp]: "Split c s \<noteq> []"
  by (induction s) (auto split: list.splits)

lemma Split_no_sep: "c \<notin> set s \<Longrightarrow> Split c s = [s]"
  by (induction s) auto

lemma Split_parts_no_sep: "p \<in> set (Split c s) \<Longrightarrow> c \<notin> set p"
  by (induction s arbitrary: p) (auto split: list.splits if_splits)

lemma Split_append_sep: "c \<notin> set a \<Longrightarrow> Split c (a @ c # b) = a # Split c b"
  by (induction a) auto

lemma SplitN2_no_sep: "c \<notin> set s \<Longrightarrow> SplitN2 c s = [s]"
  by (induction s) auto

lemma SplitN2_append_sep: "c \<notin> set a \<Longrightarrow> SplitN2 c (a @ c # b) = [a, b]"
  by (induction a) auto

lemma SplitN2_cases:
  "(c \<notin> set s \<and> SplitN2 c s = [s]) \<or>
   (\<exists>a b. c \<notin> set a \<and> s = a @ c # b \<and> SplitN2 c s = [a, b])"
proof (cases "c \<in> set s")
  case True
  then obtain a b where "s = a @ c # b" "c \<notin> set a" by (meson split_list_first)
  then show ?thesis by (auto simp: SplitN2_append_sep)
next
  case False
  then show ?thesis by (simp add: SplitN2_no_sep)
qed

lemma set_ReplaceChar: "old \<noteq> new \<Longrightarrow> old \<notin> set (ReplaceChar old new s)"
  by (induction s) (auto simp: ReplaceChar_def)

lemma length_ReplaceChar [simp]: "length (ReplaceChar old new s) = length s"
  by (simp add: ReplaceChar_def)

lemma ReplaceChar_id: "old \<notin> set s \<Longrightarrow> ReplaceChar old new s = s"
  by (induction s) (auto simp: ReplaceChar_def)

subsection \<open>Decimal numbers\<close>

definition digit :: "nat \<Rightarrow> char" where
  "digit d = ''0123456789'' ! d"

definition digit_val :: "char \<Rightarrow> nat option" where
  "digit_val c = (let n = of_char c :: nat in if 48 \<le> n \<and> n \<le> 57 then Some (n - 48) else None)"

fun nat_digits :: "nat \<Rightarrow> string" where
  "nat_digits n = (if n < 10 then [digit n] else nat_digits (n div 10) @ [digit (n mod 10)])"

declare nat_digits.simps [simp del]

text \<open>\<open>strconv.Itoa\<close> and \<open>strconv.FormatInt(i, 10)\<close>, also what \<open>%d\<close> prints.\<close>

definition Itoa :: "int \<Rightarrow> string" where
  "Itoa i = (if i < 0 then CHR ''-'' # nat_digits (nat (- i)) else nat_digits (nat i))"

fun parse_digits :: "nat \<Rightarrow> string \<Rightarrow> nat option" where
  "parse_digits acc [] = Some acc"
| "parse_digits acc (c # cs) =
     (case digit_val c of None \<Rightarrow> None | Some d \<Rightarrow> parse_digits (acc * 10 + d) cs)"

definition parse_unsigned :: "string \<Rightarrow> int option" where
  "parse_unsigned s = (if s = [] then None else map_option int (parse_digits 0 s))"

text \<open>\<open>strconv.ParseInt(s, 10, 64)\<close> and \<open>strconv.Atoi\<close>: an optional sign, then decimal
  digits; a value outside the 64-bit range is an error.\<close>

definition ParseInt :: "string \<Rightarrow> int option" where
  "ParseInt s =
     (let v = (case s of
          [] \<Rightarrow> None
        | c # cs \<Rightarrow> if c = CHR ''+'' then parse_unsigned cs
                    else if c = CHR ''-'' then map_option uminus (parse_unsigned cs)
                    else parse_unsigned s)
      in case v of None \<Rightarrow> None | Some i \<Rightarrow> if in_int64 i then Some i else None)"

lemma less_10_cases: "(d::nat) < 10 \<Longrightarrow> d \<in> {0, 1, 2, 3, 4, 5, 6, 7, 8, 9}"
  by auto

lemma digit_val_digit [simp]: "d < 10 \<Longrightarrow> digit_val (digit d) = Some d"
  by (drule less_10_cases) (auto simp: digit_val_def digit_def)

lemma digit_not_sign: "d < 10 \<Longrightarrow> digit d \<noteq> CHR ''-'' \<and> digit d \<noteq> CHR ''+''"
  by (drule less_10_cases) (auto simp: digit_def)

lemma parse_digits_append:
  "parse_digits acc (a @ b) =
     (case parse_digits acc a of None \<Rightarrow> None | Some acc' \<Rightarrow> parse_digits acc' b)"
  by (induction acc a rule: parse_digits.induct) (auto split: option.splits)

lemma parse_nat_digits: "parse_digits 0 (nat_digits n) = Some n"
proof (induction n rule: nat_digits.induct)
  case (1 n)
  show ?case
  proof (cases "n < 10")
    case True
    then show ?thesis by (simp add: nat_digits.simps)
  next
    case False
    with 1 have "parse_digits 0 (nat_digits (n div 10)) = Some (n div 10)" by simp
    with False show ?thesis by (simp add: nat_digits.simps [of n] parse_digits_append)
  qed
qed

lemma nat_digits_nonempty [simp]: "nat_digits n \<noteq> []"
  by (subst nat_digits.simps) simp

lemma nat_digits_digits: "c \<in> set (nat_digits n) \<Longrightarrow> \<exists>d < 10. c = digit d"
proof (induction n rule: nat_digits.induct)
  case (1 n)
  then show ?case
    by (subst (asm) (2) nat_digits.simps)
      (auto split: if_splits intro: exI [of _ "n mod 10"])
qed

lemma nat_digits_no_sign: "c \<in> set (nat_digits n) \<Longrightarrow> c \<noteq> CHR ''-'' \<and> c \<noteq> CHR ''+''"
  using nat_digits_digits [of c n] by (auto dest: digit_not_sign)

lemma parse_unsigned_nat_digits [simp]: "parse_unsigned (nat_digits n) = Some (int n)"
  by (simp add: parse_unsigned_def parse_nat_digits)

lemma ParseInt_Itoa: "in_int64 i \<Longrightarrow> ParseInt (Itoa i) = Some i"
proof (cases "i < 0")
  case True
  assume "in_int64 i"
  with True show ?thesis by (simp add: ParseInt_def Itoa_def)
next
  case False
  assume "in_int64 i"
  obtain c cs where eq: "nat_digits (nat i) = c # cs"
    by (cases "nat_digits (nat i)") auto
  then have "c \<noteq> CHR ''-'' \<and> c \<noteq> CHR ''+''"
    by (metis list.set_intros(1) nat_digits_no_sign)
  moreover have "parse_unsigned (c # cs) = Some i"
    using False by (simp flip: eq)
  ultimately show ?thesis
    using False \<open>in_int64 i\<close> by (simp add: ParseInt_def Itoa_def eq)
qed

lemma parse_unsigned_nonneg: "parse_unsigned s = Some i \<Longrightarrow> 0 \<le> i"
  by (auto simp: parse_unsigned_def split: if_splits)

lemma ParseInt_in_int64: "ParseInt s = Some i \<Longrightarrow> in_int64 i"
  by (auto simp: ParseInt_def Let_def split: option.splits if_splits)

lemma ParseInt_nonneg:
  assumes "ParseInt s = Some i" and "CHR ''-'' \<notin> set s"
  shows "0 \<le> i"
  using assms
  by (cases s) (auto simp: ParseInt_def Let_def split: option.splits if_splits
      dest: parse_unsigned_nonneg)

subsection \<open>Hexadecimal\<close>

definition hex_digit :: "nat \<Rightarrow> char" where
  "hex_digit d = ''0123456789abcdef'' ! d"

text \<open>\<open>hex.EncodeToString\<close>.\<close>

definition hex_encode :: "bytes \<Rightarrow> string" where
  "hex_encode bs =
     concat (map (\<lambda>b. [hex_digit (unat b div 16), hex_digit (unat b mod 16)]) bs)"

definition is_hex_lower :: "char \<Rightarrow> bool" where
  "is_hex_lower c \<longleftrightarrow> c \<in> set ''0123456789abcdef''"

lemma length_hex_encode [simp]: "length (hex_encode bs) = 2 * length bs"
  by (induction bs) (auto simp: hex_encode_def)

lemma hex_digit_is_hex: "d < 16 \<Longrightarrow> is_hex_lower (hex_digit d)"
proof -
  assume "d < 16"
  then have "d < length ''0123456789abcdef''" by simp
  then show ?thesis unfolding is_hex_lower_def hex_digit_def by (rule nth_mem)
qed

lemma hex_encode_is_hex: "c \<in> set (hex_encode bs) \<Longrightarrow> is_hex_lower c"
proof -
  assume "c \<in> set (hex_encode bs)"
  then have "\<exists>b. c = hex_digit (unat (b :: 8 word) div 16) \<or> c = hex_digit (unat b mod 16)"
    by (auto simp: hex_encode_def)
  then obtain b :: "8 word" where
    "c = hex_digit (unat b div 16) \<or> c = hex_digit (unat b mod 16)" by blast
  moreover have "unat b div 16 < 16"
  proof -
    have "unat b < 2 ^ LENGTH(8)" by (rule unsigned_less)
    then show ?thesis by simp
  qed
  ultimately show ?thesis by (auto intro: hex_digit_is_hex)
qed

lemma hex_no_special:
  "is_hex_lower c \<Longrightarrow> c \<noteq> CHR ''/'' \<and> c \<noteq> CHR ''.'' \<and> c \<noteq> CHR '':''"
  by (auto simp: is_hex_lower_def)

subsection \<open>Lists\<close>

lemma butlast_snoc_eq: "p \<noteq> [] \<Longrightarrow> butlast p @ [last p] = p"
  by simp

lemma sorted_filter_le_dropWhile:
  "sorted xs \<Longrightarrow> filter (\<lambda>x. y < x) xs = dropWhile (\<lambda>x. x \<le> (y::'a::linorder)) xs"
  by (induction xs) (auto simp: filter_id_conv not_le dropWhile_eq_self_iff hd_conv_nth
      intro: less_le_trans)

end
