(* ===== verification/GoTime.thy ===== *)
theory GoTime
  imports Prelude
begin

text \<open>
  The part of Go's \<open>time\<close> package that the configuration uses: durations as nanoseconds and their
  text.
\<close>

abbreviation Microsecond :: int where "Microsecond \<equiv> 1000"
abbreviation Millisecond :: int where "Millisecond \<equiv> 1000000"
abbreviation Second :: int where "Second \<equiv> 1000000000"
abbreviation Minute :: int where "Minute \<equiv> 60000000000"

text \<open>The fraction without trailing zeros, and the integer part.\<close>

fun fmtFrac :: "nat \<Rightarrow> nat \<Rightarrow> bool \<Rightarrow> string \<Rightarrow> string \<times> nat" where
  "fmtFrac 0 v pr acc = (if pr then CHR ''.'' # acc else acc, v)"
| "fmtFrac (Suc n) v pr acc =
     (let pr' = (pr \<or> v mod 10 \<noteq> 0)
      in fmtFrac n (v div 10) pr' (if pr' then digit (v mod 10) # acc else acc))"

definition fmt_unit :: "nat \<Rightarrow> string \<Rightarrow> nat \<Rightarrow> string" where
  "fmt_unit prec unit u = (case fmtFrac prec u False [] of (frac, v) \<Rightarrow> nat_digits v @ frac @ unit)"

definition abs_duration_string :: "nat \<Rightarrow> string" where
  "abs_duration_string u =
     (if u = 0 then ''0s''
      else if u < 1000 then fmt_unit 0 ''ns'' u
      else if u < 1000000 then fmt_unit 3 [CHR 0xC2, CHR 0xB5, CHR ''s''] u
      else if u < 1000000000 then fmt_unit 6 ''ms'' u
      else
        (case fmtFrac 9 u False [] of (frac, s) \<Rightarrow>
           (let m = s div 60; h = m div 60 in
            (if m = 0 then []
             else (if h = 0 then [] else nat_digits h @ ''h'') @ nat_digits (m mod 60) @ ''m'')
            @ nat_digits (s mod 60) @ frac @ ''s'')))"

definition Duration_String :: "int \<Rightarrow> string" where
  "Duration_String d =
     (if d < 0 then CHR ''-'' # abs_duration_string (nat (- d)) else abs_duration_string (nat d))"

lemma fmtFrac_numeral:
  "fmtFrac (numeral k) v pr acc =
     (let pr' = (pr \<or> v mod 10 \<noteq> 0)
      in fmtFrac (pred_numeral k) (v div 10) pr' (if pr' then digit (v mod 10) # acc else acc))"
  using fmtFrac.simps(2) [of "pred_numeral k" v pr acc] by (simp only: numeral_eq_Suc [of k, symmetric])

lemma nat_digits_eval:
  "n < 10 \<Longrightarrow> nat_digits n = [digit n]"
  "10 \<le> n \<Longrightarrow> nat_digits n = nat_digits (n div 10) @ [digit (n mod 10)]"
  by (simp_all add: nat_digits.simps [of n])

lemma Duration_String_examples:
  "Duration_String (30 * Second) = ''30s''" "Duration_String (2 * Minute) = ''2m0s''"
  "Duration_String (- 1500 * Millisecond) = ''-1.5s''" "Duration_String (5400 * Second) = ''1h30m0s''"
  "Duration_String 2500000 = ''2.5ms''"
  by (simp_all add: fmtFrac_numeral Duration_String_def abs_duration_string_def fmt_unit_def Let_def digit_def nat_digits_eval)

end
