(* ===== verification/GoJson.thy ===== *)
theory GoJson
  imports Prelude
begin

text \<open>
  The part of Go's \<open>encoding/json\<close> (and \<open>encoding/base64\<close>) the registry's data types go
  through, on JSON values: encoders of strings, integers, slices, maps and byte slices with
  \<open>omitempty\<close>, and the decoders \<open>Unmarshal\<close> uses for them. A slice that may be nil is an
  optional list; a Go map is kept as its association list sorted by key, which is the order
  \<open>Marshal\<close> prints it in. The text form of a value (printing and parsing) is a parameter of
  the models that use it, two fields of the environment.
\<close>

datatype json =
    JNull
  | JBool bool
  | JNum int
  | JFloat string
  | JStr string
  | JArr "json list"
  | JObj "(string \<times> json) list"

subsection \<open>Base64\<close>

definition b64_alphabet :: string where
  "b64_alphabet = ''ABCDEFGHIJKLMNOPQRSTUVWXYZabcdefghijklmnopqrstuvwxyz0123456789+/''"

definition b64_char :: "nat \<Rightarrow> char" where
  "b64_char n = b64_alphabet ! n"

fun index_of :: "char \<Rightarrow> string \<Rightarrow> nat option" where
  "index_of c [] = None"
| "index_of c (x # xs) = (if x = c then Some 0 else map_option Suc (index_of c xs))"

definition b64_val :: "char \<Rightarrow> nat option" where
  "b64_val c = index_of c b64_alphabet"

fun b64_encode :: "bytes \<Rightarrow> string" where
  "b64_encode [] = []"
| "b64_encode [x] =
     [b64_char (unat x div 4), b64_char (unat x mod 4 * 16), CHR ''='', CHR ''='']"
| "b64_encode [x, y] =
     [b64_char (unat x div 4), b64_char (unat x mod 4 * 16 + unat y div 16),
      b64_char (unat y mod 16 * 4), CHR ''='']"
| "b64_encode (x # y # z # bs) =
     [b64_char (unat x div 4), b64_char (unat x mod 4 * 16 + unat y div 16),
      b64_char (unat y mod 16 * 4 + unat z div 64), b64_char (unat z mod 64)] @ b64_encode bs"

text \<open>Decoding skips line breaks (the caller filters them) and wants full groups of four, the
  last one padded.\<close>

definition b64_byte1 :: "nat \<Rightarrow> nat \<Rightarrow> 8 word" where
  "b64_byte1 i j = of_nat (i * 4 + j div 16)"

definition b64_byte2 :: "nat \<Rightarrow> nat \<Rightarrow> 8 word" where
  "b64_byte2 j k = of_nat (j mod 16 * 16 + k div 4)"

definition b64_byte3 :: "nat \<Rightarrow> nat \<Rightarrow> 8 word" where
  "b64_byte3 k l = of_nat (k mod 4 * 64 + l)"

fun b64_groups :: "string \<Rightarrow> bytes option" where
  "b64_groups [] = Some []"
| "b64_groups (a # b # c # d # cs) =
     (case (b64_val a, b64_val b) of
        (Some i, Some j) \<Rightarrow>
          (if c = CHR ''='' then
             (if d = CHR ''='' \<and> cs = [] then Some [b64_byte1 i j] else None)
           else case b64_val c of
             None \<Rightarrow> None
           | Some k \<Rightarrow>
               (if d = CHR ''='' then
                  (if cs = [] then Some [b64_byte1 i j, b64_byte2 j k]
                   else None)
                else case (b64_val d, b64_groups cs) of
                  (Some l, Some bs) \<Rightarrow>
                    Some (b64_byte1 i j # b64_byte2 j k # b64_byte3 k l # bs)
                | _ \<Rightarrow> None))
      | _ \<Rightarrow> None)"
| "b64_groups _ = None"

definition b64_decode :: "string \<Rightarrow> bytes option" where
  "b64_decode s = b64_groups (filter (\<lambda>c. c \<noteq> CHR 0x0A \<and> c \<noteq> CHR 0x0D) s)"

lemma b64_alphabet_ok:
  "\<forall>n < 64. index_of (b64_alphabet ! n) b64_alphabet = Some n \<and>
     b64_alphabet ! n \<noteq> CHR ''='' \<and> b64_alphabet ! n \<noteq> CHR 0x0A \<and> b64_alphabet ! n \<noteq> CHR 0x0D"
  by code_simp

lemma b64_val_char [simp]: "n < 64 \<Longrightarrow> b64_val (b64_char n) = Some n"
  using b64_alphabet_ok by (simp add: b64_val_def b64_char_def)

lemma b64_char_plain [simp]:
  "n < 64 \<Longrightarrow> b64_char n \<noteq> CHR ''=''" "n < 64 \<Longrightarrow> b64_char n \<noteq> CHR 0x0A"
  "n < 64 \<Longrightarrow> b64_char n \<noteq> CHR 0x0D"
  using b64_alphabet_ok by (simp_all add: b64_char_def)

lemma byte_lt: "unat (x :: 8 word) < 256"
proof -
  have "unat x < 2 ^ LENGTH(8)" by (rule unsigned_less)
  then show ?thesis by simp
qed

lemma of_nat_unat_byte: "of_nat (unat (x :: 8 word)) = x"
  by simp

lemma b64_bounds [simp]:
  "unat (x :: 8 word) div 4 < 64"
  "unat x mod 4 * 16 < 64"
  "unat x mod 4 * 16 + unat (y :: 8 word) div 16 < 64"
  "unat y mod 16 * 4 < 64"
  "unat y mod 16 * 4 + unat (z :: 8 word) div 64 < 64"
  "unat z mod 64 < 64"
proof -
  have "unat x div 4 < 64" "unat y div 16 < 16" "unat z div 64 < 4"
    using byte_lt [of x] byte_lt [of y] byte_lt [of z] by (simp_all add: less_mult_imp_div_less)
  moreover have "unat x mod 4 < 4" "unat y mod 16 < 16" "unat z mod 64 < 64" by simp_all
  ultimately show "unat (x :: 8 word) div 4 < 64"
    "unat x mod 4 * 16 < 64"
    "unat x mod 4 * 16 + unat (y :: 8 word) div 16 < 64"
    "unat y mod 16 * 4 < 64"
    "unat y mod 16 * 4 + unat (z :: 8 word) div 64 < 64"
    "unat z mod 64 < 64"
    by linarith+
qed

lemma b64_byte1_ok [simp]:
  "b64_byte1 (unat (x :: 8 word) div 4) (unat x mod 4 * 16 + unat (y :: 8 word) div 16) = x"
  "b64_byte1 (unat x div 4) (unat x mod 4 * 16) = x"
proof -
  have "unat y div 16 < 16" using byte_lt [of y] by (simp add: less_mult_imp_div_less)
  then have "(unat x mod 4 * 16 + unat y div 16) div 16 = unat x mod 4" by simp
  then show "b64_byte1 (unat x div 4) (unat x mod 4 * 16 + unat y div 16) = x"
    and "b64_byte1 (unat x div 4) (unat x mod 4 * 16) = x"
    by (simp_all only: b64_byte1_def div_mult_self_is_m div_mult_mod_eq of_nat_unat_byte
        zero_less_numeral)
qed

lemma b64_byte2_ok [simp]:
  "b64_byte2 (unat (x :: 8 word) mod 4 * 16 + unat (y :: 8 word) div 16)
     (unat y mod 16 * 4 + unat (z :: 8 word) div 64) = y"
  "b64_byte2 (unat x mod 4 * 16 + unat y div 16) (unat y mod 16 * 4) = y"
proof -
  have "unat y div 16 < 16" "unat z div 64 < 4"
    using byte_lt [of y] byte_lt [of z] by (simp_all add: less_mult_imp_div_less)
  then have "(unat x mod 4 * 16 + unat y div 16) mod 16 = unat y div 16"
    and "(unat y mod 16 * 4 + unat z div 64) div 4 = unat y mod 16" by simp_all
  then show "b64_byte2 (unat x mod 4 * 16 + unat y div 16) (unat y mod 16 * 4 + unat z div 64) = y"
    and "b64_byte2 (unat x mod 4 * 16 + unat y div 16) (unat y mod 16 * 4) = y"
    by (simp_all only: b64_byte2_def div_mult_self_is_m div_mult_mod_eq of_nat_unat_byte
        zero_less_numeral)
qed

lemma b64_byte3_ok [simp]:
  "b64_byte3 (unat (y :: 8 word) mod 16 * 4 + unat (z :: 8 word) div 64) (unat z mod 64) = z"
proof -
  have "unat z div 64 < 4" using byte_lt [of z] by (simp add: less_mult_imp_div_less)
  then have "(unat y mod 16 * 4 + unat z div 64) mod 4 = unat z div 64" by simp
  then show ?thesis by (simp only: b64_byte3_def div_mult_mod_eq of_nat_unat_byte)
qed

lemma b64_groups_encode: "b64_groups (b64_encode bs) = Some bs"
  by (induction bs rule: b64_encode.induct) simp_all

lemma b64_decode_encode [simp]: "b64_decode (b64_encode bs) = Some bs"
proof -
  have "filter (\<lambda>c. c \<noteq> CHR 0x0A \<and> c \<noteq> CHR 0x0D) (b64_encode bs) = b64_encode bs"
    by (induction bs rule: b64_encode.induct) simp_all
  then show ?thesis by (simp add: b64_decode_def b64_groups_encode)
qed

subsection \<open>Encoding fields\<close>

definition omit_str :: "string \<Rightarrow> string \<Rightarrow> (string \<times> json) list" where
  "omit_str k s = (if s = [] then [] else [(k, JStr s)])"

text \<open>\<open>omitempty\<close> drops nil and empty slices and maps alike.\<close>

definition omit_list :: "string \<Rightarrow> ('a \<Rightarrow> json) \<Rightarrow> 'a list option \<Rightarrow> (string \<times> json) list" where
  "omit_list k f xs = (case xs of None \<Rightarrow> [] | Some [] \<Rightarrow> [] | Some ys \<Rightarrow> [(k, JArr (map f ys))])"

definition omit_map :: "string \<Rightarrow> (string \<times> string) list option \<Rightarrow> (string \<times> json) list" where
  "omit_map k m =
     (case m of None \<Rightarrow> [] | Some [] \<Rightarrow> []
      | Some kvs \<Rightarrow> [(k, JObj (map (\<lambda>(a, b). (a, JStr b)) kvs))])"

definition omit_bytes :: "string \<Rightarrow> bytes option \<Rightarrow> (string \<times> json) list" where
  "omit_bytes k b = (case b of None \<Rightarrow> [] | Some [] \<Rightarrow> [] | Some bs \<Rightarrow> [(k, JStr (b64_encode bs))])"

definition omit_ptr :: "string \<Rightarrow> ('a \<Rightarrow> json) \<Rightarrow> 'a option \<Rightarrow> (string \<times> json) list" where
  "omit_ptr k f x = (case x of None \<Rightarrow> [] | Some y \<Rightarrow> [(k, f y)])"

text \<open>A slice without \<open>omitempty\<close>: nil prints as null.\<close>

definition slice_json :: "('a \<Rightarrow> json) \<Rightarrow> 'a list option \<Rightarrow> json" where
  "slice_json f xs = (case xs of None \<Rightarrow> JNull | Some ys \<Rightarrow> JArr (map f ys))"

subsection \<open>Decoding fields\<close>

definition lower :: "string \<Rightarrow> string" where
  "lower s = map (\<lambda>c. let n = of_char c :: nat in
     if 65 \<le> n \<and> n \<le> 90 then char_of (n + 32) else c) s"

fun dec_str :: "string \<Rightarrow> json \<Rightarrow> string option" where
  "dec_str old (JStr s) = Some s"
| "dec_str old JNull = Some old"
| "dec_str old _ = None"

fun dec_int :: "int \<Rightarrow> json \<Rightarrow> int option" where
  "dec_int old (JNum i) = (if in_int64 i then Some i else None)"
| "dec_int old JNull = Some old"
| "dec_int old _ = None"

fun dec_bytes :: "json \<Rightarrow> bytes option option" where
  "dec_bytes (JStr s) = map_option Some (b64_decode s)"
| "dec_bytes JNull = Some None"
| "dec_bytes _ = None"

fun dec_list :: "(json \<Rightarrow> 'a option) \<Rightarrow> json \<Rightarrow> 'a list option option" where
  "dec_list f (JArr xs) = map_option Some (those (map f xs))"
| "dec_list f JNull = Some None"
| "dec_list f _ = None"

fun map_put :: "string \<Rightarrow> string \<Rightarrow> (string \<times> string) list \<Rightarrow> (string \<times> string) list" where
  "map_put k v [] = [(k, v)]"
| "map_put k v ((a, b) # m) =
     (if k < a then (k, v) # (a, b) # m else if k = a then (k, v) # m else (a, b) # map_put k v m)"

fun dec_entries ::
  "(string \<times> string) list \<Rightarrow> (string \<times> json) list \<Rightarrow> (string \<times> string) list option" where
  "dec_entries m [] = Some m"
| "dec_entries m ((k, j) # kvs) =
     (case dec_str [] j of None \<Rightarrow> None | Some v \<Rightarrow> dec_entries (map_put k v m) kvs)"

fun dec_map :: "(string \<times> string) list option \<Rightarrow> json \<Rightarrow> (string \<times> string) list option option" where
  "dec_map old (JObj kvs) =
     map_option Some (dec_entries (case old of None \<Rightarrow> [] | Some m \<Rightarrow> m) kvs)"
| "dec_map old JNull = Some None"
| "dec_map old _ = None"

text \<open>An object is decoded member by member into the struct built so far; a key selects its
  field up to letter case, an unknown key is skipped by the field function.\<close>

fun dec_members ::
  "(string \<Rightarrow> json \<Rightarrow> 'a \<Rightarrow> 'a option) \<Rightarrow> (string \<times> json) list \<Rightarrow> 'a \<Rightarrow> 'a option" where
  "dec_members f [] x = Some x"
| "dec_members f ((k, j) # kvs) x =
     (case f (lower k) j x of None \<Rightarrow> None | Some y \<Rightarrow> dec_members f kvs y)"

fun dec_struct :: "(string \<Rightarrow> json \<Rightarrow> 'a \<Rightarrow> 'a option) \<Rightarrow> 'a \<Rightarrow> json \<Rightarrow> 'a option" where
  "dec_struct f x (JObj kvs) = dec_members f kvs x"
| "dec_struct f x JNull = Some x"
| "dec_struct f x _ = None"

lemma dec_members_append:
  "dec_members f (a @ b) x =
     (case dec_members f a x of None \<Rightarrow> None | Some y \<Rightarrow> dec_members f b y)"
  by (induction f a x rule: dec_members.induct) (auto split: option.splits)

text \<open>A Go map in its canonical form: keys strictly increasing.\<close>

definition map_ok :: "(string \<times> string) list \<Rightarrow> bool" where
  "map_ok m \<longleftrightarrow> sorted_wrt (<) (map fst m)"

lemma map_put_last: "map_ok (m @ [(k, v)]) \<Longrightarrow> map_put k v m = m @ [(k, v)]"
  by (induction k v m rule: map_put.induct) (auto simp: map_ok_def sorted_wrt_append)

lemma dec_entries_map:
  "map_ok (m @ kvs) \<Longrightarrow> dec_entries m (map (\<lambda>(a, b). (a, JStr b)) kvs) = Some (m @ kvs)"
proof (induction kvs arbitrary: m)
  case (Cons kv kvs)
  obtain k v where kv: "kv = (k, v)" by (cases kv)
  have "map_ok (m @ [(k, v)])"
    using Cons.prems by (auto simp: map_ok_def sorted_wrt_append kv)
  then show ?case
    using Cons.IH [of "m @ [(k, v)]"] Cons.prems by (simp add: kv map_put_last)
qed simp

lemma map_put_keys: "fst ` set (map_put k v m) = insert k (fst ` set m)"
  by (induction k v m rule: map_put.induct) auto

lemma map_put_ok: "map_ok m \<Longrightarrow> map_ok (map_put k v m)"
proof (induction k v m rule: map_put.induct)
  case (2 k v a b m)
  have "\<forall>x \<in> fst ` set (map_put k v m). a < x" if "\<not> k < a" "k \<noteq> a"
    using that 2(2) by (auto simp: map_put_keys map_ok_def)
  with 2 show ?case by (fastforce simp: map_ok_def)
qed (simp add: map_ok_def)

lemma dec_entries_ok: "dec_entries m kvs = Some m' \<Longrightarrow> map_ok m \<Longrightarrow> map_ok m'"
  by (induction m kvs rule: dec_entries.induct) (auto simp: map_put_ok split: option.splits)

definition nonempty :: "'a list option \<Rightarrow> 'a list option" where
  "nonempty xs = (if xs = Some [] then None else xs)"

lemma those_map_Some: "\<forall>x \<in> set xs. f (g x) = Some (h x) \<Longrightarrow> those (map (f \<circ> g) xs) = Some (map h xs)"
  by (induction xs) auto

end
