(* ===== verification/GoJsonText.thy ===== *)
theory GoJsonText
  imports GoJson
begin

text \<open>
  The text form of JSON values as \<open>encoding/json\<close> prints and reads it: \<open>Marshal\<close>'s compact
  form with its HTML-safe escapes and the replacement of invalid UTF-8, and \<open>Unmarshal\<close>'s
  scanner (a machine that takes one byte, then one token, at a time, with Go's limit of 10000
  open brackets) and string unquoting. Reading the printed form of a value gives the value back
  when its strings are ASCII.
\<close>

definition bytes_of :: "string \<Rightarrow> bytes" where
  "bytes_of s = map (\<lambda>c. of_nat (of_char c)) s"

definition string_of :: "bytes \<Rightarrow> string" where
  "string_of b = map (\<lambda>w. char_of (unat w)) b"

lemma string_of_bytes_of [simp]: "string_of (bytes_of s) = s"
proof -
  have "char_of (unat (of_nat (of_char c) :: 8 word)) = c" for c :: char
  proof -
    have "(of_char c :: nat) mod 256 < 256" by simp
    then have "(of_char c :: nat) < 2 ^ LENGTH(8)" by (simp only: of_char_mod_256) simp
    then have "unat (of_nat (of_char c) :: 8 word) = of_char c"
      by (simp add: unsigned_of_nat take_bit_nat_eq_self)
    then show ?thesis by simp
  qed
  then show ?thesis by (simp add: string_of_def bytes_of_def comp_def)
qed

lemma length_bytes_of [simp]: "length (bytes_of s) = length s"
  by (simp add: bytes_of_def)

abbreviation ord :: "char \<Rightarrow> nat" where "ord c \<equiv> of_char c"

subsection \<open>UTF-8\<close>

definition cont :: "nat \<Rightarrow> bool" where
  "cont n \<longleftrightarrow> 128 \<le> n \<and> n < 192"

text \<open>\<open>utf8.DecodeRune\<close>: the rune at the head and its length; \<open>None\<close> for an invalid byte.\<close>

definition rune2 :: "nat \<Rightarrow> string \<Rightarrow> (nat \<times> nat) option" where
  "rune2 a r = (case map ord r of
     b # _ \<Rightarrow> if 194 \<le> a \<and> a < 224 \<and> cont b then Some (a mod 32 * 64 + b mod 64, 2) else None
   | _ \<Rightarrow> None)"

definition rune3 :: "nat \<Rightarrow> string \<Rightarrow> (nat \<times> nat) option" where
  "rune3 a r = (case map ord r of
     b # c # _ \<Rightarrow>
       if 224 \<le> a \<and> a < 240 \<and> cont b \<and> cont c \<and> (a = 224 \<longrightarrow> 160 \<le> b) \<and> (a = 237 \<longrightarrow> b < 160)
       then Some (a mod 16 * 4096 + b mod 64 * 64 + c mod 64, 3) else None
   | _ \<Rightarrow> None)"

definition rune4 :: "nat \<Rightarrow> string \<Rightarrow> (nat \<times> nat) option" where
  "rune4 a r = (case map ord r of
     b # c # d # _ \<Rightarrow>
       if 240 \<le> a \<and> a < 245 \<and> cont b \<and> cont c \<and> cont d \<and> (a = 240 \<longrightarrow> 144 \<le> b) \<and>
         (a = 244 \<longrightarrow> b < 144)
       then Some (a mod 8 * 262144 + b mod 64 * 4096 + c mod 64 * 64 + d mod 64, 4) else None
   | _ \<Rightarrow> None)"

definition decode_rune :: "char \<Rightarrow> string \<Rightarrow> (nat \<times> nat) option" where
  "decode_rune c r =
     (if ord c < 128 then Some (ord c, 1)
      else case rune2 (ord c) r of Some x \<Rightarrow> Some x
      | None \<Rightarrow> (case rune3 (ord c) r of Some x \<Rightarrow> Some x | None \<Rightarrow> rune4 (ord c) r))"

text \<open>\<open>utf8.EncodeRune\<close>; surrogates and values out of range become U+FFFD.\<close>

definition encode_rune :: "nat \<Rightarrow> string" where
  "encode_rune n =
     (let v = (if (55296 \<le> n \<and> n < 57344) \<or> 1114112 \<le> n then 65533 else n) in
      map char_of
        (if v < 128 then [v]
         else if v < 2048 then [192 + v div 64, 128 + v mod 64]
         else if v < 65536 then [224 + v div 4096, 128 + v div 64 mod 64, 128 + v mod 64]
         else [240 + v div 262144, 128 + v div 4096 mod 64, 128 + v div 64 mod 64, 128 + v mod 64]))"

subsection \<open>Printing\<close>

definition hex4 :: "nat \<Rightarrow> string" where
  "hex4 n = [hex_digit (n div 4096 mod 16), hex_digit (n div 256 mod 16), hex_digit (n div 16 mod 16),
     hex_digit (n mod 16)]"

definition esc_u :: "nat \<Rightarrow> string" where
  "esc_u n = [CHR 0x5C, CHR ''u''] @ hex4 n"

definition esc_char :: "char \<Rightarrow> string" where
  "esc_char c =
     (if c = CHR 0x22 \<or> c = CHR 0x5C then [CHR 0x5C, c]
      else if c = CHR 0x08 then [CHR 0x5C, CHR ''b'']
      else if c = CHR 0x0C then [CHR 0x5C, CHR ''f'']
      else if c = CHR 0x0A then [CHR 0x5C, CHR ''n'']
      else if c = CHR 0x0D then [CHR 0x5C, CHR ''r'']
      else if c = CHR 0x09 then [CHR 0x5C, CHR ''t'']
      else if ord c < 32 \<or> c = CHR ''<'' \<or> c = CHR ''>'' \<or> c = CHR ''&'' then esc_u (ord c)
      else [c])"

text \<open>The content of a string literal: ASCII escaped, a valid rune copied (U+2028 and U+2029
  escaped), an invalid byte replaced. The first argument counts bytes of a rune still to copy.\<close>

fun esc_body :: "nat \<Rightarrow> string \<Rightarrow> string" where
  "esc_body _ [] = []"
| "esc_body (Suc n) (c # r) = c # esc_body n r"
| "esc_body 0 (c # r) =
     (if ord c < 128 then esc_char c @ esc_body 0 r
      else case decode_rune c r of
        None \<Rightarrow> esc_u 65533 @ esc_body 0 r
      | Some (v, n) \<Rightarrow>
          if v = 8232 \<or> v = 8233 then esc_u v @ esc_body 0 (drop (n - 1) r)
          else c # esc_body (n - 1) r)"

definition quote :: "string \<Rightarrow> string" where
  "quote s = CHR 0x22 # esc_body 0 s @ [CHR 0x22]"

fun sep_by :: "string list \<Rightarrow> string" where
  "sep_by [] = []"
| "sep_by [x] = x"
| "sep_by (x # y # xs) = x @ CHR '','' # sep_by (y # xs)"

fun print_json :: "json \<Rightarrow> string" where
  "print_json JNull = ''null''"
| "print_json (JBool b) = (if b then ''true'' else ''false'')"
| "print_json (JNum i) = Itoa i"
| "print_json (JFloat s) = s"
| "print_json (JStr s) = quote s"
| "print_json (JArr xs) = CHR ''['' # sep_by (map print_json xs) @ '']''"
| "print_json (JObj kvs) =
     CHR ''{'' # sep_by (map (\<lambda>(k, v). quote k @ CHR '':'' # print_json v) kvs) @ ''}''"

subsection \<open>Unquoting\<close>

definition hex_val :: "char \<Rightarrow> nat option" where
  "hex_val c = (let n = ord c in
     if 48 \<le> n \<and> n \<le> 57 then Some (n - 48)
     else if 97 \<le> n \<and> n \<le> 102 then Some (n - 87)
     else if 65 \<le> n \<and> n \<le> 70 then Some (n - 55) else None)"

definition getu4 :: "string \<Rightarrow> nat option" where
  "getu4 s = (case map hex_val (take 4 s) of
     [Some a, Some b, Some c, Some d] \<Rightarrow> Some (a * 4096 + b * 256 + c * 16 + d) | _ \<Rightarrow> None)"

text \<open>The low half of a surrogate pair that follows a high half.\<close>

definition surrogate_pair :: "nat \<Rightarrow> string \<Rightarrow> nat option" where
  "surrogate_pair hi r =
     (if 55296 \<le> hi \<and> hi < 56320 \<and> take 2 r = [CHR 0x5C, CHR ''u''] then
        (case getu4 (drop 2 r) of
           Some lo \<Rightarrow> if 56320 \<le> lo \<and> lo < 57344
             then Some ((hi - 55296) * 1024 + (lo - 56320) + 65536) else None
         | None \<Rightarrow> None)
      else None)"

definition simple_escapes :: "(char \<times> char) list" where
  "simple_escapes = [(CHR 0x22, CHR 0x22), (CHR 0x5C, CHR 0x5C), (CHR ''/'', CHR ''/''),
     (CHR ''b'', CHR 0x08), (CHR ''f'', CHR 0x0C), (CHR ''n'', CHR 0x0A), (CHR ''r'', CHR 0x0D),
     (CHR ''t'', CHR 0x09)]"

function unquote :: "string \<Rightarrow> string option" where
  "unquote [] = Some []"
| "unquote (c # r) =
     (if c = CHR 0x5C then
        (case r of
           [] \<Rightarrow> None
         | x # r1 \<Rightarrow>
             if x = CHR ''u'' then
               (case getu4 r1 of
                  None \<Rightarrow> None
                | Some v \<Rightarrow>
                    (case surrogate_pair v (drop 4 r1) of
                       Some w \<Rightarrow> map_option ((@) (encode_rune w)) (unquote (drop 10 r1))
                     | None \<Rightarrow> map_option ((@) (encode_rune v)) (unquote (drop 4 r1))))
             else (case map_of simple_escapes x of
                 None \<Rightarrow> None | Some y \<Rightarrow> map_option ((#) y) (unquote r1)))
      else if c = CHR 0x22 \<or> ord c < 32 then None
      else case decode_rune c r of
        None \<Rightarrow> map_option ((@) (encode_rune 65533)) (unquote r)
      | Some (v, n) \<Rightarrow> map_option ((@) (encode_rune v)) (unquote (drop (n - 1) r)))"
  by pat_completeness auto
termination by (relation "measure length") auto

subsection \<open>Tokens\<close>

datatype token = LBrace | RBrace | LBrack | RBrack | Colon | Comma | TStr string | TVal json

text \<open>The grammar of numbers: \<open>-?(0|[1-9][0-9]*)([.][0-9]+)?([eE][+-]?[0-9]+)?\<close>.\<close>

definition is_digit :: "char \<Rightarrow> bool" where
  "is_digit c \<longleftrightarrow> 48 \<le> ord c \<and> ord c \<le> 57"

definition exp_ok :: "string \<Rightarrow> bool" where
  "exp_ok s \<longleftrightarrow> s = [] \<or>
     (hd s \<in> {CHR ''e'', CHR ''E''} \<and>
      (let t = (case tl s of [] \<Rightarrow> [] | c # cs \<Rightarrow> if c = CHR ''+'' \<or> c = CHR ''-'' then cs else c # cs)
       in t \<noteq> [] \<and> list_all is_digit t))"

definition frac_ok :: "string \<Rightarrow> bool" where
  "frac_ok s \<longleftrightarrow>
     (case s of
        [] \<Rightarrow> True
      | c # cs \<Rightarrow> if c = CHR ''.'' then takeWhile is_digit cs \<noteq> [] \<and> exp_ok (dropWhile is_digit cs)
                  else exp_ok s)"

definition num_token :: "string \<Rightarrow> json option" where
  "num_token s =
     (let u = (case s of [] \<Rightarrow> [] | c # cs \<Rightarrow> if c = CHR ''-'' then cs else s);
          ip = takeWhile is_digit u; rest = dropWhile is_digit u
      in if ip = [] \<or> (hd ip = CHR ''0'' \<and> ip \<noteq> ''0'') \<or> \<not> frac_ok rest then None
         else if rest \<noteq> [] then Some (JFloat s)
         else map_option (\<lambda>i. JNum (if u = s then i else - i)) (parse_unsigned u))"

definition word_token :: "string \<Rightarrow> json option" where
  "word_token s = (if s = ''null'' then Some JNull else if s = ''true'' then Some (JBool True)
     else if s = ''false'' then Some (JBool False) else None)"

definition num_char :: "char \<Rightarrow> bool" where
  "num_char c \<longleftrightarrow> is_digit c \<or> c \<in> set ''+-.eE''"

definition word_char :: "char \<Rightarrow> bool" where
  "word_char c \<longleftrightarrow> 97 \<le> ord c \<and> ord c \<le> 122"

definition punct :: "char \<Rightarrow> token option" where
  "punct c = map_of [(CHR ''{'', LBrace), (CHR ''}'', RBrace), (CHR ''['', LBrack),
     (CHR '']'', RBrack), (CHR '':'', Colon), (CHR '','', Comma)] c"

definition is_space :: "char \<Rightarrow> bool" where
  "is_space c \<longleftrightarrow> c \<in> {CHR '' '', CHR 0x09, CHR 0x0A, CHR 0x0D}"

text \<open>The scanner, one byte at a time, with what it is in the middle of.\<close>

datatype scan = Plain | InStr string | InEsc string | InNum string | InWord string

definition scan_start :: "char \<Rightarrow> (token list \<times> scan) option" where
  "scan_start c =
     (if is_space c then Some ([], Plain)
      else case punct c of
        Some t \<Rightarrow> Some ([t], Plain)
      | None \<Rightarrow>
          if c = CHR 0x22 then Some ([], InStr [])
          else if c = CHR ''-'' \<or> is_digit c then Some ([], InNum [c])
          else if word_char c then Some ([], InWord [c])
          else None)"

fun scan_end :: "scan \<Rightarrow> token list option" where
  "scan_end Plain = Some []"
| "scan_end (InNum s) = map_option (\<lambda>v. [TVal v]) (num_token s)"
| "scan_end (InWord s) = map_option (\<lambda>v. [TVal v]) (word_token s)"
| "scan_end _ = None"

fun scan_step :: "scan \<Rightarrow> char \<Rightarrow> (token list \<times> scan) option" where
  "scan_step Plain c = scan_start c"
| "scan_step (InStr s) c =
     (if c = CHR 0x22 then map_option (\<lambda>x. ([TStr x], Plain)) (unquote s)
      else if c = CHR 0x5C then Some ([], InEsc (s @ [c]))
      else if ord c < 32 then None
      else Some ([], InStr (s @ [c])))"
| "scan_step (InEsc s) c = Some ([], InStr (s @ [c]))"
| "scan_step (InNum s) c =
     (if num_char c then Some ([], InNum (s @ [c]))
      else case (num_token s, scan_start c) of
        (Some v, Some (ts, st)) \<Rightarrow> Some (TVal v # ts, st) | _ \<Rightarrow> None)"
| "scan_step (InWord s) c =
     (if word_char c then Some ([], InWord (s @ [c]))
      else case (word_token s, scan_start c) of
        (Some v, Some (ts, st)) \<Rightarrow> Some (TVal v # ts, st) | _ \<Rightarrow> None)"

fun scan_all :: "scan \<Rightarrow> string \<Rightarrow> token list option" where
  "scan_all st [] = scan_end st"
| "scan_all st (c # cs) =
     (case scan_step st c of
        None \<Rightarrow> None
      | Some (ts, st') \<Rightarrow> map_option ((@) ts) (scan_all st' cs))"

subsection \<open>Values\<close>

datatype frame = InArr "json list" | InObj "(string \<times> json) list" string

datatype mode =
    Value
  | FirstElem
  | FirstKey
  | Key "(string \<times> json) list"
  | AfterKey "(string \<times> json) list" string
  | Done json

definition max_depth :: nat where "max_depth = 10000"

text \<open>The start of a value, on a stack of open arrays and objects.\<close>

definition start_value :: "frame list \<Rightarrow> token \<Rightarrow> (mode \<times> frame list) option" where
  "start_value st t =
     (case t of
        TVal v \<Rightarrow> Some (Done v, st)
      | TStr s \<Rightarrow> Some (Done (JStr s), st)
      | LBrack \<Rightarrow> if length st < max_depth then Some (FirstElem, st) else None
      | LBrace \<Rightarrow> if length st < max_depth then Some (FirstKey, st) else None
      | _ \<Rightarrow> None)"

fun end_value :: "json \<Rightarrow> frame list \<Rightarrow> token \<Rightarrow> (mode \<times> frame list) option" where
  "end_value v (InArr xs # st) t =
     (if t = Comma then Some (Value, InArr (xs @ [v]) # st)
      else if t = RBrack then Some (Done (JArr (xs @ [v])), st) else None)"
| "end_value v (InObj kvs k # st) t =
     (if t = Comma then Some (Key (kvs @ [(k, v)]), st)
      else if t = RBrace then Some (Done (JObj (kvs @ [(k, v)])), st) else None)"
| "end_value v [] t = None"

fun parse_step :: "mode \<Rightarrow> frame list \<Rightarrow> token \<Rightarrow> (mode \<times> frame list) option" where
  "parse_step Value st t = start_value st t"
| "parse_step FirstElem st t =
     (if t = RBrack then Some (Done (JArr []), st) else start_value (InArr [] # st) t)"
| "parse_step FirstKey st t =
     (if t = RBrace then Some (Done (JObj []), st)
      else case t of TStr k \<Rightarrow> Some (AfterKey [] k, st) | _ \<Rightarrow> None)"
| "parse_step (Key kvs) st t = (case t of TStr k \<Rightarrow> Some (AfterKey kvs k, st) | _ \<Rightarrow> None)"
| "parse_step (AfterKey kvs k) st t = (if t = Colon then Some (Value, InObj kvs k # st) else None)"
| "parse_step (Done v) st t = end_value v st t"

fun parse_all :: "mode \<Rightarrow> frame list \<Rightarrow> token list \<Rightarrow> json option" where
  "parse_all m st [] = (case m of Done v \<Rightarrow> if st = [] then Some v else None | _ \<Rightarrow> None)"
| "parse_all m st (t # ts) =
     (case parse_step m st t of None \<Rightarrow> None | Some (m', st') \<Rightarrow> parse_all m' st' ts)"

definition parse_json :: "string \<Rightarrow> json option" where
  "parse_json s = Option.bind (scan_all Plain s) (parse_all Value [])"

definition Marshal :: "json \<Rightarrow> bytes" where
  "Marshal j = bytes_of (print_json j)"

definition Unmarshal :: "bytes \<Rightarrow> json option" where
  "Unmarshal b = parse_json (string_of b)"

subsection \<open>Reading back what was printed\<close>

definition ascii_str :: "string \<Rightarrow> bool" where
  "ascii_str s \<longleftrightarrow> (\<forall>c \<in> set s. ord c < 128)"

fun ascii_json :: "json \<Rightarrow> bool" where
  "ascii_json (JStr s) = ascii_str s"
| "ascii_json (JArr xs) = (\<forall>x \<in> set xs. ascii_json x)"
| "ascii_json (JObj kvs) = (\<forall>kv \<in> set kvs. ascii_str (fst kv) \<and> ascii_json (snd kv))"
| "ascii_json (JFloat s) = False"
| "ascii_json _ = True"

fun json_depth :: "json \<Rightarrow> nat" where
  "json_depth (JArr xs) = Suc (foldr max (map json_depth xs) 0)"
| "json_depth (JObj kvs) = Suc (foldr max (map (\<lambda>kv. json_depth (snd kv)) kvs) 0)"
| "json_depth _ = 0"

text \<open>Characters are checked one by one, by evaluation.\<close>

definition ascii_chars :: string where
  "ascii_chars = map char_of [0..<128::nat]"

lemma ascii_char_in: "ord c < 128 \<Longrightarrow> c \<in> set ascii_chars"
proof -
  assume "ord c < 128"
  then have "char_of (ord c) \<in> char_of ` {0..<128::nat}" by (intro imageI) simp
  then show ?thesis by (simp add: ascii_chars_def)
qed

lemma map_option_append_Nil [simp]: "map_option ((@) []) x = x"
  by (cases x) simp_all

lemma append_single [simp]: "(@) [x] = (#) x"
  by (rule ext) simp

lemma append_Cons_fun: "(@) (x # xs) = (\<lambda>ys. x # xs @ ys)"
  by (rule ext) simp

fun skip_str :: "bool \<Rightarrow> string \<Rightarrow> bool option" where
  "skip_str b [] = Some b"
| "skip_str True (c # e) = skip_str False e"
| "skip_str False (c # e) =
     (if c = CHR 0x22 then None else if c = CHR 0x5C then skip_str True e
      else if ord c < 32 then None else skip_str False e)"

lemma scan_skip:
  "skip_str b e = Some b' \<Longrightarrow>
     scan_all (if b then InEsc s else InStr s) (e @ r) =
     scan_all (if b' then InEsc (s @ e) else InStr (s @ e)) r"
proof (induction b e arbitrary: s rule: skip_str.induct)
  case (2 c e)
  then show ?case using "2.IH" [of "s @ [c]"] by simp
next
  case (3 c e)
  then show ?case
    using "3.IH"(1) [of "s @ [c]"] "3.IH"(2) [of "s @ [c]"] by (auto split: if_splits)
qed simp

lemma skip_esc_char: "ord c < 128 \<Longrightarrow> skip_str False (esc_char c) = Some False"
proof -
  have "\<forall>c \<in> set ascii_chars. skip_str False (esc_char c) = Some False" by code_simp
  then show "ord c < 128 \<Longrightarrow> ?thesis" using ascii_char_in by blast
qed

lemma skip_append:
  "skip_str b (e @ f) = (case skip_str b e of None \<Rightarrow> None | Some b' \<Rightarrow> skip_str b' f)"
  by (induction b e rule: skip_str.induct) auto

lemma ascii_Cons [simp]: "ascii_str (c # s) \<longleftrightarrow> ord c < 128 \<and> ascii_str s"
  by (simp add: ascii_str_def)

lemma skip_esc_body: "ascii_str s \<Longrightarrow> skip_str False (esc_body 0 s) = Some False"
  by (induction s) (simp_all add: skip_append skip_esc_char)

lemma hex_val_digit: "d < 16 \<Longrightarrow> hex_val (hex_digit d) = Some d"
proof -
  have "\<forall>d < 16. hex_val (hex_digit d) = Some d" by code_simp
  then show "d < 16 \<Longrightarrow> ?thesis" by blast
qed

lemma getu4_hex4: "n < 128 \<Longrightarrow> getu4 (hex4 n @ r) = Some n"
  by (simp add: getu4_def hex4_def hex_val_digit)

lemma encode_rune_ascii: "ord c < 128 \<Longrightarrow> encode_rune (ord c) = [c]"
  by (simp add: encode_rune_def)

lemma unquote_esc_u:
  assumes "n < 128"
  shows "unquote (esc_u n @ r) = map_option ((@) (encode_rune n)) (unquote r)"
proof -
  have "drop 4 (hex4 n @ r) = r" by (simp add: hex4_def)
  moreover have "surrogate_pair n r = None" using assms by (simp add: surrogate_pair_def)
  ultimately show ?thesis using getu4_hex4 [OF assms] by (simp add: esc_u_def)
qed

lemma esc_char_cases:
  assumes "ord c < 128"
  obtains "esc_char c = esc_u (ord c)"
  | "esc_char c = [c]" and "c \<noteq> CHR 0x5C" and "c \<noteq> CHR 0x22" and "\<not> ord c < 32"
  | x where "esc_char c = [CHR 0x5C, x]" and "x \<noteq> CHR ''u''" and "map_of simple_escapes x = Some c"
proof -
  let ?special = "[CHR 0x22, CHR 0x5C, CHR 0x08, CHR 0x0C, CHR 0x0A, CHR 0x0D, CHR 0x09]"
  consider "c \<in> set ?special" | "c \<notin> set ?special" and "ord c < 32 \<or> c = CHR ''<'' \<or> c = CHR ''>'' \<or> c = CHR ''&''"
    | "c \<notin> set ?special" and "\<not> (ord c < 32 \<or> c = CHR ''<'' \<or> c = CHR ''>'' \<or> c = CHR ''&'')" by blast
  then show thesis
  proof cases
    case 1
    have "\<forall>c \<in> set ?special. esc_char c = [CHR 0x5C, last (esc_char c)] \<and> last (esc_char c) \<noteq> CHR ''u'' \<and>
        map_of simple_escapes (last (esc_char c)) = Some c"
      by (simp add: esc_char_def simple_escapes_def)
    with 1 show thesis using that(3) by blast
  next
    case 2
    then show thesis by (intro that(1)) (simp add: esc_char_def)
  next
    case 3
    then show thesis by (intro that(2)) (simp_all add: esc_char_def)
  qed
qed

lemma unquote_esc_char:
  assumes "ord c < 128"
  shows "unquote (esc_char c @ r) = map_option ((#) c) (unquote r)"
  using assms
proof (cases rule: esc_char_cases)
  case 1
  then show ?thesis
    using unquote_esc_u [OF assms, of r] encode_rune_ascii [OF assms] by simp
next
  case 2
  then show ?thesis
    using encode_rune_ascii [OF assms] assms by (simp add: decode_rune_def)
next
  case (3 x)
  then show ?thesis by simp
qed

lemma unquote_esc_body: "ascii_str s \<Longrightarrow> unquote (esc_body 0 s) = Some s"
  by (induction s) (simp_all add: unquote_esc_char del: unquote.simps(2))

text \<open>A quoted string is scanned to one token.\<close>

lemma scan_quote:
  assumes "ascii_str s"
  shows "scan_all Plain (quote s @ r) = map_option ((#) (TStr s)) (scan_all Plain r)"
proof -
  have "scan_all Plain (quote s @ r) = scan_all (InStr []) (esc_body 0 s @ CHR 0x22 # r)"
    by (simp add: quote_def scan_start_def is_space_def punct_def)
  also have "\<dots> = scan_all (InStr (esc_body 0 s)) (CHR 0x22 # r)"
    using scan_skip [OF skip_esc_body [OF assms], of "[]" "CHR 0x22 # r"] by simp
  also have "\<dots> = map_option ((#) (TStr s)) (scan_all Plain r)"
    using unquote_esc_body [OF assms] by (simp add: option.map_comp comp_def)
  finally show ?thesis .
qed

text \<open>A word or a number ends where the next byte cannot continue it.\<close>

definition stop :: "string \<Rightarrow> bool" where
  "stop r \<longleftrightarrow> r = [] \<or> (\<not> num_char (hd r) \<and> \<not> word_char (hd r))"

lemma scan_word:
  assumes "word_token s = Some v" and "stop r"
  shows "scan_all (InWord s) r = map_option ((#) (TVal v)) (scan_all Plain r)"
  using assms
  by (cases r) (auto simp: stop_def option.map_comp comp_def append_Cons_fun split: option.splits)

lemma scan_num:
  assumes "num_token s = Some v" and "stop r"
  shows "scan_all (InNum s) r = map_option ((#) (TVal v)) (scan_all Plain r)"
  using assms
  by (cases r) (auto simp: stop_def option.map_comp comp_def append_Cons_fun split: option.splits)

lemma scan_in_num: "list_all num_char cs \<Longrightarrow> scan_all (InNum s) (cs @ r) = scan_all (InNum (s @ cs)) r"
  by (induction cs arbitrary: s) simp_all

lemma scan_in_word: "list_all word_char cs \<Longrightarrow> scan_all (InWord s) (cs @ r) = scan_all (InWord (s @ cs)) r"
  by (induction cs arbitrary: s) simp_all

lemma digit_is_digit: "d < 10 \<Longrightarrow> is_digit (digit d)"
  by (drule less_10_cases) (auto simp: is_digit_def digit_def)

lemma nat_digits_is_digit: "list_all is_digit (nat_digits n)"
  unfolding list_all_iff using nat_digits_digits digit_is_digit by blast

lemma digit_0: "d < 10 \<Longrightarrow> digit d = CHR ''0'' \<longleftrightarrow> d = 0"
  by (drule less_10_cases) (auto simp: digit_def)

lemma hd_nat_digits: "0 < n \<Longrightarrow> hd (nat_digits n) \<noteq> CHR ''0''"
proof (induction n rule: nat_digits.induct)
  case (1 n)
  show ?case
  proof (cases "n < 10")
    case True
    then show ?thesis using 1 digit_0 [of n] by (simp add: nat_digits.simps)
  next
    case False
    then show ?thesis using 1 by (simp add: nat_digits.simps [of n] div_greater_zero_iff)
  qed
qed

lemma nat_digits_number:
  "takeWhile is_digit (nat_digits n) = nat_digits n" "dropWhile is_digit (nat_digits n) = []"
  "\<not> (hd (nat_digits n) = CHR ''0'' \<and> nat_digits n \<noteq> ''0'')"
proof -
  have "\<forall>c \<in> set (nat_digits n). is_digit c" using nat_digits_is_digit [of n] by (simp add: list_all_iff)
  then show "takeWhile is_digit (nat_digits n) = nat_digits n" "dropWhile is_digit (nat_digits n) = []"
    by (simp_all add: takeWhile_eq_all_conv)
  have "nat_digits 0 = ''0''" by (simp add: nat_digits.simps digit_def)
  then show "\<not> (hd (nat_digits n) = CHR ''0'' \<and> nat_digits n \<noteq> ''0'')"
    using hd_nat_digits [of n] by (cases "n = 0") simp_all
qed

lemma num_token_digits: "num_token (nat_digits n) = Some (JNum (int n))"
proof -
  obtain c cs where eq: "nat_digits n = c # cs" by (cases "nat_digits n") auto
  have "c \<noteq> CHR ''-''" using nat_digits_no_sign [of c n] by (simp add: eq)
  then have "(case nat_digits n of [] \<Rightarrow> [] | c # cs \<Rightarrow> if c = CHR ''-'' then cs else nat_digits n) = nat_digits n"
    by (simp add: eq)
  then show ?thesis
    using nat_digits_number(3) [of n]
    by (simp add: num_token_def Let_def frac_ok_def nat_digits_number(1,2))
qed

lemma num_token_neg: "num_token (CHR ''-'' # nat_digits n) = Some (JNum (- int n))"
  using nat_digits_number(3) [of n]
  by (simp add: num_token_def Let_def frac_ok_def nat_digits_number(1,2))

lemma num_token_Itoa: "num_token (Itoa i) = Some (JNum i)"
  by (simp add: Itoa_def num_token_digits num_token_neg)

lemma is_digit_num_char: "list_all is_digit cs \<Longrightarrow> list_all num_char cs"
  by (auto simp: list_all_iff num_char_def)

lemma is_digit_plain: "is_digit c \<Longrightarrow> scan_start c = Some ([], InNum [c])"
proof -
  assume "is_digit c"
  then have "48 \<le> ord c" "ord c \<le> 57" by (auto simp: is_digit_def)
  then have "c \<notin> set ''{}[]:, '' \<and> c \<noteq> CHR 0x22 \<and> c \<noteq> CHR 0x09 \<and> c \<noteq> CHR 0x0A \<and> c \<noteq> CHR 0x0D" by auto
  with \<open>is_digit c\<close> show ?thesis by (simp add: scan_start_def is_space_def punct_def)
qed

lemma scan_Itoa:
  assumes "stop r"
  shows "scan_all Plain (Itoa i @ r) = map_option ((#) (TVal (JNum i))) (scan_all Plain r)"
proof -
  have "scan_all Plain (Itoa i @ r) = scan_all (InNum (Itoa i)) r"
  proof (cases "i < 0")
    case True
    have "scan_start (CHR ''-'') = Some ([], InNum ''-'')" by code_simp
    then show ?thesis
      using True scan_in_num [OF is_digit_num_char [OF nat_digits_is_digit], of "''-''" "nat (- i)" r]
      by (simp add: Itoa_def)
  next
    case False
    obtain c cs where eq: "nat_digits (nat i) = c # cs" by (cases "nat_digits (nat i)") auto
    then have "is_digit c" "list_all is_digit cs" using nat_digits_is_digit [of "nat i"] by auto
    then show ?thesis
      using False scan_in_num [OF is_digit_num_char, of cs "[c]" r] is_digit_plain
      by (simp add: Itoa_def eq)
  qed
  then show ?thesis using scan_num [OF num_token_Itoa assms] by simp
qed

subsection \<open>The tokens of a printed value\<close>

fun sep_toks :: "token list list \<Rightarrow> token list" where
  "sep_toks [] = []"
| "sep_toks [x] = x"
| "sep_toks (x # y # xs) = x @ Comma # sep_toks (y # xs)"

fun toks :: "json \<Rightarrow> token list" where
  "toks (JStr s) = [TStr s]"
| "toks (JArr xs) = LBrack # sep_toks (map toks xs) @ [RBrack]"
| "toks (JObj kvs) = LBrace # sep_toks (map (\<lambda>(k, v). TStr k # Colon # toks v) kvs) @ [RBrace]"
| "toks v = [TVal v]"

lemma stop_punct [simp]:
  "stop (CHR '','' # r)" "stop (CHR '']'' # r)" "stop (CHR ''}'' # r)"
  by (simp_all add: stop_def num_char_def word_char_def is_digit_def)

lemma scan_punct [simp]:
  "scan_start CHR '','' = Some ([Comma], Plain)" "scan_start CHR '']'' = Some ([RBrack], Plain)"
  "scan_start CHR ''}'' = Some ([RBrace], Plain)" "scan_start CHR ''['' = Some ([LBrack], Plain)"
  "scan_start CHR ''{'' = Some ([LBrace], Plain)" "scan_start CHR '':'' = Some ([Colon], Plain)"
  by (simp_all add: scan_start_def is_space_def punct_def)

text \<open>Items that scan one by one scan together.\<close>

lemma scan_sep:
  assumes "\<And>x r. x \<in> set xs \<Longrightarrow> stop r \<Longrightarrow>
      scan_all Plain (p x @ r) = map_option ((@) (t x)) (scan_all Plain r)"
    and "stop r"
  shows "scan_all Plain (sep_by (map p xs) @ r) = map_option ((@) (sep_toks (map t xs))) (scan_all Plain r)"
  using assms(1)
proof (induction xs rule: induct_list012)
  case (2 x)
  then show ?case using assms(2) by simp
next
  case (3 x y xs)
  then show ?case by (cases "scan_all Plain r") simp_all
qed simp

lemma scan_print:
  "ascii_json j \<Longrightarrow> stop r \<Longrightarrow>
     scan_all Plain (print_json j @ r) = map_option ((@) (toks j)) (scan_all Plain r)"
proof (induction j arbitrary: r)
  case JNull
  have "scan_start CHR ''n'' = Some ([], InWord ''n'')" "list_all word_char ''ull''" by code_simp+
  then show ?case
    using scan_in_word [of "''ull''" "''n''" r] scan_word [of "''null''" JNull r] JNull
    by (simp add: word_token_def)
next
  case (JBool b)
  have "scan_start CHR ''t'' = Some ([], InWord ''t'')" "list_all word_char ''rue''"
    "scan_start CHR ''f'' = Some ([], InWord ''f'')" "list_all word_char ''alse''" by code_simp+
  then show ?case
    using scan_in_word [of "''rue''" "''t''" r] scan_word [of "''true''" "JBool True" r]
      scan_in_word [of "''alse''" "''f''" r] scan_word [of "''false''" "JBool False" r] JBool
    by (simp add: word_token_def)
next
  case (JNum i)
  then show ?case by (simp add: scan_Itoa)
next
  case (JStr s)
  then show ?case by (simp add: scan_quote)
next
  case (JArr xs)
  have "scan_all Plain (sep_by (map print_json xs) @ '']'' @ r) =
      map_option ((@) (sep_toks (map toks xs))) (scan_all Plain ('']'' @ r))"
    by (rule scan_sep) (use JArr in auto)
  then show ?case by (cases "scan_all Plain r") simp_all
next
  case (JObj kvs)
  have "scan_all Plain (sep_by (map (\<lambda>(k, v). quote k @ CHR '':'' # print_json v) kvs) @ ''}'' @ r) =
      map_option ((@) (sep_toks (map (\<lambda>(k, v). TStr k # Colon # toks v) kvs)))
        (scan_all Plain (''}'' @ r))"
  proof (rule scan_sep)
    fix kv r'
    assume kv: "kv \<in> set kvs" and r': "stop r'"
    obtain k v where eq: "kv = (k, v)" by (cases kv)
    have "scan_all Plain (print_json v @ r') = map_option ((@) (toks v)) (scan_all Plain r')"
      using JObj.IH [of kv v r'] bspec [OF JObj.prems(1) [simplified] kv] kv r' by (simp add: eq snds.simps)
    moreover have "ascii_str k" using bspec [OF JObj.prems(1) [simplified] kv] by (simp add: eq)
    ultimately show "scan_all Plain ((case kv of (k, v) \<Rightarrow> quote k @ CHR '':'' # print_json v) @ r') =
        map_option ((@) (case kv of (k, v) \<Rightarrow> TStr k # Colon # toks v)) (scan_all Plain r')"
      by (cases "scan_all Plain r'") (simp_all add: eq scan_quote)
  qed simp
  then show ?case by (cases "scan_all Plain r") simp_all
qed simp

subsection \<open>Parsing the tokens\<close>

lemma sep_toks_Cons: "sep_toks (x # xs) = x @ concat (map (\<lambda>y. Comma # y) xs)"
  by (induction xs arbitrary: x) simp_all

lemma foldr_max_ge: "x \<in> set xs \<Longrightarrow> f x \<le> foldr max (map f xs) (0 :: nat)"
  by (induction xs) (auto intro: le_max_iff_disj [THEN iffD2])

lemma toks_head: "toks j \<noteq> [] \<and> hd (toks j) \<noteq> RBrack"
  by (cases j) auto

lemma parse_arr_tail:
  assumes "\<And>x zs ts. x \<in> set xs \<Longrightarrow>
      parse_all Value (InArr zs # st) (toks x @ ts) = parse_all (Done x) (InArr zs # st) ts"
  shows "parse_all (Done v) (InArr ys # st) (concat (map (\<lambda>y. Comma # toks y) xs) @ RBrack # ts) =
    parse_all (Done (JArr (ys @ v # xs))) st ts"
  using assms
proof (induction xs arbitrary: v ys)
  case (Cons x xs)
  then show ?case using Cons.IH [of x "ys @ [v]"] by simp
qed simp

lemma parse_obj_tail:
  assumes "\<And>k x zs l ts. (k, x) \<in> set kvs \<Longrightarrow>
      parse_all Value (InObj zs l # st) (toks x @ ts) = parse_all (Done x) (InObj zs l # st) ts"
  shows "parse_all (Done v) (InObj ys k # st)
      (concat (map (\<lambda>(k, v). Comma # TStr k # Colon # toks v) kvs) @ RBrace # ts) =
    parse_all (Done (JObj (ys @ (k, v) # kvs))) st ts"
  using assms
proof (induction kvs arbitrary: k v ys)
  case (Cons kv kvs)
  obtain k' v' where kv: "kv = (k', v')" by (cases kv)
  have "parse_all Value (InObj (ys @ [(k, v)]) k' # st) (toks v' @ us) =
      parse_all (Done v') (InObj (ys @ [(k, v)]) k' # st) us" for us
    using Cons.prems [of k' v'] by (simp add: kv)
  moreover have "parse_all (Done v') (InObj (ys @ [(k, v)]) k' # st)
      (concat (map (\<lambda>(k, v). Comma # TStr k # Colon # toks v) kvs) @ RBrace # ts) =
      parse_all (Done (JObj ((ys @ [(k, v)]) @ (k', v') # kvs))) st ts"
    using Cons.prems by (intro Cons.IH) (meson list.set_intros(2))
  ultimately show ?case by (simp add: kv)
qed simp

lemma parse_toks:
  assumes "json_depth j + length st \<le> max_depth"
    and "\<And>t. t \<noteq> RBrack \<Longrightarrow> parse_step m st0 t = start_value st t"
  shows "parse_all m st0 (toks j @ ts) = parse_all (Done j) st ts"
  using assms
proof (induction j arbitrary: m st0 st ts)
  case (JArr xs)
  have start: "parse_step m st0 LBrack = Some (FirstElem, st)"
    using JArr.prems by (simp add: start_value_def)
  show ?case
  proof (cases xs)
    case Nil
    with start show ?thesis by simp
  next
    case (Cons x xs')
    have depth: "json_depth y + length (InArr zs # st) \<le> max_depth" if "y \<in> set xs" for y zs
      using JArr.prems(1) foldr_max_ge [of y xs json_depth] that by simp
    have "parse_all FirstElem st (toks x @ us) = parse_all (Done x) (InArr [] # st) us" for us
      by (rule JArr.IH) (use depth Cons in auto)
    moreover have "parse_all (Done x) (InArr [] # st)
        (concat (map (\<lambda>y. Comma # toks y) xs') @ RBrack # ts) = parse_all (Done (JArr ([] @ x # xs'))) st ts"
      by (rule parse_arr_tail, rule JArr.IH) (use depth Cons in auto)
    ultimately show ?thesis using start Cons by (simp add: sep_toks_Cons comp_def)
  qed
next
  case (JObj kvs)
  have start: "parse_step m st0 LBrace = Some (FirstKey, st)"
    using JObj.prems by (simp add: start_value_def)
  show ?case
  proof (cases kvs)
    case Nil
    with start show ?thesis by simp
  next
    case (Cons kv kvs')
    obtain k v where kv: "kv = (k, v)" by (cases kv)
    have depth: "json_depth y + length (InObj zs l # st) \<le> max_depth" if "(l', y) \<in> set kvs" for l' y zs l
      using JObj.prems(1) foldr_max_ge [of "(l', y)" kvs "\<lambda>kv. json_depth (snd kv)"] that by simp
    have parsed: "parse_all Value (InObj zs l # st) (toks y @ us) = parse_all (Done y) (InObj zs l # st) us"
      if "(l', y) \<in> set kvs" for l' y zs l us
      by (rule JObj.IH [OF that]) (use depth that in \<open>auto simp: snds.simps\<close>)
    have "parse_all Value (InObj [] k # st) (toks v @ us) = parse_all (Done v) (InObj [] k # st) us" for us
      by (rule parsed [of k]) (simp add: Cons kv)
    moreover have "parse_all (Done v) (InObj [] k # st)
        (concat (map (\<lambda>(k, v). Comma # TStr k # Colon # toks v) kvs') @ RBrace # ts) =
        parse_all (Done (JObj ([] @ (k, v) # kvs'))) st ts"
      by (rule parse_obj_tail, rule parsed) (use Cons in auto)
    moreover have "(\<lambda>x. Comma # (case x of (k, v) \<Rightarrow> TStr k # Colon # toks v)) =
        (\<lambda>(k, v). Comma # TStr k # Colon # toks v)" by (rule ext) auto
    ultimately show ?thesis using start Cons kv by (simp add: sep_toks_Cons comp_def)
  qed
qed (auto simp: start_value_def)

theorem parse_print:
  assumes "ascii_json j" and "json_depth j \<le> max_depth"
  shows "parse_json (print_json j) = Some j"
proof -
  have "scan_all Plain (print_json j) = Some (toks j)"
    using scan_print [OF assms(1), of "[]"] by (simp add: stop_def)
  moreover have "parse_all Value [] (toks j) = Some j"
    using parse_toks [of j "[]" Value "[]" "[]"] assms(2) by simp
  ultimately show ?thesis by (simp add: parse_json_def)
qed

lemma Unmarshal_Marshal:
  "ascii_json j \<Longrightarrow> json_depth j \<le> max_depth \<Longrightarrow> Unmarshal (Marshal j) = Some j"
  by (simp add: Unmarshal_def Marshal_def parse_print)

end
