(* ===== verification/GoRegexp.thy ===== *)
theory GoRegexp
  imports GoJsonText
begin

text \<open>
  The part of Go's \<open>regexp\<close> the registry uses: the syntax of its patterns, parsed, and
  leftmost-first matching with submatches as a list of successes in the order of preference, with
  the declarative meaning of a pattern that matching is sound and complete for. Texts are bytes and
  are read as UTF-8 runes, an ill-formed byte being a rune of its own; the characters of patterns are
  ASCII. A round of a repetition consumes something (the bodies the program repeats are never empty).
\<close>

subsection \<open>Patterns\<close>

datatype re =
    REps
  | RChar char
  | RAny
  | RClass bool "(char \<times> char) list"
  | RSeq re re
  | RAlt re re
  | RRepeat re nat "nat option"
  | RGroup re
  | RBegin
  | REnd

definition in_class :: "(char \<times> char) list \<Rightarrow> char \<Rightarrow> bool" where
  "in_class rs c \<longleftrightarrow> (\<exists>r \<in> set rs. fst r \<le> c \<and> c \<le> snd r)"

fun ngroups :: "re \<Rightarrow> nat" where
  "ngroups (RSeq r q) = ngroups r + ngroups q"
| "ngroups (RAlt r q) = ngroups r + ngroups q"
| "ngroups (RRepeat r _ _) = ngroups r"
| "ngroups (RGroup r) = Suc (ngroups r)"
| "ngroups _ = 0"

subsection \<open>Runes\<close>

text \<open>The width \<open>utf8.DecodeRuneInString\<close> gives to the first rune.\<close>

fun rune_len :: "string \<Rightarrow> nat" where
  "rune_len [] = 0"
| "rune_len (c # r) = (case decode_rune c r of None \<Rightarrow> 1 | Some (v, n) \<Rightarrow> n)"

lemma decode_rune_len: "decode_rune c r = Some (v, n) \<Longrightarrow> 0 < n \<and> n \<le> Suc (length r)"
  by (auto simp: decode_rune_def rune2_def rune3_def rune4_def split: if_splits option.splits list.splits)

lemma rune_len_pos: "s \<noteq> [] \<Longrightarrow> 0 < rune_len s"
  by (cases s) (auto dest: decode_rune_len split: option.splits)

lemma rune_len_le: "rune_len s \<le> length s"
  by (cases s) (auto dest: decode_rune_len split: option.splits)

text \<open>A rune does not reach beyond an ASCII character.\<close>

lemma decode_rune_ascii:
  assumes "ord a < 128"
  shows "decode_rune c (w @ a # t) = decode_rune c (w @ a # t')"
proof -
  have a: "\<not> cont (ord a)" using assms by (simp add: cont_def)
  consider "w = []" | x where "w = [x]" | x y where "w = [x, y]" | x y z u where "w = x # y # z # u"
    by (metis list.exhaust)
  then have "rune2 n (w @ a # t) = rune2 n (w @ a # t') \<and> rune3 n (w @ a # t) = rune3 n (w @ a # t') \<and>
      rune4 n (w @ a # t) = rune4 n (w @ a # t')" for n
    by cases (simp_all add: rune2_def rune3_def rune4_def a split: list.splits)
  then show ?thesis unfolding decode_rune_def by (metis (no_types))
qed

lemma rune_len_ascii: "ord a < 128 \<Longrightarrow> rune_len (w @ a # t) = rune_len (w @ a # t')"
  by (cases w) (simp_all add: decode_rune_def [of a] decode_rune_ascii [of a _ _ t t'])

subsection \<open>Matching\<close>

text \<open>A result is the text consumed, the submatches, and the text left. The flag says whether the
  match is at the beginning of the text.\<close>

type_synonym result = "string \<times> string list \<times> string"

text \<open>Repetition: another round that consumes something is preferred to stopping.\<close>

fun rep :: "nat \<Rightarrow> (bool \<Rightarrow> string \<Rightarrow> result list) \<Rightarrow> nat \<Rightarrow> nat option \<Rightarrow> string list \<Rightarrow> bool \<Rightarrow> string \<Rightarrow> result list" where
  "rep 0 m n k cur b s = (if n = 0 then [([], cur, s)] else [])"
| "rep (Suc f) m n k cur b s =
     (if k = Some 0 then []
      else concat (map (\<lambda>(w, c, t).
             if w = [] then []
             else map (\<lambda>(w', c', t'). (w @ w', c', t')) (rep f m (n - 1) (map_option (\<lambda>x. x - 1) k) c False t))
           (m b s)))
     @ (if n = 0 then [([], cur, s)] else [])"

fun mt :: "re \<Rightarrow> bool \<Rightarrow> string \<Rightarrow> result list" where
  "mt REps b s = [([], [], s)]"
| "mt (RChar c) b s = (case s of [] \<Rightarrow> [] | x # xs \<Rightarrow> if x = c then [([x], [], xs)] else [])"
| "mt RAny b s = (case s of [] \<Rightarrow> [] | x # xs \<Rightarrow>
     if x \<noteq> CHR 0x0A then [(take (rune_len s) s, [], drop (rune_len s) s)] else [])"
| "mt (RClass neg rs) b s =
     (case s of [] \<Rightarrow> [] | x # xs \<Rightarrow>
        if in_class rs x \<noteq> neg then [(take (rune_len s) s, [], drop (rune_len s) s)] else [])"
| "mt (RSeq r q) b s =
     concat (map (\<lambda>(w, c, t). map (\<lambda>(w', c', t'). (w @ w', c @ c', t')) (mt q (b \<and> w = []) t)) (mt r b s))"
| "mt (RAlt r q) b s =
     map (\<lambda>(w, c, t). (w, c @ replicate (ngroups q) [], t)) (mt r b s) @
     map (\<lambda>(w, c, t). (w, replicate (ngroups r) [] @ c, t)) (mt q b s)"
| "mt (RRepeat r n k) b s = rep (Suc (length s)) (mt r) n k (replicate (ngroups r) []) b s"
| "mt (RGroup r) b s = map (\<lambda>(w, c, t). (w, w # c, t)) (mt r b s)"
| "mt RBegin b s = (if b then [([], [], s)] else [])"
| "mt REnd b s = (if s = [] then [([], [], [])] else [])"

text \<open>\<open>FindStringSubmatch\<close> (\<open>None\<close> for nil) and \<open>MatchString\<close>.\<close>

function find_from :: "re \<Rightarrow> bool \<Rightarrow> string \<Rightarrow> string list option" where
  "find_from r b s =
     (case mt r b s of
        (w, c, t) # _ \<Rightarrow> Some (w # c)
      | [] \<Rightarrow> if s = [] then None else find_from r False (drop (rune_len s) s))"
  by auto

termination
  by (relation "measure (\<lambda>(r, b, s). length s)") (auto simp: rune_len_pos)

declare find_from.simps [simp del]

definition FindStringSubmatch :: "re \<Rightarrow> string \<Rightarrow> string list option" where
  "FindStringSubmatch r s = find_from r True s"

definition MatchString :: "re \<Rightarrow> string \<Rightarrow> bool" where
  "MatchString r s \<longleftrightarrow> FindStringSubmatch r s \<noteq> None"

subsection \<open>Syntax\<close>

datatype pframe = PFrame bool "re list" "re list"

datatype pmode =
    PPlain
  | PEsc
  | PGroup
  | PGroupQ
  | PCount string
  | PClass bool bool "(char \<times> char) list" "char option" bool
  | PClassEsc bool "(char \<times> char) list" "char option" bool

definition seq_of :: "re list \<Rightarrow> re" where
  "seq_of rs = foldr RSeq rs REps"

fun alt_of :: "re list \<Rightarrow> re" where
  "alt_of [] = REps"
| "alt_of [r] = r"
| "alt_of (r # rs) = RAlt r (alt_of rs)"

definition frame_re :: "pframe \<Rightarrow> re" where
  "frame_re f = (case f of PFrame cap alts cur \<Rightarrow> alt_of (alts @ [seq_of cur]))"

definition push_re :: "re \<Rightarrow> pframe list \<Rightarrow> pframe list" where
  "push_re r st = (case st of [] \<Rightarrow> [] | PFrame cap alts cur # fs \<Rightarrow> PFrame cap alts (cur @ [r]) # fs)"

definition repeat_last :: "nat \<Rightarrow> nat option \<Rightarrow> pframe list \<Rightarrow> pframe list option" where
  "repeat_last n k st =
     (case st of
        PFrame cap alts cur # fs \<Rightarrow>
          if cur = [] then None else Some (PFrame cap alts (butlast cur @ [RRepeat (last cur) n k]) # fs)
      | [] \<Rightarrow> None)"

definition plain_step :: "pframe list \<Rightarrow> char \<Rightarrow> (pmode \<times> pframe list) option" where
  "plain_step st c =
     (if c = CHR 0x5C then Some (PEsc, st)
      else if c = CHR ''('' then Some (PGroup, st)
      else if c = CHR '')'' then
        (case st of
           PFrame cap alts cur # f # fs \<Rightarrow>
             (let r = frame_re (PFrame cap alts cur) in
              Some (PPlain, push_re (if cap then RGroup r else r) (f # fs)))
         | _ \<Rightarrow> None)
      else if c = CHR ''|'' then
        (case st of
           PFrame cap alts cur # fs \<Rightarrow> Some (PPlain, PFrame cap (alts @ [seq_of cur]) [] # fs)
         | [] \<Rightarrow> None)
      else if c = CHR ''['' then Some (PClass False True [] None False, st)
      else if c = CHR ''.'' then Some (PPlain, push_re RAny st)
      else if c = CHR ''*'' then map_option (Pair PPlain) (repeat_last 0 None st)
      else if c = CHR ''+'' then map_option (Pair PPlain) (repeat_last 1 None st)
      else if c = CHR ''?'' then map_option (Pair PPlain) (repeat_last 0 (Some 1) st)
      else if c = CHR ''{'' then Some (PCount [], st)
      else if c = CHR ''^'' then Some (PPlain, push_re RBegin st)
      else if c = CHR ''$'' then Some (PPlain, push_re REnd st)
      else Some (PPlain, push_re (RChar c) st))"

text \<open>A count \<open>n\<close> or \<open>n,m\<close>.\<close>

definition count_of :: "string \<Rightarrow> (nat \<times> nat option) option" where
  "count_of s =
     (case map (parse_digits 0) (Split CHR '','' s) of
        [Some n] \<Rightarrow> if s = [] then None else Some (n, Some n)
      | [Some n, Some m] \<Rightarrow> Some (n, Some m)
      | _ \<Rightarrow> None)"

text \<open>What is pending in a class: a character that may start a range, and a hyphen after it.\<close>

definition class_flush :: "(char \<times> char) list \<Rightarrow> char option \<Rightarrow> bool \<Rightarrow> (char \<times> char) list" where
  "class_flush rs l dash =
     rs @ (case l of None \<Rightarrow> [] | Some a \<Rightarrow> [(a, a)]) @ (if dash then [(CHR ''-'', CHR ''-'')] else [])"

definition class_char :: "bool \<Rightarrow> (char \<times> char) list \<Rightarrow> char option \<Rightarrow> bool \<Rightarrow> char \<Rightarrow> pmode" where
  "class_char neg rs l dash c =
     (case (l, dash) of
        (Some a, True) \<Rightarrow> PClass neg False (rs @ [(a, c)]) None False
      | _ \<Rightarrow> PClass neg False (class_flush rs l dash) (Some c) False)"

definition word_byte :: "char \<Rightarrow> bool" where
  "word_byte c \<longleftrightarrow> in_class [(CHR ''0'', CHR ''9''), (CHR ''A'', CHR ''Z''), (CHR ''a'', CHR ''z'')] c"

fun re_step :: "pmode \<Rightarrow> pframe list \<Rightarrow> char \<Rightarrow> (pmode \<times> pframe list) option" where
  "re_step PPlain st c = plain_step st c"
| "re_step PEsc st c = (if word_byte c then None else Some (PPlain, push_re (RChar c) st))"
| "re_step PGroup st c =
     (if c = CHR ''?'' then Some (PGroupQ, st) else plain_step (PFrame True [] [] # st) c)"
| "re_step PGroupQ st c = (if c = CHR '':'' then Some (PPlain, PFrame False [] [] # st) else None)"
| "re_step (PCount s) st c =
     (if c = CHR ''}'' then
        (case count_of s of None \<Rightarrow> None | Some (n, k) \<Rightarrow> map_option (Pair PPlain) (repeat_last n k st))
      else Some (PCount (s @ [c]), st))"
| "re_step (PClass neg first rs l dash) st c =
     (if c = CHR '']'' \<and> \<not> first then Some (PPlain, push_re (RClass neg (class_flush rs l dash)) st)
      else if c = CHR ''^'' \<and> first \<and> \<not> neg then Some (PClass True True rs l dash, st)
      else if c = CHR 0x5C then Some (PClassEsc neg rs l dash, st)
      else if c = CHR ''-'' \<and> l \<noteq> None \<and> \<not> dash then Some (PClass neg False rs l True, st)
      else Some (class_char neg rs l dash c, st))"
| "re_step (PClassEsc neg rs l dash) st c = Some (class_char neg rs l dash c, st)"

fun re_run :: "pmode \<Rightarrow> pframe list \<Rightarrow> string \<Rightarrow> re option" where
  "re_run m st [] = (case (m, st) of (PPlain, [f]) \<Rightarrow> Some (frame_re f) | _ \<Rightarrow> None)"
| "re_run m st (c # cs) = (case re_step m st c of None \<Rightarrow> None | Some (m', st') \<Rightarrow> re_run m' st' cs)"

definition Compile :: "string \<Rightarrow> re option" where
  "Compile s = re_run PPlain [PFrame False [] []] s"

subsection \<open>The meaning of a pattern\<close>

text \<open>\<open>matches r b w c t\<close>: \<open>w\<close>, at the beginning of the text if \<open>b\<close> and followed by \<open>t\<close>, matches
  \<open>r\<close> with the submatches \<open>c\<close>. \<open>rounds\<close> is the meaning of a repetition.\<close>

inductive rounds :: "(bool \<Rightarrow> string \<Rightarrow> string list \<Rightarrow> string \<Rightarrow> bool) \<Rightarrow> nat \<Rightarrow> nat option \<Rightarrow> string list \<Rightarrow>
    bool \<Rightarrow> string \<Rightarrow> string list \<Rightarrow> string \<Rightarrow> bool"
  for m where
  stop: "rounds m 0 k cur b [] cur t"
| again: "rounds m n k cur b (w @ w') c' t"
    if "k \<noteq> Some 0" "w \<noteq> []" "m b w c (w' @ t)"
       "rounds m (n - 1) (map_option (\<lambda>x. x - 1) k) c False w' c' t"

fun matches :: "re \<Rightarrow> bool \<Rightarrow> string \<Rightarrow> string list \<Rightarrow> string \<Rightarrow> bool" where
  "matches REps b w c t \<longleftrightarrow> w = [] \<and> c = []"
| "matches (RChar x) b w c t \<longleftrightarrow> w = [x] \<and> c = []"
| "matches RAny b w c t \<longleftrightarrow> w \<noteq> [] \<and> hd w \<noteq> CHR 0x0A \<and> rune_len (w @ t) = length w \<and> c = []"
| "matches (RClass neg rs) b w c t \<longleftrightarrow>
     w \<noteq> [] \<and> in_class rs (hd w) \<noteq> neg \<and> rune_len (w @ t) = length w \<and> c = []"
| "matches (RSeq r q) b w c t \<longleftrightarrow>
     (\<exists>w1 w2 c1 c2. w = w1 @ w2 \<and> c = c1 @ c2 \<and> matches r b w1 c1 (w2 @ t) \<and>
        matches q (b \<and> w1 = []) w2 c2 t)"
| "matches (RAlt r q) b w c t \<longleftrightarrow>
     (\<exists>c1. c = c1 @ replicate (ngroups q) [] \<and> matches r b w c1 t) \<or>
     (\<exists>c1. c = replicate (ngroups r) [] @ c1 \<and> matches q b w c1 t)"
| "matches (RRepeat r n k) b w c t \<longleftrightarrow> rounds (matches r) n k (replicate (ngroups r) []) b w c t"
| "matches (RGroup r) b w c t \<longleftrightarrow> (\<exists>c1. c = w # c1 \<and> matches r b w c1 t)"
| "matches RBegin b w c t \<longleftrightarrow> b \<and> w = [] \<and> c = []"
| "matches REnd b w c t \<longleftrightarrow> w = [] \<and> c = [] \<and> t = []"

lemma rep_sound:
  assumes "\<And>b s w c t. (w, c, t) \<in> set (m b s) \<Longrightarrow> s = w @ t \<and> M b w c t"
  shows "(w, c, t) \<in> set (rep f m n k cur b s) \<Longrightarrow> s = w @ t \<and> rounds M n k cur b w c t"
proof (induction f arbitrary: n k cur b s w)
  case 0
  then show ?case by (auto intro: rounds.stop split: if_splits)
next
  case (Suc f)
  show ?case
  proof (cases "w = [] \<and> c = cur \<and> t = s \<and> n = 0")
    case True
    then show ?thesis by (simp add: rounds.stop)
  next
    case False
    then obtain w1 c1 t1 w2 where "k \<noteq> Some 0" and one: "(w1, c1, t1) \<in> set (m b s)" "w1 \<noteq> []" and w: "w = w1 @ w2"
      and more: "(w2, c, t) \<in> set (rep f m (n - 1) (map_option (\<lambda>x. x - 1) k) c1 False t1)"
      using Suc.prems by (fastforce split: if_splits)
    then show ?thesis using assms [OF one(1)] Suc.IH [OF more]
      by (auto intro: rounds.again)
  qed
qed

lemma mt_sound: "(w, c, t) \<in> set (mt r b s) \<Longrightarrow> s = w @ t \<and> matches r b w c t"
proof (induction r arbitrary: b s w c t)
  case RAny
  then show ?case using rune_len_pos [of s] rune_len_le [of s] by (auto split: list.splits if_splits simp del: rune_len.simps)
next
  case (RClass neg rs)
  then show ?case using rune_len_pos [of s] rune_len_le [of s] by (auto split: list.splits if_splits simp del: rune_len.simps)
next
  case (RSeq r q)
  from RSeq.prems obtain w1 c1 t1 w2 c2 where one: "(w1, c1, t1) \<in> set (mt r b s)"
    and two: "(w2, c2, t) \<in> set (mt q (b \<and> w1 = []) t1)" and eq: "w = w1 @ w2" "c = c1 @ c2" by auto
  from RSeq.IH(1) [OF one] RSeq.IH(2) [OF two] show ?case
    unfolding eq matches.simps append_assoc by blast
next
  case (RRepeat r n k)
  from rep_sound [of "mt r" "matches r", OF RRepeat.IH] RRepeat.prems show ?case
    unfolding mt.simps matches.simps by blast
qed (fastforce split: list.splits if_splits)+

lemma rep_round:
  assumes "k \<noteq> Some 0" "w \<noteq> []" "(w, c, u) \<in> set (m b s)"
    "(w', c', t) \<in> set (rep g m (n - 1) (map_option (\<lambda>x. x - 1) k) c False u)"
  shows "(w @ w', c', t) \<in> set (rep (Suc g) m n k cur b s)"
proof -
  have "(w @ w', c', t) \<in> set ((\<lambda>(w, c, u). if w = [] then [] else map (\<lambda>(w', c', t'). (w @ w', c', t'))
      (rep g m (n - 1) (map_option (\<lambda>x. x - 1) k) c False u)) (w, c, u))"
    using assms(2) imageI [OF assms(4), of "\<lambda>(w', c', t'). (w @ w', c', t')"] by simp
  with assms(1,3) show ?thesis by (simp only: rep.simps if_False set_append set_concat set_map) blast
qed

lemma rep_complete:
  assumes "\<And>b w c t. M b w c t \<Longrightarrow> (w, c, t) \<in> set (m b (w @ t))"
  shows "rounds M n k cur b w c t \<Longrightarrow> length w < f \<Longrightarrow> (w, c, t) \<in> set (rep f m n k cur b (w @ t))"
proof (induction arbitrary: f rule: rounds.induct)
  case (stop k cur b t)
  then show ?case by (cases f) auto
next
  case (again k w b c w' t n c' cur)
  from again.prems obtain g where f: "f = Suc g" and "length w' < g"
    using again.hyps(2) by (cases f) (auto simp: neq_Nil_conv)
  from this(2) have "(w', c', t) \<in> set (rep g m (n - 1) (map_option (\<lambda>x. x - 1) k) c False (w' @ t))" by (rule again.IH)
  moreover have "(w, c, w' @ t) \<in> set (m b (w @ w' @ t))" using again.hyps(3) by (rule assms)
  ultimately show ?case using again.hyps(1,2) unfolding f by (simp only: append_assoc) (rule rep_round)
qed

lemma mt_complete: "matches r b w c t \<Longrightarrow> (w, c, t) \<in> set (mt r b (w @ t))"
proof (induction r arbitrary: b w c t)
  case RAny
  then show ?case by (cases w) (auto simp del: rune_len.simps)
next
  case (RClass neg rs)
  then show ?case by (cases w) (auto simp del: rune_len.simps)
next
  case (RSeq r q)
  from RSeq.prems obtain w1 w2 c1 c2 where eq: "w = w1 @ w2" "c = c1 @ c2"
    and one: "matches r b w1 c1 (w2 @ t)" and two: "matches q (b \<and> w1 = []) w2 c2 t" by auto
  from RSeq.IH(1) [OF one] RSeq.IH(2) [OF two] show ?case unfolding eq by force
next
  case (RRepeat r n k)
  from rep_complete [of "matches r" "mt r", OF RRepeat.IH] RRepeat.prems show ?case
    unfolding mt.simps matches.simps by (auto simp del: rep.simps)
next
  case (RAlt r q)
  from RAlt.prems consider c1 where "c = c1 @ replicate (ngroups q) []" "matches r b w c1 t"
    | c1 where "c = replicate (ngroups r) [] @ c1" "matches q b w c1 t" by auto
  then show ?case
  proof cases
    case 1
    from imageI [OF RAlt.IH(1) [OF 1(2)], of "\<lambda>(w, c, t). (w, c @ replicate (ngroups q) [], t)"] show ?thesis
      unfolding 1(1) by simp
  next
    case 2
    from imageI [OF RAlt.IH(2) [OF 2(2)], of "\<lambda>(w, c, t). (w, replicate (ngroups r) [] @ c, t)"] show ?thesis
      unfolding 2(1) by simp
  qed
next
  case (RGroup r)
  from RGroup.prems obtain c1 where c: "c = w # c1" and "matches r b w c1 t" by auto
  from imageI [OF RGroup.IH [OF this(2)], of "\<lambda>(w, c, t). (w, w # c, t)"] show ?case unfolding c by simp
qed simp_all

subsection \<open>Reading the meaning of a pattern\<close>

lemma matches_no_groups: "ngroups r = 0 \<Longrightarrow> matches r b w c t \<Longrightarrow> c = []"
proof (induction r arbitrary: b w c t)
  case (RRepeat r n k)
  have "rounds M n k cur b w c t \<Longrightarrow> (\<And>b w c t. M b w c t \<Longrightarrow> c = []) \<Longrightarrow> cur = [] \<Longrightarrow> c = []"
    for M :: "bool \<Rightarrow> string \<Rightarrow> string list \<Rightarrow> string \<Rightarrow> bool" and n k cur
    by (induction rule: rounds.induct) auto
  from this [of "matches r" n k "[]"] RRepeat show ?case by auto
qed auto

text \<open>Bytes of an ASCII class are runes.\<close>

definition ascii_class :: "(char \<times> char) list \<Rightarrow> bool" where
  "ascii_class rs \<longleftrightarrow> (\<forall>r \<in> set rs. ord (snd r) < 128)"

lemma ascii_class_char: "ascii_class rs \<Longrightarrow> in_class rs x \<Longrightarrow> ord x < 128"
  by (force simp: ascii_class_def in_class_def less_eq_char_def)

lemma rune_len_ascii_head [simp]: "ord x < 128 \<Longrightarrow> rune_len (x # s) = 1"
  by (simp add: decode_rune_def)

lemma matches_class:
  assumes "ascii_class rs"
  shows "matches (RClass False rs) b w c t \<longleftrightarrow> (\<exists>x. w = [x] \<and> in_class rs x \<and> c = [])"
proof (cases w)
  case (Cons x u)
  then show ?thesis using ascii_class_char [OF assms, of x] by (cases "in_class rs x") (auto simp del: rune_len.simps)
qed simp

definition class_run :: "(char \<times> char) list \<Rightarrow> nat \<Rightarrow> nat option \<Rightarrow> string \<Rightarrow> bool" where
  "class_run rs n k w \<longleftrightarrow>
     (\<forall>x \<in> set w. in_class rs x) \<and> n \<le> length w \<and> (case k of None \<Rightarrow> True | Some m \<Rightarrow> length w \<le> m)"

lemma rounds_class:
  assumes "\<And>b w c t. M b w c t \<longleftrightarrow> (\<exists>x. w = [x] \<and> in_class rs x \<and> c = [])"
  shows "rounds M n k [] b w c t \<longleftrightarrow> c = [] \<and> class_run rs n k w"
proof
  show "rounds M n k [] b w c t \<Longrightarrow> c = [] \<and> class_run rs n k w"
  proof (induction n k "[] :: string list" b w c t rule: rounds.induct)
    case (stop k b t)
    show ?case by (simp add: class_run_def split: option.splits)
  next
    case (again k w b c w' t n c')
    then show ?case by (auto simp: assms class_run_def split: option.splits)
  qed
  assume "c = [] \<and> class_run rs n k w"
  then have "c = []" and "class_run rs n k w" by simp_all
  then show "rounds M n k [] b w c t"
  proof (induction w arbitrary: n k b)
    case Nil
    then show ?case using rounds.stop [of M k "[]" b t] by (simp add: class_run_def)
  next
    case (Cons x w)
    have "rounds M (n - 1) (map_option (\<lambda>x. x - 1) k) [] False w c t"
      using Cons.prems by (intro Cons.IH) (auto simp: class_run_def split: option.splits)
    moreover have "k \<noteq> Some 0" "M b [x] [] (w @ t)" using Cons.prems by (auto simp: class_run_def assms)
    ultimately show ?case using rounds.again [of k "[x]" M b "[]" w t n c "[]"] by simp
  qed
qed

lemma matches_class_run:
  assumes "ascii_class rs"
  shows "matches (RRepeat (RClass False rs) n k) b w c t \<longleftrightarrow> c = [] \<and> class_run rs n k w"
  by (simp add: rounds_class [OF matches_class [OF assms]])

text \<open>What follows matters to no pattern without an end mark, if it begins with an ASCII character.\<close>

fun no_end :: "re \<Rightarrow> bool" where
  "no_end (RSeq r q) = (no_end r \<and> no_end q)"
| "no_end (RAlt r q) = (no_end r \<and> no_end q)"
| "no_end (RRepeat r _ _) = no_end r"
| "no_end (RGroup r) = no_end r"
| "no_end REnd = False"
| "no_end _ = True"

lemma rounds_follow:
  assumes "\<And>b w c u. M b w c (u @ a # t) \<Longrightarrow> M b w c (u @ a # t')"
  shows "rounds M n k cur b w c (u @ a # t) \<Longrightarrow> rounds M n k cur b w c (u @ a # t')"
proof (induction n k cur b w c "u @ a # t" rule: rounds.induct)
  case (again k w b c w' n c' cur)
  from again.hyps(3) have "M b w c (w' @ u @ a # t')" using assms [of b w c "w' @ u"] by simp
  with again show ?case by (intro rounds.again) auto
qed (rule rounds.stop)

lemma matches_follow_imp:
  assumes "ord a < 128"
  shows "no_end r \<Longrightarrow> matches r b w c (u @ a # t) \<Longrightarrow> matches r b w c (u @ a # t')"
proof (induction r arbitrary: b w c u)
  case RAny
  then show ?case using rune_len_ascii [OF assms, of "w @ u" t t'] by simp
next
  case (RClass neg rs)
  then show ?case using rune_len_ascii [OF assms, of "w @ u" t t'] by simp
next
  case (RSeq r q)
  from RSeq.prems obtain w1 w2 c1 c2 where eq: "w = w1 @ w2" "c = c1 @ c2"
    and one: "matches r b w1 c1 ((w2 @ u) @ a # t)" and two: "matches q (b \<and> w1 = []) w2 c2 (u @ a # t)" by auto
  have "no_end r" "no_end q" using RSeq.prems(1) by simp_all
  from RSeq.IH(1) [OF this(1) one] RSeq.IH(2) [OF this(2) two] show ?case unfolding eq by auto
next
  case (RRepeat r n k)
  have "no_end r" using RRepeat.prems(1) by simp
  from rounds_follow [of "matches r", OF RRepeat.IH [OF this]] RRepeat.prems(2) show ?case by simp
qed auto

lemma matches_follow:
  assumes "no_end r" and "ord a < 128"
  shows "matches r b w c (a # t) \<longleftrightarrow> matches r b w c (a # t')"
  using matches_follow_imp [OF assms(2,1), of b w c "[]"] by auto

text \<open>Sequences of literals and groups, as the patterns of routes are.\<close>

definition lit :: "string \<Rightarrow> re list" where
  "lit s = map RChar s"

lemma matches_lit: "matches (seq_of (lit l @ rs)) b w c t \<longleftrightarrow>
    (\<exists>w'. w = l @ w' \<and> matches (seq_of rs) (b \<and> l = []) w' c t)"
  by (induction l arbitrary: b w) (auto simp: seq_of_def lit_def)

lemma matches_seq_Cons: "matches (seq_of (r # rs)) b w c t \<longleftrightarrow>
    (\<exists>w1 w2 c1 c2. w = w1 @ w2 \<and> c = c1 @ c2 \<and> matches r b w1 c1 (w2 @ t) \<and>
       matches (seq_of rs) (b \<and> w1 = []) w2 c2 t)"
  by (simp add: seq_of_def)

lemma matches_seq_Nil [simp]: "matches (seq_of []) b w c t \<longleftrightarrow> w = [] \<and> c = []"
  by (simp add: seq_of_def)

definition anchored :: "re list \<Rightarrow> re" where
  "anchored rs = seq_of (RBegin # rs @ [REnd])"

lemma matches_anchored: "matches (anchored rs) b w c t \<longleftrightarrow> b \<and> matches (seq_of (rs @ [REnd])) True w c t"
  by (auto simp: anchored_def matches_seq_Cons)

lemma seq_end: "matches (seq_of (rs @ [REnd])) b w c t \<Longrightarrow> t = []"
proof (induction rs arbitrary: b w c)
  case (Cons r rs)
  then show ?case by (auto simp: matches_seq_Cons)
qed (simp add: matches_seq_Cons)

lemma anchored_elsewhere: "mt (anchored rs) False s = []"
proof (cases "mt (anchored rs) False s")
  case (Cons x l)
  obtain w c t where "x = (w, c, t)" by (cases x)
  with Cons have "(w, c, t) \<in> set (mt (anchored rs) False s)" by simp
  from mt_sound [OF this] show ?thesis by (simp add: matches_anchored)
qed

lemma find_elsewhere: "find_from (anchored rs) False s = None"
proof (induction s rule: length_induct)
  case (1 s)
  have "length (drop (rune_len s) s) < length s" if "s \<noteq> []" using rune_len_pos [OF that] that by simp
  with 1 show ?case by (subst find_from.simps) (simp add: anchored_elsewhere)
qed

lemma Find_anchored_Some:
  assumes "FindStringSubmatch (anchored rs) s = Some ms"
  shows "\<exists>c. ms = s # c \<and> matches (seq_of (rs @ [REnd])) True s c []"
proof -
  obtain w c t l where "mt (anchored rs) True s = (w, c, t) # l" and ms: "ms = w # c"
    using assms find_elsewhere unfolding FindStringSubmatch_def
    by (subst (asm) find_from.simps) (auto split: list.splits if_splits)
  then have "(w, c, t) \<in> set (mt (anchored rs) True s)" by simp
  from mt_sound [OF this] have "s = w @ t" "matches (seq_of (rs @ [REnd])) True w c t"
    by (simp_all add: matches_anchored)
  moreover from seq_end [OF this(2)] have "t = []" .
  ultimately show ?thesis using ms by simp
qed

lemma Find_anchored_None:
  assumes "FindStringSubmatch (anchored rs) s = None"
  shows "\<not> matches (seq_of (rs @ [REnd])) True s c []"
proof
  assume "matches (seq_of (rs @ [REnd])) True s c []"
  then have "matches (anchored rs) True s c []" by (simp add: matches_anchored)
  from mt_complete [OF this] have "mt (anchored rs) True s \<noteq> []" by auto
  with assms show False unfolding FindStringSubmatch_def
    by (subst (asm) find_from.simps) (auto split: list.splits)
qed

lemma Match_anchored: "MatchString (anchored rs) s \<longleftrightarrow> (\<exists>c. matches (seq_of (rs @ [REnd])) True s c [])"
  using Find_anchored_Some [of rs s] Find_anchored_None [of rs s] by (auto simp: MatchString_def)

end
