(* ===== verification/GoText.thy ===== *)
theory GoText
  imports GoRegexp
begin

text \<open>
  White space and numbers in text, as Go's \<open>strings.TrimSpace\<close> and \<open>fmt.Sscanf(s, "%d", &i)\<close> see
  them, and \<open>net.SplitHostPort\<close>.
\<close>

subsection \<open>Runes and white space\<close>

function split_runes :: "string \<Rightarrow> string list" where
  "split_runes [] = []"
| "split_runes (c # s) = take (rune_len (c # s)) (c # s) # split_runes (drop (rune_len (c # s)) (c # s))"
  by pat_completeness auto
termination
  by (relation "measure length") (auto dest: decode_rune_len split: option.splits)

definition is_space :: "nat \<Rightarrow> bool" where
  "is_space v \<longleftrightarrow> 9 \<le> v \<and> v \<le> 13 \<or> v = 32 \<or> v = 133 \<or> v = 160 \<or> v = 5760 \<or> 8192 \<le> v \<and> v \<le> 8202 \<or>
     v = 8232 \<or> v = 8233 \<or> v = 8239 \<or> v = 8287 \<or> v = 12288"

definition rune_space :: "string \<Rightarrow> bool" where
  "rune_space r = (case r of [] \<Rightarrow> False | c # cs \<Rightarrow>
     (case decode_rune c cs of None \<Rightarrow> False | Some (v, _) \<Rightarrow> is_space v))"

definition TrimSpace :: "string \<Rightarrow> string" where
  "TrimSpace s = concat (rev (dropWhile rune_space (rev (dropWhile rune_space (split_runes s)))))"

text \<open>Scanning skips white space but not a newline.\<close>

fun skip_space :: "string list \<Rightarrow> string list option" where
  "skip_space [] = Some []"
| "skip_space (r # rs) =
     (if r = [CHR 0x0A] then None else if rune_space r then skip_space rs else Some (r # rs))"

definition is_digit :: "char \<Rightarrow> bool" where
  "is_digit c \<longleftrightarrow> digit_val c \<noteq> None"

definition number_token :: "string \<Rightarrow> string" where
  "number_token s =
     (case s of [] \<Rightarrow> []
      | c # cs \<Rightarrow> if c = CHR ''+'' \<or> c = CHR ''-'' then c # takeWhile is_digit cs else takeWhile is_digit s)"

text \<open>What follows the number is not looked at.\<close>

definition Sscanf_int :: "string \<Rightarrow> int option" where
  "Sscanf_int s =
     (case skip_space (split_runes s) of None \<Rightarrow> None | Some rs \<Rightarrow> ParseInt (number_token (concat rs)))"

lemma Sscanf_int_in_int64: "Sscanf_int s = Some i \<Longrightarrow> in_int64 i"
  by (auto simp: Sscanf_int_def dest: ParseInt_in_int64 split: option.splits)

lemma Sscanf_int_examples:
  "Sscanf_int ''8080'' = Some 8080" "Sscanf_int '' 80abc'' = Some 80" "Sscanf_int ''+7 9'' = Some 7"
  "Sscanf_int ''x'' = None" "Sscanf_int [] = None" "TrimSpace '' a b '' = ''a b''"
  by (simp_all add: Sscanf_int_def number_token_def decode_rune_def rune_space_def is_space_def TrimSpace_def
      is_digit_def digit_val_def ParseInt_def parse_unsigned_def in_int64_def Let_def)

subsection \<open>Hosts and ports\<close>

definition last_index_of :: "char \<Rightarrow> string \<Rightarrow> nat option" where
  "last_index_of c s = map_option (\<lambda>i. length s - Suc i) (index_of c (rev s))"

text \<open>\<open>j\<close> and \<open>k\<close> are where a \<open>[\<close> and a \<open>]\<close> would be out of place.\<close>

definition SplitHostPort :: "string \<Rightarrow> (string \<times> string) option" where
  "SplitHostPort hp =
     (case last_index_of CHR '':'' hp of
        None \<Rightarrow> None
      | Some i \<Rightarrow>
          (let checked = (\<lambda>host j k.
             if CHR ''['' \<in> set (drop j hp) \<or> CHR '']'' \<in> set (drop k hp) then None
             else Some (host, drop (Suc i) hp)) in
           if hd hp = CHR ''['' then
             (case index_of CHR '']'' hp of
                None \<Rightarrow> None
              | Some b \<Rightarrow> if Suc b = i then checked (drop 1 (take b hp)) 1 (Suc b) else None)
           else if CHR '':'' \<in> set (take i hp) then None
           else checked (take i hp) 0 0))"

lemma index_of_append: "c \<notin> set a \<Longrightarrow> index_of c (a @ c # b) = Some (length a)"
  by (induction a) auto

lemma index_of_None: "index_of c s = None \<longleftrightarrow> c \<notin> set s"
  by (induction s) auto

lemma last_index_of_append:
  assumes "c \<notin> set b"
  shows "last_index_of c (a @ c # b) = Some (length a)"
  using index_of_append [of c "rev b" "rev a"] assms by (simp add: last_index_of_def)

lemma last_index_of_cases:
  assumes "last_index_of c s = Some i"
  obtains a b where "s = a @ c # b" and "length a = i" and "c \<notin> set b"
proof -
  have "c \<in> set s" using assms index_of_None [of c "rev s"] by (auto simp: last_index_of_def)
  then obtain a b where s: "s = a @ c # b" and "c \<notin> set b" by (meson split_list_last)
  then have "length a = i" using assms last_index_of_append by simp
  then show thesis using s \<open>c \<notin> set b\<close> by (intro that)
qed

lemma SplitHostPort_plain:
  assumes "CHR '':'' \<notin> set host" and "CHR ''['' \<notin> set host" and "CHR '']'' \<notin> set host"
    and "CHR '':'' \<notin> set port" and "CHR ''['' \<notin> set port" and "CHR '']'' \<notin> set port"
  shows "SplitHostPort (host @ CHR '':'' # port) = Some (host, port)"
proof -
  have "hd (host @ CHR '':'' # port) \<noteq> CHR ''[''" using assms(2) by (cases host) auto
  then show ?thesis
    using assms last_index_of_append [OF assms(4), of host] by (simp add: SplitHostPort_def Let_def)
qed

text \<open>An address with a colon that is not in brackets is refused.\<close>

lemma SplitHostPort_colon:
  assumes "CHR '':'' \<in> set host" and "hd host \<noteq> CHR ''[''" and "CHR '':'' \<notin> set port"
  shows "SplitHostPort (host @ CHR '':'' # port) = None"
proof -
  have "hd (host @ CHR '':'' # port) = hd host" using assms(1) by (cases host) auto
  then show ?thesis
    using assms last_index_of_append [OF assms(3), of host] by (simp add: SplitHostPort_def Let_def)
qed

lemma SplitHostPort_host_port:
  assumes "SplitHostPort hp = Some (host, port)"
  shows "\<exists>pre. hp = pre @ CHR '':'' # port \<and> CHR '':'' \<notin> set port"
proof -
  obtain i where i: "last_index_of CHR '':'' hp = Some i" and port: "port = drop (Suc i) hp"
    using assms by (auto simp: SplitHostPort_def Let_def split: option.splits if_splits)
  from i obtain a b where hp: "hp = a @ CHR '':'' # b" and "length a = i" and "CHR '':'' \<notin> set b"
    by (rule last_index_of_cases)
  then have "port = b" using port by simp
  with hp \<open>CHR '':'' \<notin> set b\<close> show ?thesis by blast
qed

end
