(* ===== verification/GoOs.thy ===== *)
theory GoOs
  imports GoJsonText
begin

text \<open>
  The part of Go's \<open>os\<close>, \<open>io\<close> and \<open>path/filepath\<close> that the registry uses, over an
  explicit file system. A path is the list of the components of a cleaned absolute path; the
  file system is an association list from paths to nodes, so that a directory can be listed.
  Every call can fail for the reasons the tree gives (a missing parent, a directory in the
  place of a file) and, besides, when the environment says so (\<open>sys_fault\<close>: disk full, I/O
  error): a call that fails leaves the tree as it is, except that a failing write may have
  transferred a part of its data. Operations are atomic with respect to each other.
\<close>

type_synonym path = "string list"

datatype node = File bytes | Dir

type_synonym fs = "(path \<times> node) list"

datatype errno = ENOENT | ENOTDIR | EISDIR | ENOTEMPTY | EEXIST | EINVAL | EIO

datatype syscall =
    SysMkdirAll path
  | SysOpen path
  | SysOpenFile path
  | SysCreate path
  | SysRead path
  | SysWrite path
  | SysSeek path
  | SysClose path
  | SysRename path path
  | SysRemove path
  | SysStat path
  | SysReadDir path

text \<open>An \<open>io.Reader\<close>: the bytes it delivers, and whether it then fails instead of reporting
  the end of the stream.\<close>

record reader =
  rdata :: bytes
  rfail :: bool

abbreviation bytes_reader :: "bytes \<Rightarrow> reader" where
  "bytes_reader b \<equiv> \<lparr>rdata = b, rfail = False\<rparr>"

text \<open>What the process takes from outside during one call: failing system calls, how many
  bytes a failing read or write still transfers, the size reported for a directory, the clock,
  the next random UUID, and the parser of the package \<open>go-digest\<close> (algorithm and encoded part
  of a digest string it accepts).\<close>

record env =
  sys_fault :: "syscall \<Rightarrow> bool"
  short_io :: "path \<Rightarrow> nat"
  dir_size :: int
  now :: int
  new_uuid :: string
  digest_Parse :: "string \<Rightarrow> (string \<times> string) option"

text \<open>What the code relies on there. A digest string that \<open>go-digest\<close> parses is its
  algorithm, a colon and its encoded part; a UUID (below) is a plain path component.\<close>

definition digest_ok :: "env \<Rightarrow> bool" where
  "digest_ok e \<longleftrightarrow>
     (\<forall>d a h. digest_Parse e d = Some (a, h) \<longrightarrow> d = a @ CHR '':'' # h \<and> CHR '':'' \<notin> set a)"

subsection \<open>Paths\<close>

text \<open>\<open>filepath.Join\<close> onto an absolute path: the elements are split at slashes, empty
  and \<open>.\<close> components vanish, \<open>..\<close> drops the last component (and stays at the root).\<close>

fun clean_onto :: "path \<Rightarrow> string list \<Rightarrow> path" where
  "clean_onto acc [] = acc"
| "clean_onto acc (c # cs) =
     (if c = [] \<or> c = ''.'' then clean_onto acc cs
      else if c = ''..'' then clean_onto (butlast acc) cs
      else clean_onto (acc @ [c]) cs)"

definition Join :: "path \<Rightarrow> string list \<Rightarrow> path" where
  "Join base elems = clean_onto base (concat (map (Split CHR ''/'') elems))"

definition filepath_Dir :: "path \<Rightarrow> path" where
  "filepath_Dir p = butlast p"

text \<open>\<open>path + ".tmp"\<close>.\<close>

definition tmp_of :: "path \<Rightarrow> path" where
  "tmp_of p = (if p = [] then [''.tmp''] else butlast p @ [last p @ ''.tmp''])"

text \<open>The text of a path, as error messages print it.\<close>

definition path_string :: "path \<Rightarrow> string" where
  "path_string p = (if p = [] then ''/'' else concat (map (\<lambda>c. CHR ''/'' # c) p))"

text \<open>A component that names an entry of the directory it is joined to.\<close>

definition safe_comp :: "string \<Rightarrow> bool" where
  "safe_comp c \<longleftrightarrow> CHR ''/'' \<notin> set c \<and> c \<noteq> [] \<and> c \<noteq> ''.'' \<and> c \<noteq> ''..''"

definition uuid_ok :: "env \<Rightarrow> bool" where
  "uuid_ok e \<longleftrightarrow> safe_comp (new_uuid e) \<and> CHR ''.'' \<notin> set (new_uuid e)"

lemma clean_onto_safe: "\<forall>c \<in> set cs. safe_comp c \<Longrightarrow> clean_onto acc cs = acc @ cs"
  by (induction cs arbitrary: acc) (auto simp: safe_comp_def)

lemma Join_safe [simp]:
  assumes "\<forall>c \<in> set cs. safe_comp c"
  shows "Join base cs = base @ cs"
proof -
  from assms have "map (Split CHR ''/'') cs = map (\<lambda>c. [c]) cs"
    by (intro map_cong refl Split_no_sep) (simp add: safe_comp_def)
  then have "concat (map (Split CHR ''/'') cs) = cs"
    by (simp only: concat_map_singleton map_ident)
  with assms show ?thesis by (simp add: Join_def clean_onto_safe)
qed

lemma tmp_of_neq [simp]: "tmp_of p \<noteq> p" "p \<noteq> tmp_of p"
proof -
  have "tmp_of p \<noteq> p"
  proof (cases "p = []")
    case False
    then have "p = butlast p @ [last p]" by simp
    moreover have "last p @ ''.tmp'' \<noteq> last p" by simp
    ultimately show ?thesis using False unfolding tmp_of_def
      by (metis append1_eq_conv)
  qed (simp add: tmp_of_def)
  then show "tmp_of p \<noteq> p" "p \<noteq> tmp_of p" by simp_all
qed

lemma tmp_of_not_Nil [simp]: "tmp_of p \<noteq> []"
  by (simp add: tmp_of_def)

lemma last_tmp_of [simp]: "HasSuffix (last (tmp_of p)) ''.tmp''"
  by (simp add: tmp_of_def HasSuffix_def HasPrefix_def)

lemma butlast_tmp_of [simp]: "butlast (tmp_of p) = butlast p"
  by (simp add: tmp_of_def)

lemma tmp_of_append_one: "tmp_of (p @ [c]) = p @ [c @ ''.tmp'']"
  by (simp add: tmp_of_def)

text \<open>Paths whose last component ends in \<open>.tmp\<close>: the only ones the store writes in place.\<close>

definition is_tmp :: "path \<Rightarrow> bool" where
  "is_tmp p \<longleftrightarrow> p \<noteq> [] \<and> HasSuffix (last p) ''.tmp''"

lemma is_tmp_tmp_of [simp]: "is_tmp (tmp_of p)"
  by (simp add: is_tmp_def)

lemma not_is_tmp_no_dot: "CHR ''.'' \<notin> set c \<Longrightarrow> \<not> is_tmp (p @ [c])"
proof
  assume dot: "CHR ''.'' \<notin> set c" and "is_tmp (p @ [c])"
  then obtain t where "c = t @ ''.tmp''" by (auto simp: is_tmp_def dest: HasSuffixD)
  with dot show False by simp
qed

subsection \<open>The tree\<close>

definition fs_get :: "fs \<Rightarrow> path \<Rightarrow> node option" where
  "fs_get t p = (if p = [] then Some Dir else map_of t p)"

definition fs_set :: "path \<Rightarrow> node \<Rightarrow> fs \<Rightarrow> fs" where
  "fs_set p n t = AList.update p n t"

definition fs_del :: "path \<Rightarrow> fs \<Rightarrow> fs" where
  "fs_del p t = AList.delete p t"

lemma fs_get_root [simp]: "fs_get t [] = Some Dir"
  by (simp add: fs_get_def)

lemma fs_get_set: "p \<noteq> [] \<Longrightarrow> fs_get (fs_set p n t) q = (if q = p then Some n else fs_get t q)"
  by (auto simp: fs_get_def fs_set_def update_conv')

lemma fs_get_set_same [simp]: "p \<noteq> [] \<Longrightarrow> fs_get (fs_set p n t) p = Some n"
  by (simp add: fs_get_set)

lemma fs_get_set_other [simp]: "q \<noteq> p \<Longrightarrow> fs_get (fs_set p n t) q = fs_get t q"
  by (auto simp: fs_get_def fs_set_def update_conv')

lemma fs_get_del: "p \<noteq> [] \<Longrightarrow> fs_get (fs_del p t) q = (if q = p then None else fs_get t q)"
  by (auto simp: fs_get_def fs_del_def delete_conv')

lemma fs_get_del_other [simp]: "q \<noteq> p \<Longrightarrow> fs_get (fs_del p t) q = fs_get t q"
  by (auto simp: fs_get_def fs_del_def delete_conv')

text \<open>The ancestors of a path, outermost first; walking them stops at the first one that is
  not a directory.\<close>

definition ancestors :: "path \<Rightarrow> path list" where
  "ancestors p = map (\<lambda>i. take i p) [0..<length p]"

fun first_bad :: "fs \<Rightarrow> path list \<Rightarrow> errno option" where
  "first_bad t [] = None"
| "first_bad t (q # qs) =
     (case fs_get t q of
        None \<Rightarrow> Some ENOENT
      | Some (File _) \<Rightarrow> Some ENOTDIR
      | Some Dir \<Rightarrow> first_bad t qs)"

definition walk_err :: "fs \<Rightarrow> path \<Rightarrow> errno option" where
  "walk_err t p = first_bad t (ancestors p)"

text \<open>Looking a path up, with the error the kernel reports.\<close>

definition lookup :: "fs \<Rightarrow> path \<Rightarrow> errno + node" where
  "lookup t p =
     (case walk_err t p of
        Some er \<Rightarrow> Err er
      | None \<Rightarrow> (case fs_get t p of None \<Rightarrow> Err ENOENT | Some n \<Rightarrow> Ok n))"

definition wf_fs :: "fs \<Rightarrow> bool" where
  "wf_fs t \<longleftrightarrow> (\<forall>p n. p \<noteq> [] \<longrightarrow> fs_get t p = Some n \<longrightarrow> fs_get t (butlast p) = Some Dir)"

lemma wf_fs_Nil [simp]: "wf_fs []"
  by (simp add: wf_fs_def fs_get_def)

lemma first_bad_None: "first_bad t qs = None \<longleftrightarrow> (\<forall>q \<in> set qs. fs_get t q = Some Dir)"
  by (induction qs) (auto split: option.splits node.splits)

lemma walk_err_None: "walk_err t p = None \<longleftrightarrow> (\<forall>i < length p. fs_get t (take i p) = Some Dir)"
  by (auto simp: walk_err_def ancestors_def first_bad_None)

lemma wf_fs_take:
  assumes "wf_fs t" and "fs_get t p = Some n" and "i < length p"
  shows "fs_get t (take i p) = Some Dir"
  using assms(2,3)
proof (induction p arbitrary: n rule: rev_induct)
  case Nil
  then show ?case by simp
next
  case (snoc c p)
  from assms(1) snoc.prems(1) have par: "fs_get t p = Some Dir"
    unfolding wf_fs_def by (metis butlast_snoc snoc_eq_iff_butlast)
  show ?case
  proof (cases "i < length p")
    case True
    with snoc.IH [OF par] show ?thesis by simp
  next
    case False
    with snoc.prems par show ?thesis by simp
  qed
qed

lemma wf_fs_walk: "wf_fs t \<Longrightarrow> fs_get t p = Some n \<Longrightarrow> walk_err t p = None"
  by (auto simp: walk_err_None dest: wf_fs_take)

lemma lookup_Ok_iff: "wf_fs t \<Longrightarrow> lookup t p = Ok n \<longleftrightarrow> fs_get t p = Some n"
  by (auto simp: lookup_def wf_fs_walk split: option.splits)

lemma lookup_OkD: "lookup t p = Ok n \<Longrightarrow> fs_get t p = Some n"
  by (auto simp: lookup_def split: option.splits)

lemma lookup_Err_wf: "wf_fs t \<Longrightarrow> lookup t p = Err er \<Longrightarrow> fs_get t p = None"
  by (cases "fs_get t p") (auto simp: lookup_def wf_fs_walk)

lemma lookup_get: "wf_fs t \<Longrightarrow> fs_get t p = Some n \<Longrightarrow> lookup t p = Ok n"
  by (simp add: lookup_Ok_iff)

lemma wf_fs_set:
  assumes "wf_fs t" and "walk_err t p = None"
    and "n = Dir \<or> fs_get t p \<noteq> Some Dir"
  shows "wf_fs (fs_set p n t)"
proof (cases "p = []")
  case True
  then have "fs_get (fs_set p n t) q = fs_get t q" for q
    by (auto simp: fs_get_def fs_set_def update_conv')
  with assms(1) show ?thesis by (simp add: wf_fs_def)
next
  case False
  have par: "fs_get t (butlast p) = Some Dir"
    using assms(2) False by (simp add: walk_err_None butlast_conv_take)
  have "butlast q \<noteq> p \<or> n = Dir" if "q \<noteq> []" "fs_get t q = Some m" for q m
    using assms(1,3) that unfolding wf_fs_def by metis
  then show ?thesis
    using assms(1) par False unfolding wf_fs_def fs_get_set [OF False]
    by (metis append_butlast_last_id not_Cons_self2 self_append_conv)
qed

text \<open>\<open>os.ReadDir\<close> lists the entries of a directory sorted by name.\<close>

definition child_names :: "fs \<Rightarrow> path \<Rightarrow> string list" where
  "child_names t d = sort (remdups (map (\<lambda>(q, _). last q) (filter (\<lambda>(q, _). q \<noteq> [] \<and> butlast q = d) t)))"

lemma fs_dom: "q \<noteq> [] \<Longrightarrow> fs_get t q \<noteq> None \<longleftrightarrow> q \<in> fst ` set t"
  by (simp add: fs_get_def map_of_eq_None_iff)

lemma set_child_names: "set (child_names t d) = {c. fs_get t (d @ [c]) \<noteq> None}"
proof -
  have "c \<in> set (child_names t d) \<longleftrightarrow> d @ [c] \<in> fst ` set t" for c
    by (force simp: child_names_def)
  moreover have "fs_get t (d @ [c]) \<noteq> None \<longleftrightarrow> d @ [c] \<in> fst ` set t" for c
    by (rule fs_dom) simp
  ultimately show ?thesis by blast
qed

lemma sorted_child_names [simp]: "sorted (child_names t d)"
  by (simp add: child_names_def)

lemma distinct_child_names [simp]: "distinct (child_names t d)"
  by (simp add: child_names_def)

end
