(* ===== verification/Types.thy ===== *)
theory Types
  imports GoOs
begin

text \<open>
  The registry's data types, \<open>pkg/types\<close>: manifests, descriptors and the image index with
  their JSON encoding (struct tags included: which fields are omitted when empty, and that the
  internal fields of a manifest are not encoded at all), and the upload session with its
  accessors. The mutex of an upload is left out: every accessor is one step.
\<close>

subsection \<open>Manifests and descriptors\<close>

record Platform =
  pf_Architecture :: string
  pf_OS :: string
  pf_OSVersion :: string
  pf_OSFeatures :: "string list option"
  pf_Variant :: string

record Descriptor =
  d_MediaType :: string
  d_Digest :: string
  d_Size :: int
  d_URLs :: "string list option"
  d_Annotations :: "(string \<times> string) list option"
  d_Data :: "bytes option"
  d_Platform :: "Platform option"
  d_ArtifactType :: string

record Manifest =
  m_MediaType :: string
  m_SchemaVersion :: int
  m_Config :: Descriptor
  m_Layers :: "Descriptor list option"
  m_Manifests :: "Descriptor list option"
  m_Subject :: "Descriptor option"
  m_ArtifactType :: string
  m_Annotations :: "(string \<times> string) list option"
  m_Digest :: string
  m_Size :: int
  m_Repository :: string
  m_Tag :: string
  m_CreatedAt :: int

record ImageIndex =
  ix_SchemaVersion :: int
  ix_MediaType :: string
  ix_Manifests :: "Descriptor list option"
  ix_Annotations :: "(string \<times> string) list option"

definition zero_Platform :: Platform where
  "zero_Platform = \<lparr>pf_Architecture = [], pf_OS = [], pf_OSVersion = [], pf_OSFeatures = None,
     pf_Variant = []\<rparr>"

definition zero_Descriptor :: Descriptor where
  "zero_Descriptor = \<lparr>d_MediaType = [], d_Digest = [], d_Size = 0, d_URLs = None,
     d_Annotations = None, d_Data = None, d_Platform = None, d_ArtifactType = []\<rparr>"

definition zero_Manifest :: Manifest where
  "zero_Manifest = \<lparr>m_MediaType = [], m_SchemaVersion = 0, m_Config = zero_Descriptor,
     m_Layers = None, m_Manifests = None, m_Subject = None, m_ArtifactType = [],
     m_Annotations = None, m_Digest = [], m_Size = 0, m_Repository = [], m_Tag = [],
     m_CreatedAt = 0\<rparr>"

definition MT_ImageManifest :: string where
  "MT_ImageManifest = ''application/vnd.oci.image.manifest.v1+json''"

definition MT_ImageIndex :: string where
  "MT_ImageIndex = ''application/vnd.oci.image.index.v1+json''"

subsection \<open>Marshal\<close>

definition platform_json :: "Platform \<Rightarrow> json" where
  "platform_json p = JObj
     ([(''architecture'', JStr (pf_Architecture p)), (''os'', JStr (pf_OS p))]
      @ omit_str ''os.version'' (pf_OSVersion p)
      @ omit_list ''os.features'' JStr (pf_OSFeatures p)
      @ omit_str ''variant'' (pf_Variant p))"

definition descriptor_json :: "Descriptor \<Rightarrow> json" where
  "descriptor_json d = JObj
     ([(''mediaType'', JStr (d_MediaType d)), (''digest'', JStr (d_Digest d)),
       (''size'', JNum (d_Size d))]
      @ omit_list ''urls'' JStr (d_URLs d)
      @ omit_map ''annotations'' (d_Annotations d)
      @ omit_bytes ''data'' (d_Data d)
      @ omit_ptr ''platform'' platform_json (d_Platform d)
      @ omit_str ''artifactType'' (d_ArtifactType d))"

text \<open>\<open>omitempty\<close> has no effect on a struct, so \<open>config\<close> is always there; the fields
  tagged \<open>json:"-"\<close> are not.\<close>

definition manifest_json :: "Manifest \<Rightarrow> json" where
  "manifest_json m = JObj
     ([(''mediaType'', JStr (m_MediaType m)), (''schemaVersion'', JNum (m_SchemaVersion m)),
       (''config'', descriptor_json (m_Config m))]
      @ omit_list ''layers'' descriptor_json (m_Layers m)
      @ omit_list ''manifests'' descriptor_json (m_Manifests m)
      @ omit_ptr ''subject'' descriptor_json (m_Subject m)
      @ omit_str ''artifactType'' (m_ArtifactType m)
      @ omit_map ''annotations'' (m_Annotations m))"

definition index_json :: "ImageIndex \<Rightarrow> json" where
  "index_json ix = JObj
     ([(''schemaVersion'', JNum (ix_SchemaVersion ix)), (''mediaType'', JStr (ix_MediaType ix)),
       (''manifests'', slice_json descriptor_json (ix_Manifests ix))]
      @ omit_map ''annotations'' (ix_Annotations ix))"

definition MarshalManifest :: "Manifest \<Rightarrow> bytes" where
  "MarshalManifest m = Marshal (manifest_json m)"

subsection \<open>Unmarshal\<close>

definition platform_field :: "string \<Rightarrow> json \<Rightarrow> Platform \<Rightarrow> Platform option" where
  "platform_field k j p =
     (if k = ''architecture'' then
        map_option (\<lambda>s. p\<lparr>pf_Architecture := s\<rparr>) (dec_str (pf_Architecture p) j)
      else if k = ''os'' then map_option (\<lambda>s. p\<lparr>pf_OS := s\<rparr>) (dec_str (pf_OS p) j)
      else if k = ''os.version'' then
        map_option (\<lambda>s. p\<lparr>pf_OSVersion := s\<rparr>) (dec_str (pf_OSVersion p) j)
      else if k = ''os.features'' then
        map_option (\<lambda>l. p\<lparr>pf_OSFeatures := l\<rparr>) (dec_list (dec_str []) j)
      else if k = ''variant'' then
        map_option (\<lambda>s. p\<lparr>pf_Variant := s\<rparr>) (dec_str (pf_Variant p) j)
      else Some p)"

text \<open>A null pointer field is reset; otherwise the object is decoded into the struct pointed
  to, a fresh one if there is none.\<close>

definition dec_ptr :: "('a \<Rightarrow> json \<Rightarrow> 'a option) \<Rightarrow> 'a \<Rightarrow> 'a option \<Rightarrow> json \<Rightarrow> 'a option option" where
  "dec_ptr f zero old j =
     (if j = JNull then Some None
      else map_option Some (f (case old of None \<Rightarrow> zero | Some x \<Rightarrow> x) j))"

definition descriptor_field :: "string \<Rightarrow> json \<Rightarrow> Descriptor \<Rightarrow> Descriptor option" where
  "descriptor_field k j d =
     (if k = ''mediatype'' then
        map_option (\<lambda>s. d\<lparr>d_MediaType := s\<rparr>) (dec_str (d_MediaType d) j)
      else if k = ''digest'' then map_option (\<lambda>s. d\<lparr>d_Digest := s\<rparr>) (dec_str (d_Digest d) j)
      else if k = ''size'' then map_option (\<lambda>i. d\<lparr>d_Size := i\<rparr>) (dec_int (d_Size d) j)
      else if k = ''urls'' then map_option (\<lambda>l. d\<lparr>d_URLs := l\<rparr>) (dec_list (dec_str []) j)
      else if k = ''annotations'' then
        map_option (\<lambda>m. d\<lparr>d_Annotations := m\<rparr>) (dec_map (d_Annotations d) j)
      else if k = ''data'' then map_option (\<lambda>b. d\<lparr>d_Data := b\<rparr>) (dec_bytes j)
      else if k = ''platform'' then
        map_option (\<lambda>p. d\<lparr>d_Platform := p\<rparr>)
          (dec_ptr (dec_struct platform_field) zero_Platform (d_Platform d) j)
      else if k = ''artifacttype'' then
        map_option (\<lambda>s. d\<lparr>d_ArtifactType := s\<rparr>) (dec_str (d_ArtifactType d) j)
      else Some d)"

definition dec_descriptor :: "Descriptor \<Rightarrow> json \<Rightarrow> Descriptor option" where
  "dec_descriptor = dec_struct descriptor_field"

definition manifest_field :: "string \<Rightarrow> json \<Rightarrow> Manifest \<Rightarrow> Manifest option" where
  "manifest_field k j m =
     (if k = ''mediatype'' then
        map_option (\<lambda>s. m\<lparr>m_MediaType := s\<rparr>) (dec_str (m_MediaType m) j)
      else if k = ''schemaversion'' then
        map_option (\<lambda>i. m\<lparr>m_SchemaVersion := i\<rparr>) (dec_int (m_SchemaVersion m) j)
      else if k = ''config'' then
        map_option (\<lambda>d. m\<lparr>m_Config := d\<rparr>) (dec_descriptor (m_Config m) j)
      else if k = ''layers'' then
        map_option (\<lambda>l. m\<lparr>m_Layers := l\<rparr>) (dec_list (dec_descriptor zero_Descriptor) j)
      else if k = ''manifests'' then
        map_option (\<lambda>l. m\<lparr>m_Manifests := l\<rparr>) (dec_list (dec_descriptor zero_Descriptor) j)
      else if k = ''subject'' then
        map_option (\<lambda>d. m\<lparr>m_Subject := d\<rparr>)
          (dec_ptr dec_descriptor zero_Descriptor (m_Subject m) j)
      else if k = ''artifacttype'' then
        map_option (\<lambda>s. m\<lparr>m_ArtifactType := s\<rparr>) (dec_str (m_ArtifactType m) j)
      else if k = ''annotations'' then
        map_option (\<lambda>a. m\<lparr>m_Annotations := a\<rparr>) (dec_map (m_Annotations m) j)
      else Some m)"

definition UnmarshalManifest :: "bytes \<Rightarrow> Manifest \<Rightarrow> Manifest option" where
  "UnmarshalManifest b m =
     (case Unmarshal b of None \<Rightarrow> None | Some j \<Rightarrow> dec_struct manifest_field m j)"

definition ParseManifest :: "bytes \<Rightarrow> Manifest option" where
  "ParseManifest b =
     map_option (\<lambda>m. m\<lparr>m_Size := int (length b)\<rparr>) (UnmarshalManifest b zero_Manifest)"

subsection \<open>What survives a round trip\<close>

definition stored_Platform :: "Platform \<Rightarrow> Platform" where
  "stored_Platform p = p\<lparr>pf_OSFeatures := nonempty (pf_OSFeatures p)\<rparr>"

definition stored_Descriptor :: "Descriptor \<Rightarrow> Descriptor" where
  "stored_Descriptor d = d\<lparr>d_URLs := nonempty (d_URLs d), d_Annotations := nonempty (d_Annotations d),
     d_Data := nonempty (d_Data d), d_Platform := map_option stored_Platform (d_Platform d)\<rparr>"

text \<open>The manifest as the encoded form keeps it: empty slices and maps become nil, and the
  internal fields (digest, size, repository, tag, creation time) are zero.\<close>

definition stored_Manifest :: "Manifest \<Rightarrow> Manifest" where
  "stored_Manifest m = m\<lparr>m_Config := stored_Descriptor (m_Config m),
     m_Layers := nonempty (map_option (map stored_Descriptor) (m_Layers m)),
     m_Manifests := nonempty (map_option (map stored_Descriptor) (m_Manifests m)),
     m_Subject := map_option stored_Descriptor (m_Subject m),
     m_Annotations := nonempty (m_Annotations m),
     m_Digest := [], m_Size := 0, m_Repository := [], m_Tag := [], m_CreatedAt := 0\<rparr>"

text \<open>What every Go value of the type satisfies: 64-bit integers, maps with unique keys.\<close>

definition omap_ok :: "(string \<times> string) list option \<Rightarrow> bool" where
  "omap_ok m \<longleftrightarrow> (case m of None \<Rightarrow> True | Some kvs \<Rightarrow> map_ok kvs)"

definition Descriptor_ok :: "Descriptor \<Rightarrow> bool" where
  "Descriptor_ok d \<longleftrightarrow> in_int64 (d_Size d) \<and> omap_ok (d_Annotations d)"

definition Manifest_ok :: "Manifest \<Rightarrow> bool" where
  "Manifest_ok m \<longleftrightarrow> in_int64 (m_SchemaVersion m) \<and> Descriptor_ok (m_Config m) \<and>
     (\<forall>d \<in> set (case m_Layers m of None \<Rightarrow> [] | Some l \<Rightarrow> l). Descriptor_ok d) \<and>
     (\<forall>d \<in> set (case m_Manifests m of None \<Rightarrow> [] | Some l \<Rightarrow> l). Descriptor_ok d) \<and>
     (case m_Subject m of None \<Rightarrow> True | Some d \<Rightarrow> Descriptor_ok d) \<and> omap_ok (m_Annotations m)"

lemma lower_keys [simp]:
  "lower ''architecture'' = ''architecture''" "lower ''os'' = ''os''"
  "lower ''os.version'' = ''os.version''" "lower ''os.features'' = ''os.features''"
  "lower ''variant'' = ''variant''" "lower ''mediaType'' = ''mediatype''"
  "lower ''digest'' = ''digest''" "lower ''size'' = ''size''" "lower ''urls'' = ''urls''"
  "lower ''annotations'' = ''annotations''" "lower ''data'' = ''data''"
  "lower ''platform'' = ''platform''" "lower ''artifactType'' = ''artifacttype''"
  "lower ''schemaVersion'' = ''schemaversion''" "lower ''config'' = ''config''"
  "lower ''layers'' = ''layers''" "lower ''manifests'' = ''manifests''"
  "lower ''subject'' = ''subject''"
  by code_simp+

subsection \<open>The round trip\<close>

lemma part_str:
  assumes "s = [] \<Longrightarrow> y = x" and "f (lower k) (JStr s) x = Some y"
  shows "dec_members f (omit_str k s) x = Some y"
  using assms by (simp add: omit_str_def)

lemma part_list:
  assumes "nonempty xs = None \<Longrightarrow> y = x"
    and "\<And>ys. nonempty xs = Some ys \<Longrightarrow> f (lower k) (JArr (map g ys)) x = Some y"
  shows "dec_members f (omit_list k g xs) x = Some y"
  using assms by (auto simp: omit_list_def nonempty_def split: option.splits list.splits)

lemma part_map:
  assumes "nonempty xs = None \<Longrightarrow> y = x"
    and "\<And>kvs. nonempty xs = Some kvs \<Longrightarrow>
      f (lower k) (JObj (map (\<lambda>(a, b). (a, JStr b)) kvs)) x = Some y"
  shows "dec_members f (omit_map k xs) x = Some y"
  using assms by (auto simp: omit_map_def nonempty_def split: option.splits list.splits)

lemma part_bytes:
  assumes "nonempty b = None \<Longrightarrow> y = x"
    and "\<And>bs. nonempty b = Some bs \<Longrightarrow> f (lower k) (JStr (b64_encode bs)) x = Some y"
  shows "dec_members f (omit_bytes k b) x = Some y"
  using assms by (auto simp: omit_bytes_def nonempty_def split: option.splits list.splits)

lemma part_ptr:
  assumes "p = None \<Longrightarrow> y = x" and "\<And>q. p = Some q \<Longrightarrow> f (lower k) (g q) x = Some y"
  shows "dec_members f (omit_ptr k g p) x = Some y"
  using assms by (auto simp: omit_ptr_def split: option.splits)

lemmas json_parts = part_str part_list part_map part_bytes part_ptr

lemma dec_list_strings [simp]: "dec_list (dec_str old) (JArr (map JStr xs)) = Some (Some xs)"
  using those_map_Some [where f = "dec_str old" and g = JStr and h = id and xs = xs]
  by (simp add: comp_def)

lemma dec_list_map:
  assumes "\<forall>x \<in> set xs. f (g x) = Some (h x)"
  shows "dec_list f (JArr (map g xs)) = Some (Some (map h xs))"
  using those_map_Some [where f = f and g = g and h = h and xs = xs] assms by (simp add: comp_def)

lemma dec_map_map [simp]:
  "map_ok kvs \<Longrightarrow> dec_map None (JObj (map (\<lambda>(a, b). (a, JStr b)) kvs)) = Some (Some kvs)"
  using dec_entries_map [of "[]" kvs] by simp

declare dec_list.simps(1) [simp del]
declare dec_map.simps(1) [simp del]

lemma nonempty_SomeD: "nonempty xs = Some ys \<Longrightarrow> xs = Some ys"
  by (simp add: nonempty_def split: if_splits)

lemma omap_okD: "omap_ok m \<Longrightarrow> nonempty m = Some kvs \<Longrightarrow> map_ok kvs"
  by (auto simp: omap_ok_def nonempty_def split: if_splits)

lemma dec_platform_json: "dec_struct platform_field zero_Platform (platform_json p) = Some (stored_Platform p)"
proof -
  let ?x0 = "zero_Platform\<lparr>pf_Architecture := pf_Architecture p, pf_OS := pf_OS p\<rparr>"
  let ?x1 = "?x0\<lparr>pf_OSVersion := pf_OSVersion p\<rparr>"
  let ?x2 = "?x1\<lparr>pf_OSFeatures := nonempty (pf_OSFeatures p)\<rparr>"
  have "dec_members platform_field (omit_str ''os.version'' (pf_OSVersion p)) ?x0 = Some ?x1"
    by (rule part_str) (simp_all add: platform_field_def zero_Platform_def)
  moreover have "dec_members platform_field (omit_list ''os.features'' JStr (pf_OSFeatures p)) ?x1 = Some ?x2"
    by (rule part_list) (simp_all add: platform_field_def zero_Platform_def)
  moreover have "dec_members platform_field (omit_str ''variant'' (pf_Variant p)) ?x2
      = Some (stored_Platform p)"
    by (rule part_str) (simp_all add: platform_field_def zero_Platform_def stored_Platform_def)
  ultimately show ?thesis
    by (simp add: platform_json_def dec_members_append) (simp add: platform_field_def dec_members_append)
qed

lemma dec_ptr_fresh [simp]: "j \<noteq> JNull \<Longrightarrow> dec_ptr f z None j = map_option Some (f z j)"
  by (simp add: dec_ptr_def)

lemma platform_json_not_null [simp]: "platform_json p \<noteq> JNull"
  by (simp add: platform_json_def)

lemma descriptor_json_not_null [simp]: "descriptor_json d \<noteq> JNull"
  by (simp add: descriptor_json_def)

lemma dec_descriptor_json:
  assumes "Descriptor_ok d"
  shows "dec_descriptor zero_Descriptor (descriptor_json d) = Some (stored_Descriptor d)"
proof -
  let ?x0 = "zero_Descriptor\<lparr>d_MediaType := d_MediaType d, d_Digest := d_Digest d, d_Size := d_Size d\<rparr>"
  let ?x1 = "?x0\<lparr>d_URLs := nonempty (d_URLs d)\<rparr>"
  let ?x2 = "?x1\<lparr>d_Annotations := nonempty (d_Annotations d)\<rparr>"
  let ?x3 = "?x2\<lparr>d_Data := nonempty (d_Data d)\<rparr>"
  let ?x4 = "?x3\<lparr>d_Platform := map_option stored_Platform (d_Platform d)\<rparr>"
  have oa: "omap_ok (d_Annotations d)" using assms by (simp add: Descriptor_ok_def)
  have "dec_members descriptor_field (omit_list ''urls'' JStr (d_URLs d)) ?x0 = Some ?x1"
    by (rule part_list) (simp_all add: descriptor_field_def zero_Descriptor_def)
  moreover have "dec_members descriptor_field (omit_map ''annotations'' (d_Annotations d)) ?x1 = Some ?x2"
    by (rule part_map) (simp_all add: descriptor_field_def zero_Descriptor_def omap_okD [OF oa])
  moreover have "dec_members descriptor_field (omit_bytes ''data'' (d_Data d)) ?x2 = Some ?x3"
    by (rule part_bytes) (simp_all add: descriptor_field_def zero_Descriptor_def)
  moreover have "dec_members descriptor_field (omit_ptr ''platform'' platform_json (d_Platform d)) ?x3 = Some ?x4"
    by (rule part_ptr) (simp_all add: descriptor_field_def zero_Descriptor_def dec_platform_json)
  moreover have "dec_members descriptor_field (omit_str ''artifactType'' (d_ArtifactType d)) ?x4
      = Some (stored_Descriptor d)"
    by (rule part_str) (simp_all add: descriptor_field_def zero_Descriptor_def stored_Descriptor_def)
  ultimately show ?thesis
    using assms
    by (simp add: dec_descriptor_def descriptor_json_def dec_members_append Descriptor_ok_def)
      (simp add: descriptor_field_def dec_members_append)
qed

lemma dec_descriptors_json:
  assumes "\<forall>d \<in> set ds. Descriptor_ok d"
  shows "dec_list (dec_descriptor zero_Descriptor) (JArr (map descriptor_json ds)) =
    Some (Some (map stored_Descriptor ds))"
  using assms by (intro dec_list_map) (simp add: dec_descriptor_json)

lemma nonempty_map: "nonempty (map_option (map f) xs) = map_option (map f) (nonempty xs)"
  by (cases xs) (auto simp: nonempty_def)

lemma dec_manifest_json:
  assumes "Manifest_ok m"
  shows "dec_struct manifest_field zero_Manifest (manifest_json m) = Some (stored_Manifest m)"
proof -
  let ?x0 = "zero_Manifest\<lparr>m_MediaType := m_MediaType m, m_SchemaVersion := m_SchemaVersion m,
     m_Config := stored_Descriptor (m_Config m)\<rparr>"
  let ?x1 = "?x0\<lparr>m_Layers := nonempty (map_option (map stored_Descriptor) (m_Layers m))\<rparr>"
  let ?x2 = "?x1\<lparr>m_Manifests := nonempty (map_option (map stored_Descriptor) (m_Manifests m))\<rparr>"
  let ?x3 = "?x2\<lparr>m_Subject := map_option stored_Descriptor (m_Subject m)\<rparr>"
  let ?x4 = "?x3\<lparr>m_ArtifactType := m_ArtifactType m\<rparr>"
  have ok: "Descriptor_ok (m_Config m)" "in_int64 (m_SchemaVersion m)"
    "\<And>l. nonempty (m_Layers m) = Some l \<Longrightarrow> \<forall>d \<in> set l. Descriptor_ok d"
    "\<And>l. nonempty (m_Manifests m) = Some l \<Longrightarrow> \<forall>d \<in> set l. Descriptor_ok d"
    "\<And>d. m_Subject m = Some d \<Longrightarrow> Descriptor_ok d" "omap_ok (m_Annotations m)"
    using assms by (auto simp: Manifest_ok_def dest: nonempty_SomeD)
  have "dec_members manifest_field (omit_list ''layers'' descriptor_json (m_Layers m)) ?x0 = Some ?x1"
    by (rule part_list)
      (simp_all add: manifest_field_def zero_Manifest_def dec_descriptors_json ok(3) nonempty_map)
  moreover have
    "dec_members manifest_field (omit_list ''manifests'' descriptor_json (m_Manifests m)) ?x1 = Some ?x2"
    by (rule part_list)
      (simp_all add: manifest_field_def zero_Manifest_def dec_descriptors_json ok(4) nonempty_map)
  moreover have
    "dec_members manifest_field (omit_ptr ''subject'' descriptor_json (m_Subject m)) ?x2 = Some ?x3"
    by (rule part_ptr) (simp_all add: manifest_field_def zero_Manifest_def dec_descriptor_json ok(5))
  moreover have "dec_members manifest_field (omit_str ''artifactType'' (m_ArtifactType m)) ?x3 = Some ?x4"
    by (rule part_str) (simp_all add: manifest_field_def zero_Manifest_def)
  moreover have "dec_members manifest_field (omit_map ''annotations'' (m_Annotations m)) ?x4
      = Some (stored_Manifest m)"
    by (rule part_map; cases m)
      (simp_all add: manifest_field_def zero_Manifest_def stored_Manifest_def
        omap_okD [OF ok(6)])
  ultimately show ?thesis
    using ok(1,2)
    by (simp add: manifest_json_def dec_members_append)
      (simp add: manifest_field_def zero_Manifest_def dec_descriptor_json dec_members_append)
qed

text \<open>A manifest all of whose text is ASCII, the case in which the JSON text is read back
  unchanged.\<close>

definition ascii_manifest :: "Manifest \<Rightarrow> bool" where
  "ascii_manifest m \<longleftrightarrow> ascii_json (manifest_json m)"

text \<open>The encoding is nested a few levels deep only.\<close>

definition shallow :: "nat \<Rightarrow> (string \<times> json) list \<Rightarrow> bool" where
  "shallow n kvs \<longleftrightarrow> (\<forall>kv \<in> set kvs. json_depth (snd kv) \<le> n)"

lemma shallow_simps [simp]:
  "shallow n []" "shallow n (kv # kvs) \<longleftrightarrow> json_depth (snd kv) \<le> n \<and> shallow n kvs"
  "shallow n (xs @ ys) \<longleftrightarrow> shallow n xs \<and> shallow n ys"
  by (auto simp: shallow_def)

lemma foldr_max_le: "foldr max xs (0 :: nat) \<le> n \<longleftrightarrow> (\<forall>x \<in> set xs. x \<le> n)"
  by (induction xs) auto

lemma depth_obj: "json_depth (JObj kvs) \<le> Suc n \<longleftrightarrow> shallow n kvs"
  by (simp add: foldr_max_le shallow_def)

lemma depth_arr: "json_depth (JArr xs) \<le> Suc n \<longleftrightarrow> (\<forall>x \<in> set xs. json_depth x \<le> n)"
  by (simp add: foldr_max_le)

lemma shallow_omit [simp]:
  "shallow n (omit_str k s)" "shallow n (omit_bytes k b)"
  by (simp_all add: omit_str_def omit_bytes_def split: option.splits list.splits)

lemma shallow_omit_list: "(\<And>x. json_depth (f x) \<le> n) \<Longrightarrow> shallow (Suc n) (omit_list k f xs)"
  using depth_arr by (auto simp: omit_list_def simp del: json_depth.simps split: option.splits list.splits)

lemma shallow_omit_ptr: "(\<And>x. json_depth (f x) \<le> n) \<Longrightarrow> shallow n (omit_ptr k f p)"
  by (simp add: omit_ptr_def split: option.splits)

lemma shallow_omit_map: "shallow (Suc n) (omit_map k m)"
  by (auto simp: omit_map_def shallow_def depth_obj simp del: json_depth.simps(2) split: option.splits list.splits)

lemma depth_platform: "json_depth (platform_json p) \<le> 2"
  unfolding platform_json_def numeral_2_eq_2 depth_obj by (simp add: shallow_omit_list)

lemma depth_descriptor: "json_depth (descriptor_json d) \<le> 3"
  unfolding descriptor_json_def numeral_3_eq_3 depth_obj
  using depth_platform by (simp add: shallow_omit_list shallow_omit_map shallow_omit_ptr numeral_2_eq_2)

lemma depth_manifest: "json_depth (manifest_json m) \<le> Suc (Suc 3)"
proof -
  have deeper: "json_depth (descriptor_json d) \<le> Suc 3" for d using le_SucI depth_descriptor .
  show ?thesis unfolding manifest_json_def depth_obj shallow_simps
    using deeper depth_descriptor
    by (intro conjI shallow_omit_list shallow_omit_map shallow_omit_ptr shallow_omit) simp_all
qed

lemma ParseManifest_Marshal:
  assumes "Manifest_ok m" and "ascii_manifest m"
  shows "ParseManifest (MarshalManifest m) =
    Some ((stored_Manifest m)\<lparr>m_Size := int (length (MarshalManifest m))\<rparr>)"
proof -
  have "json_depth (manifest_json m) \<le> max_depth"
    using depth_manifest [of m] by (simp add: max_depth_def)
  then show ?thesis
    using assms
    by (simp add: ParseManifest_def UnmarshalManifest_def MarshalManifest_def
        ascii_manifest_def Unmarshal_Marshal dec_manifest_json)
qed

lemma stored_Manifest_fields [simp]:
  "m_Digest (stored_Manifest m) = []" "m_MediaType (stored_Manifest m) = m_MediaType m"
  "m_Repository (stored_Manifest m) = []" "m_Tag (stored_Manifest m) = []"
  "m_ArtifactType (stored_Manifest m) = m_ArtifactType m"
  "m_Subject (stored_Manifest m) = map_option stored_Descriptor (m_Subject m)"
  "m_Config (stored_Manifest m) = stored_Descriptor (m_Config m)"
  "m_Annotations (stored_Manifest m) = nonempty (m_Annotations m)"
  by (simp_all add: stored_Manifest_def)

lemma stored_Descriptor_fields [simp]:
  "d_Digest (stored_Descriptor d) = d_Digest d" "d_MediaType (stored_Descriptor d) = d_MediaType d"
  "d_Size (stored_Descriptor d) = d_Size d"
  by (simp_all add: stored_Descriptor_def)

text \<open>No decoder ever sets the internal fields.\<close>

lemma manifest_field_Digest: "manifest_field k j m = Some m' \<Longrightarrow> m_Digest m' = m_Digest m"
  by (auto simp: manifest_field_def split: if_splits)

lemma dec_members_Digest: "dec_members manifest_field kvs m = Some m' \<Longrightarrow> m_Digest m' = m_Digest m"
  by (induction manifest_field kvs m rule: dec_members.induct)
    (auto simp: manifest_field_Digest split: option.splits)

lemma dec_struct_Digest: "dec_struct manifest_field m j = Some m' \<Longrightarrow> m_Digest m' = m_Digest m"
  by (cases j) (auto simp: dec_members_Digest)

lemma UnmarshalManifest_Digest: "UnmarshalManifest b m = Some m' \<Longrightarrow> m_Digest m' = m_Digest m"
  by (auto simp: UnmarshalManifest_def dec_struct_Digest split: option.splits)

lemma ParseManifest_Digest: "ParseManifest b = Some m \<Longrightarrow> m_Digest m = []"
  by (auto simp: ParseManifest_def zero_Manifest_def dest: UnmarshalManifest_Digest)

subsection \<open>Upload sessions\<close>

record Upload =
  u_ID :: string
  u_Repository :: string
  u_StartedAt :: int
  u_Size :: int
  u_offset :: int
  u_tempFile :: path

definition NewUpload :: "env \<Rightarrow> string \<Rightarrow> string \<Rightarrow> Upload" where
  "NewUpload e i repo = \<lparr>u_ID = i, u_Repository = repo, u_StartedAt = now e, u_Size = 0,
     u_offset = 0, u_tempFile = []\<rparr>"

definition GetOffset :: "Upload \<Rightarrow> int" where "GetOffset u = u_offset u"

definition SetOffset :: "int \<Rightarrow> Upload \<Rightarrow> Upload" where "SetOffset off u = u\<lparr>u_offset := off\<rparr>"

definition AddSize :: "int \<Rightarrow> Upload \<Rightarrow> Upload" where "AddSize n u = u\<lparr>u_Size := int64 (u_Size u + n)\<rparr>"

definition GetSize :: "Upload \<Rightarrow> int" where "GetSize u = u_Size u"

definition SetTempFile :: "path \<Rightarrow> Upload \<Rightarrow> Upload" where "SetTempFile p u = u\<lparr>u_tempFile := p\<rparr>"

definition GetTempFile :: "Upload \<Rightarrow> path" where "GetTempFile u = u_tempFile u"

lemmas upload_defs = GetOffset_def SetOffset_def AddSize_def GetSize_def SetTempFile_def GetTempFile_def

end
