(* ===== verification/Sha256.thy ===== *)
theory Sha256
  imports Prelude
begin

text \<open>
  The hash the registry addresses its content by: Go's \<open>crypto/sha256\<close> (FIPS 180-4) on
  lists of bytes, and the digest string \<open>"sha256:" + hex\<close> that \<open>PutBlob\<close> and
  \<open>calculateDigest\<close> build from it. Proofs elsewhere use only that the digest string is a
  function of the bytes and has 64 lower-case hexadecimal digits.
\<close>

unbundle bit_operations_syntax

type_synonym w32 = "32 word"

definition sha_k :: "w32 list" where
  "sha_k =
    [1116352408, 1899447441, 3049323471, 3921009573, 961987163, 1508970993, 2453635748, 2870763221,
     3624381080, 310598401, 607225278, 1426881987, 1925078388, 2162078206, 2614888103, 3248222580,
     3835390401, 4022224774, 264347078, 604807628, 770255983, 1249150122, 1555081692, 1996064986,
     2554220882, 2821834349, 2952996808, 3210313671, 3336571891, 3584528711, 113926993, 338241895,
     666307205, 773529912, 1294757372, 1396182291, 1695183700, 1986661051, 2177026350, 2456956037,
     2730485921, 2820302411, 3259730800, 3345764771, 3516065817, 3600352804, 4094571909, 275423344,
     430227734, 506948616, 659060556, 883997877, 958139571, 1322822218, 1537002063, 1747873779,
     1955562222, 2024104815, 2227730452, 2361852424, 2428436474, 2756734187, 3204031479, 3329325298]"

definition sha_init :: "w32 list" where
  "sha_init = [1779033703, 3144134277, 1013904242, 2773480762,
               1359893119, 2600822924, 528734635, 1541459225]"

definition rotr :: "nat \<Rightarrow> w32 \<Rightarrow> w32" where
  "rotr n x = drop_bit n x OR push_bit (32 - n) x"

definition small_s0 :: "w32 \<Rightarrow> w32" where
  "small_s0 x = rotr 7 x XOR rotr 18 x XOR drop_bit 3 x"
definition small_s1 :: "w32 \<Rightarrow> w32" where
  "small_s1 x = rotr 17 x XOR rotr 19 x XOR drop_bit 10 x"
definition big_s0 :: "w32 \<Rightarrow> w32" where
  "big_s0 x = rotr 2 x XOR rotr 13 x XOR rotr 22 x"
definition big_s1 :: "w32 \<Rightarrow> w32" where
  "big_s1 x = rotr 6 x XOR rotr 11 x XOR rotr 25 x"

definition sha_t1 :: "w32 \<Rightarrow> w32 \<Rightarrow> w32 \<Rightarrow> w32 \<Rightarrow> w32 \<Rightarrow> w32 \<Rightarrow> w32" where
  "sha_t1 e f g h k w = h + big_s1 e + ((e AND f) XOR (NOT e AND g)) + k + w"
definition sha_t2 :: "w32 \<Rightarrow> w32 \<Rightarrow> w32 \<Rightarrow> w32" where
  "sha_t2 a b c = big_s0 a + ((a AND b) XOR (a AND c) XOR (b AND c))"
definition sha_w :: "w32 \<Rightarrow> w32 \<Rightarrow> w32 \<Rightarrow> w32 \<Rightarrow> w32" where
  "sha_w w0 w1 w9 w14 = small_s1 w14 + w9 + small_s0 w1 + w0"
definition sha_mix ::
  "w32 \<Rightarrow> w32 \<Rightarrow> w32 \<Rightarrow> w32 \<Rightarrow> w32 \<Rightarrow> w32 \<Rightarrow> w32 \<Rightarrow> w32 \<Rightarrow> w32 \<Rightarrow> w32 list" where
  "sha_mix t1 t2 a b c d e f g = [t1 + t2, a, b, c, d + t1, e, f, g]"

text \<open>The 64 rounds on one block, with the message schedule kept as a sliding window of
  sixteen words.\<close>

fun sha_rounds :: "w32 list \<Rightarrow> w32 list \<Rightarrow> w32 list \<Rightarrow> w32 list" where
  "sha_rounds [] w st = st"
| "sha_rounds (k # ks) [w0, w1, w2, w3, w4, w5, w6, w7, w8, w9, w10, w11, w12, w13, w14, w15]
     [a, b, c, d, e, f, g, h] =
     sha_rounds ks
       [w1, w2, w3, w4, w5, w6, w7, w8, w9, w10, w11, w12, w13, w14, w15, sha_w w0 w1 w9 w14]
       (sha_mix (sha_t1 e f g h k w0) (sha_t2 a b c) a b c d e f g)"
| "sha_rounds (k # ks) w st = st"

definition word_of_bytes :: "bytes \<Rightarrow> w32" where
  "word_of_bytes bs = foldl (\<lambda>acc b. push_bit 8 acc OR ucast b) 0 bs"

definition bytes_of_word :: "w32 \<Rightarrow> bytes" where
  "bytes_of_word w =
     [ucast (drop_bit 24 w), ucast (drop_bit 16 w), ucast (drop_bit 8 w), ucast w]"

fun chunks :: "nat \<Rightarrow> 'a list \<Rightarrow> 'a list list" where
  "chunks 0 xs = []"
| "chunks (Suc n) xs = (if xs = [] then []
     else take (Suc n) xs # chunks (Suc n) (drop (Suc n) xs))"

definition be64 :: "nat \<Rightarrow> bytes" where
  "be64 n = map (\<lambda>i. ucast (drop_bit i (of_nat n :: 64 word))) [56, 48, 40, 32, 24, 16, 8, 0]"

definition sha_pad :: "bytes \<Rightarrow> bytes" where
  "sha_pad m = m @ [0x80] @ replicate ((119 - length m mod 64) mod 64) 0 @ be64 (8 * length m)"

definition sha_block :: "w32 list \<Rightarrow> bytes \<Rightarrow> w32 list" where
  "sha_block st blk =
     map2 (+) st (sha_rounds sha_k (map word_of_bytes (chunks 4 blk)) st)"

definition sha256 :: "bytes \<Rightarrow> bytes" where
  "sha256 m = concat (map bytes_of_word (foldl sha_block sha_init (chunks 64 (sha_pad m))))"

definition sha256_digest :: "bytes \<Rightarrow> string" where
  "sha256_digest m = ''sha256:'' @ hex_encode (sha256 m)"

subsection \<open>Shape of a digest\<close>

lemma length_sha_rounds: "length st = 8 \<Longrightarrow> length (sha_rounds ks w st) = 8"
  by (induction ks w st rule: sha_rounds.induct) (auto simp: sha_mix_def)

lemma length_sha_block: "length st = 8 \<Longrightarrow> length (sha_block st blk) = 8"
  by (simp add: sha_block_def length_sha_rounds)

lemma length_sha_fold: "length st = 8 \<Longrightarrow> length (foldl sha_block st bs) = 8"
  by (induction bs arbitrary: st) (auto simp: length_sha_block)

lemma length_sha256 [simp]: "length (sha256 m) = 32"
proof -
  have "length (concat (map bytes_of_word ws)) = 4 * length ws" for ws
    by (induction ws) (auto simp: bytes_of_word_def)
  moreover have "length (foldl sha_block sha_init bs) = 8" for bs
    by (rule length_sha_fold) (simp add: sha_init_def)
  ultimately show ?thesis by (simp add: sha256_def)
qed

text \<open>The digests that content can have: \<open>"sha256:"\<close> and 64 lower-case hex digits.\<close>

definition canonical_hex :: "string \<Rightarrow> bool" where
  "canonical_hex h \<longleftrightarrow> length h = 64 \<and> (\<forall>c \<in> set h. is_hex_lower c)"

definition canonical_digest :: "string \<Rightarrow> bool" where
  "canonical_digest d \<longleftrightarrow> HasPrefix d ''sha256:'' \<and> canonical_hex (drop 7 d)"

lemma canonical_hex_sha256 [simp]: "canonical_hex (hex_encode (sha256 m))"
  by (auto simp: canonical_hex_def hex_encode_is_hex)

lemma canonical_sha256_digest [simp]: "canonical_digest (sha256_digest m)"
proof -
  have "drop 7 (sha256_digest m) = hex_encode (sha256 m)"
    by (simp add: sha256_digest_def)
  moreover have "HasPrefix (sha256_digest m) ''sha256:''"
    unfolding sha256_digest_def by (rule HasPrefix_append)
  ultimately show ?thesis by (simp add: canonical_digest_def)
qed

lemma canonical_digestE:
  assumes "canonical_digest d"
  obtains h where "d = ''sha256:'' @ h" and "canonical_hex h"
proof -
  from assms obtain h where h: "d = ''sha256:'' @ h"
    unfolding canonical_digest_def HasPrefix_iff by blast
  with assms have "canonical_hex h" by (simp add: canonical_digest_def)
  with h show ?thesis by (rule that)
qed

lemma canonical_digest_append [simp]: "canonical_digest (''sha256:'' @ h) \<longleftrightarrow> canonical_hex h"
  by (simp add: canonical_digest_def HasPrefix_def)

lemma canonical_hex_chars:
  "canonical_hex h \<Longrightarrow> CHR ''/'' \<notin> set h \<and> CHR ''.'' \<notin> set h \<and> CHR '':'' \<notin> set h"
  using hex_no_special by (auto simp: canonical_hex_def)

end
