(* ===== verification/GoSys.thy ===== *)
theory GoSys
  imports GoOs
begin

text \<open>
  The system calls of \<open>os\<close> and \<open>io\<close> over the tree of theory GoOs, and what each of
  them leaves alone: every call keeps the tree well-formed (\<open>wf_fs\<close>) and touches only the
  path it is given.
\<close>

subsection \<open>Reading\<close>

definition os_Stat :: "env \<Rightarrow> fs \<Rightarrow> path \<Rightarrow> errno + node" where
  "os_Stat e t p = (if sys_fault e (SysStat p) then Err EIO else lookup t p)"

text \<open>Opening succeeds on a directory too; only reading from it fails.\<close>

definition os_Open :: "env \<Rightarrow> fs \<Rightarrow> path \<Rightarrow> errno + reader" where
  "os_Open e t p =
     (if sys_fault e (SysOpen p) then Err EIO
      else case lookup t p of
        Err er \<Rightarrow> Err er
      | Ok Dir \<Rightarrow> Ok \<lparr>rdata = [], rfail = True\<rparr>
      | Ok (File b) \<Rightarrow> (let bad = sys_fault e (SysRead p)
                         in Ok \<lparr>rdata = (if bad then take (short_io e p) b else b), rfail = bad\<rparr>))"

text \<open>The calls that open a file themselves name the step that failed, as the error they
  return does. (The path in an error text is the one the call was given.)\<close>

definition os_ReadFile :: "env \<Rightarrow> fs \<Rightarrow> path \<Rightarrow> string \<times> errno + bytes" where
  "os_ReadFile e t p =
     (if sys_fault e (SysOpen p) then Err (''open'', EIO)
      else case lookup t p of
        Err er \<Rightarrow> Err (''open'', er)
      | Ok Dir \<Rightarrow> Err (''read'', EISDIR)
      | Ok (File b) \<Rightarrow> if sys_fault e (SysRead p) then Err (''read'', EIO) else Ok b)"

definition os_ReadDir :: "env \<Rightarrow> fs \<Rightarrow> path \<Rightarrow> errno + (string \<times> node) list" where
  "os_ReadDir e t p =
     (if sys_fault e (SysReadDir p) then Err EIO
      else case lookup t p of
        Err er \<Rightarrow> Err er
      | Ok (File _) \<Rightarrow> Err ENOTDIR
      | Ok Dir \<Rightarrow> Ok (map (\<lambda>c. (c, the (fs_get t (p @ [c])))) (child_names t p)))"

subsection \<open>Creating, writing, moving, removing\<close>

definition mkdirs :: "fs \<Rightarrow> path list \<Rightarrow> fs" where
  "mkdirs = foldl (\<lambda>t q. if fs_get t q = None then fs_set q Dir t else t)"

definition is_file :: "node option \<Rightarrow> bool" where
  "is_file n \<longleftrightarrow> (case n of Some (File _) \<Rightarrow> True | _ \<Rightarrow> False)"

definition os_MkdirAll :: "env \<Rightarrow> fs \<Rightarrow> path \<Rightarrow> errno + fs" where
  "os_MkdirAll e t p =
     (if sys_fault e (SysMkdirAll p) then Err EIO
      else if \<exists>q \<in> set (ancestors p @ [p]). is_file (fs_get t q) then Err ENOTDIR
      else Ok (mkdirs t (ancestors p @ [p])))"

definition os_Create :: "env \<Rightarrow> fs \<Rightarrow> path \<Rightarrow> errno + fs" where
  "os_Create e t p =
     (if sys_fault e (SysCreate p) then Err EIO
      else case walk_err t p of
        Some er \<Rightarrow> Err er
      | None \<Rightarrow> if fs_get t p = Some Dir then Err EISDIR else Ok (fs_set p (File []) t))"

text \<open>\<open>os.OpenFile(p, os.O_WRONLY, _)\<close>: the file must exist.\<close>

definition os_OpenFile_W :: "env \<Rightarrow> fs \<Rightarrow> path \<Rightarrow> errno + bytes" where
  "os_OpenFile_W e t p =
     (if sys_fault e (SysOpenFile p) then Err EIO
      else case lookup t p of
        Err er \<Rightarrow> Err er
      | Ok Dir \<Rightarrow> Err EISDIR
      | Ok (File b) \<Rightarrow> Ok b)"

text \<open>Writing a non-empty piece at an offset pads a gap with zeros and keeps what lies after
  the piece.\<close>

definition write_at :: "bytes \<Rightarrow> nat \<Rightarrow> bytes \<Rightarrow> bytes" where
  "write_at old off d =
     (if d = [] then old
      else take off (old @ replicate (off - length old) 0) @ d @ drop (off + length d) old)"

definition file_at :: "fs \<Rightarrow> path \<Rightarrow> bytes" where
  "file_at t p = (case fs_get t p of Some (File b) \<Rightarrow> b | _ \<Rightarrow> [])"

text \<open>\<open>io.Copy\<close> from a reader into the open file \<open>p\<close> at an offset: the number of bytes
  written, whether it ended without an error, and the new tree.\<close>

definition io_Copy :: "env \<Rightarrow> fs \<Rightarrow> path \<Rightarrow> nat \<Rightarrow> reader \<Rightarrow> nat \<times> bool \<times> fs" where
  "io_Copy e t p off r =
     (let wfail = sys_fault e (SysWrite p) \<and> rdata r \<noteq> [];
          d = (if wfail then take (short_io e p) (rdata r) else rdata r)
      in (length d, \<not> wfail \<and> \<not> rfail r,
          if d = [] then t else fs_set p (File (write_at (file_at t p) off d)) t))"

definition os_WriteFile :: "env \<Rightarrow> fs \<Rightarrow> path \<Rightarrow> bytes \<Rightarrow> (string \<times> errno + unit) \<times> fs" where
  "os_WriteFile e t p b =
     (case os_Create e t p of
        Err er \<Rightarrow> (Err (''open'', er), t)
      | Ok t1 \<Rightarrow>
          (case io_Copy e t1 p 0 (bytes_reader b) of (_, ok, t2) \<Rightarrow>
             (if ok then Ok () else Err (''write'', EIO), t2)))"

definition os_Remove :: "env \<Rightarrow> fs \<Rightarrow> path \<Rightarrow> errno + fs" where
  "os_Remove e t p =
     (if sys_fault e (SysRemove p) then Err EIO
      else case lookup t p of
        Err er \<Rightarrow> Err er
      | Ok (File _) \<Rightarrow> Ok (fs_del p t)
      | Ok Dir \<Rightarrow> if p = [] \<or> child_names t p \<noteq> [] then Err ENOTEMPTY else Ok (fs_del p t))"

text \<open>The store renames only regular files it has just written, so a directory as the source
  is refused here.\<close>

definition os_Rename :: "env \<Rightarrow> fs \<Rightarrow> path \<Rightarrow> path \<Rightarrow> errno + fs" where
  "os_Rename e t a b =
     (if sys_fault e (SysRename a b) then Err EIO
      else case lookup t a of
        Err er \<Rightarrow> Err er
      | Ok Dir \<Rightarrow> Err EINVAL
      | Ok (File c) \<Rightarrow>
          (case walk_err t b of
             Some er \<Rightarrow> Err er
           | None \<Rightarrow> if fs_get t b = Some Dir then Err EEXIST
                     else if a = b then Ok t
                     else Ok (fs_set b (File c) (fs_del a t))))"

subsection \<open>Frames\<close>

definition same_except :: "path set \<Rightarrow> fs \<Rightarrow> fs \<Rightarrow> bool" where
  "same_except A t t' \<longleftrightarrow> (\<forall>q. q \<notin> A \<longrightarrow> fs_get t' q = fs_get t q)"

text \<open>\<open>grows t t'\<close>: \<open>t'\<close> keeps every node of \<open>t\<close> and adds only directories.\<close>

definition grows :: "fs \<Rightarrow> fs \<Rightarrow> bool" where
  "grows t t' \<longleftrightarrow> (\<forall>q. fs_get t' q = fs_get t q \<or> (fs_get t q = None \<and> fs_get t' q = Some Dir))"

lemma grows_refl [simp]: "grows t t"
  by (simp add: grows_def)

lemma grows_trans [trans]: "grows t u \<Longrightarrow> grows u v \<Longrightarrow> grows t v"
  unfolding grows_def by (metis option.distinct(1))

lemma grows_file: "grows t t' \<Longrightarrow> fs_get t' q = Some (File b) \<longleftrightarrow> fs_get t q = Some (File b)"
  unfolding grows_def by (metis node.distinct(1) option.inject option.distinct(1))

lemma grows_Some: "grows t t' \<Longrightarrow> fs_get t q = Some n \<Longrightarrow> fs_get t' q = Some n"
  unfolding grows_def by (metis option.distinct(1))

lemma mkdirs_grows: "grows t (mkdirs t qs)"
proof (induction qs arbitrary: t)
  case Nil
  then show ?case by (simp add: mkdirs_def)
next
  case (Cons q qs)
  have "grows t (if fs_get t q = None then fs_set q Dir t else t)"
    by (auto simp: grows_def) (metis fs_get_root fs_get_set option.distinct(1))+
  also have "grows \<dots> (mkdirs t (q # qs))"
    using Cons by (simp add: mkdirs_def)
  finally show ?case .
qed

lemma os_MkdirAll_grows: "os_MkdirAll e t p = Ok t' \<Longrightarrow> grows t t'"
  by (auto simp: os_MkdirAll_def mkdirs_grows split: if_splits)

lemma ancestors_snoc: "ancestors (p @ [c]) = ancestors p @ [p]"
  by (simp add: ancestors_def)

lemma ancestors_Nil [simp]: "ancestors [] = []"
  by (simp add: ancestors_def)

lemma mkdirs_append: "mkdirs t (as @ bs) = mkdirs (mkdirs t as) bs"
  by (simp add: mkdirs_def)

lemma mkdirs_wf:
  assumes "wf_fs t" and "\<forall>q \<in> set (ancestors p @ [p]). \<not> is_file (fs_get t q)"
  shows "wf_fs (mkdirs t (ancestors p @ [p])) \<and> fs_get (mkdirs t (ancestors p @ [p])) p = Some Dir"
  using assms(2)
proof (induction p rule: rev_induct)
  case Nil
  with assms(1) show ?case by (simp add: mkdirs_def)
next
  case (snoc c p)
  let ?u = "mkdirs t (ancestors p @ [p])"
  from snoc have IH: "wf_fs ?u" "fs_get ?u p = Some Dir"
    by (simp_all add: ancestors_snoc)
  have walk: "walk_err ?u (p @ [c]) = None"
    using wf_fs_walk [OF IH] IH(2)
    by (auto simp: walk_err_def ancestors_snoc first_bad_None)
  have "\<not> is_file (fs_get ?u (p @ [c]))"
    using snoc.prems mkdirs_grows [of t "ancestors p @ [p]"] grows_file
    by (fastforce simp: is_file_def ancestors_snoc split: option.splits node.splits)
  then have "fs_get ?u (p @ [c]) = None \<or> fs_get ?u (p @ [c]) = Some Dir"
    by (auto simp: is_file_def split: option.splits node.splits)
  moreover have "mkdirs t (ancestors (p @ [c]) @ [p @ [c]]) =
      (if fs_get ?u (p @ [c]) = None then fs_set (p @ [c]) Dir ?u else ?u)"
    by (simp only: ancestors_snoc mkdirs_append) (simp add: mkdirs_def)
  ultimately show ?case
    using IH wf_fs_set [OF IH(1) walk] by auto
qed

lemma os_MkdirAll_wf:
  assumes "os_MkdirAll e t p = Ok t'" and "wf_fs t"
  shows "wf_fs t'" and "fs_get t' p = Some Dir"
  using assms mkdirs_wf [of t p] by (auto simp: os_MkdirAll_def split: if_splits)

lemma os_MkdirAll_Ok:
  assumes "\<not> sys_fault e (SysMkdirAll p)" and "\<forall>q \<in> set (ancestors p @ [p]). \<not> is_file (fs_get t q)"
  shows "\<exists>t'. os_MkdirAll e t p = Ok t'"
  using assms by (auto simp: os_MkdirAll_def)

lemma os_Create_same: "os_Create e t p = Ok t' \<Longrightarrow> same_except {p} t t'"
  by (auto simp: os_Create_def same_except_def split: option.splits if_splits)

lemma os_Create_root: "os_Create e t [] = Ok t' \<Longrightarrow> False"
  by (auto simp: os_Create_def split: option.splits if_splits)

lemma os_Create_file: "os_Create e t p = Ok t' \<Longrightarrow> fs_get t' p = Some (File [])"
  by (cases "p = []")
    (auto simp: os_Create_def split: option.splits if_splits)

lemma os_Create_wf: "os_Create e t p = Ok t' \<Longrightarrow> wf_fs t \<Longrightarrow> wf_fs t'"
  by (auto simp: os_Create_def wf_fs_set split: option.splits if_splits)

lemma io_Copy_same: "io_Copy e t p off r = (n, ok, t') \<Longrightarrow> same_except {p} t t'"
  by (auto simp: io_Copy_def Let_def same_except_def split: if_splits)

lemma io_Copy_wf:
  assumes "io_Copy e t p off r = (n, ok, t')" and "wf_fs t" and "fs_get t p = Some (File b)"
  shows "wf_fs t'" and "\<exists>b'. fs_get t' p = Some (File b')"
proof -
  have "p \<noteq> []" using assms(3) by auto
  moreover have "walk_err t p = None" using assms(2,3) by (rule wf_fs_walk)
  ultimately show "wf_fs t'" and "\<exists>b'. fs_get t' p = Some (File b')"
    using assms by (auto simp: io_Copy_def Let_def wf_fs_set split: if_splits)
qed

lemma io_Copy_ok:
  assumes "io_Copy e t p off r = (n, True, t')" and "fs_get t p = Some (File b)"
  shows "n = length (rdata r)" and "\<not> rfail r"
    and "fs_get t' p = Some (File (write_at b off (rdata r)))"
proof -
  have "p \<noteq> []" using assms(2) by auto
  with assms show "n = length (rdata r)" and "\<not> rfail r"
    and "fs_get t' p = Some (File (write_at b off (rdata r)))"
    by (auto simp: io_Copy_def Let_def file_at_def write_at_def split: if_splits)
qed

text \<open>However it ends, a copy writes a prefix of what the reader delivers.\<close>

lemma io_Copy_prefix:
  assumes "io_Copy e t p off r = (n, ok, t')" and "fs_get t p = Some (File b)"
  shows "\<exists>k. fs_get t' p = Some (File (write_at b off (take k (rdata r))))"
proof -
  have "p \<noteq> []" using assms(2) by auto
  let ?k = "if sys_fault e (SysWrite p) \<and> rdata r \<noteq> [] then short_io e p else length (rdata r)"
  have "t' = (if take ?k (rdata r) = [] then t
      else fs_set p (File (write_at (file_at t p) off (take ?k (rdata r)))) t)"
    using assms(1) unfolding io_Copy_def Let_def
    by (auto split: if_splits)
  then have "fs_get t' p = Some (File (write_at b off (take ?k (rdata r))))"
    using assms(2) \<open>p \<noteq> []\<close> by (cases "take ?k (rdata r) = []") (simp_all add: file_at_def write_at_def)
  then show ?thesis by blast
qed

lemma write_at_0_Nil [simp]: "write_at [] 0 d = d"
  by (simp add: write_at_def)

lemma write_at_end: "write_at b (length b) d = b @ d"
  by (simp add: write_at_def)

lemma os_Remove_same: "os_Remove e t p = Ok t' \<Longrightarrow> same_except {p} t t'"
  by (auto simp: os_Remove_def same_except_def split: option.splits if_splits sum.splits node.splits)

lemma os_Remove_gone: "os_Remove e t p = Ok t' \<Longrightarrow> fs_get t' p = None"
  by (cases "p = []")
    (auto simp: os_Remove_def lookup_def fs_get_del
      split: option.splits if_splits sum.splits node.splits)

lemma wf_fs_del:
  assumes "wf_fs t" and "\<And>c. fs_get t (p @ [c]) = None"
  shows "wf_fs (fs_del p t)"
proof (cases "p = []")
  case True
  then have "fs_get (fs_del p t) q = fs_get t q" for q
    by (auto simp: fs_get_def fs_del_def delete_conv')
  with assms(1) show ?thesis by (simp add: wf_fs_def)
next
  case False
  show ?thesis
    unfolding wf_fs_def fs_get_del [OF False]
  proof (intro allI impI)
    fix q n
    assume q: "q \<noteq> []" "(if q = p then None else fs_get t q) = Some n"
    then have "fs_get t q = Some n" by (simp split: if_splits)
    moreover from this have "butlast q \<noteq> p"
      using assms(2) [of "last q"] q(1) by (metis append_butlast_last_id option.distinct(1))
    ultimately show "(if butlast q = p then None else fs_get t (butlast q)) = Some Dir"
      using assms(1) q(1) unfolding wf_fs_def by simp
  qed
qed

lemma wf_fs_file_leaf: "wf_fs t \<Longrightarrow> fs_get t p = Some (File b) \<Longrightarrow> fs_get t (p @ [c]) = None"
  unfolding wf_fs_def
  by (metis butlast_snoc node.distinct(1) option.inject not_Some_eq snoc_eq_iff_butlast)

lemma os_Remove_wf: "os_Remove e t p = Ok t' \<Longrightarrow> wf_fs t \<Longrightarrow> wf_fs t'"
  using set_child_names [of t p]
  by (auto simp: os_Remove_def lookup_Ok_iff wf_fs_del wf_fs_file_leaf
      split: option.splits if_splits sum.splits node.splits intro!: wf_fs_del)

lemma os_Rename_same: "os_Rename e t a b = Ok t' \<Longrightarrow> same_except {a, b} t t'"
  by (auto simp: os_Rename_def same_except_def split: option.splits if_splits sum.splits node.splits)

lemma os_Rename_moves:
  assumes "os_Rename e t a b = Ok t'" and "fs_get t a = Some (File c)" and "a \<noteq> b"
  shows "fs_get t' b = Some (File c)" and "fs_get t' a = None"
proof -
  have "a \<noteq> []" using assms(2) by auto
  moreover have "b \<noteq> []"
    using assms(1) by (auto simp: os_Rename_def split: option.splits if_splits sum.splits node.splits)
  ultimately show "fs_get t' b = Some (File c)" and "fs_get t' a = None"
    using assms
    by (auto simp: os_Rename_def fs_get_del dest!: lookup_OkD
        split: option.splits if_splits sum.splits node.splits)
qed

lemma os_Rename_wf:
  assumes "os_Rename e t a b = Ok t'" and "wf_fs t"
  shows "wf_fs t'"
proof -
  from assms(1) obtain c where a: "lookup t a = Ok (File c)"
    and b: "walk_err t b = None" "fs_get t b \<noteq> Some Dir"
    and t': "t' = t \<or> t' = fs_set b (File c) (fs_del a t)"
    by (auto simp: os_Rename_def split: option.splits if_splits sum.splits node.splits)
  from a have ga: "fs_get t a = Some (File c)" by (rule lookup_OkD)
  then have na: "a \<noteq> []" by auto
  have "wf_fs (fs_del a t)"
    using wf_fs_file_leaf [OF assms(2) ga] by (rule wf_fs_del [OF assms(2)])
  moreover have "walk_err (fs_del a t) b = None"
    using b(1) ga na by (auto simp: walk_err_None fs_get_del)
  moreover have "fs_get (fs_del a t) b \<noteq> Some Dir"
    using b(2) na by (simp add: fs_get_del)
  ultimately have "wf_fs (fs_set b (File c) (fs_del a t))"
    by (simp add: wf_fs_set)
  with t' assms(2) show ?thesis by auto
qed

end
