(* ===== verification/Storage.thy ===== *)
theory Storage
  imports Types Sha256 GoSys
begin

text \<open>
  The storage interface of \<open>internal/storage\<close>: its errors, the operations of
  \<open>storage.Store\<close> as a record of functions (the method table behind the Go interface), and
  the contracts a client of the interface may rely on, as locales. The filesystem store, the
  metrics wrapper and the distributed store interpret them.
\<close>

subsection \<open>Errors\<close>

text \<open>The sentinel errors are compared by identity; \<open>fmt.Errorf\<close> makes a fresh value, with
  \<open>%w\<close> one that wraps its cause. A run-time panic of a method is an error value of its own, so
  that no theorem about a normal return speaks of it.\<close>

datatype error =
    ErrBlobNotFound
  | ErrManifestNotFound
  | ErrUploadNotFound
  | ErrInvalidDigest
  | ErrDigestMismatch
  | ErrInvalidReference
  | Errorf string
  | Wrap string error
  | PathError string path errno
  | LinkError path path errno
  | ReadError
  | JsonError
  | StatusError string
  | NumError string
  | RuntimePanic string

fun errno_text :: "errno \<Rightarrow> string" where
  "errno_text ENOENT = ''no such file or directory''"
| "errno_text ENOTDIR = ''not a directory''"
| "errno_text EISDIR = ''is a directory''"
| "errno_text ENOTEMPTY = ''directory not empty''"
| "errno_text EEXIST = ''file exists''"
| "errno_text EINVAL = ''invalid argument''"
| "errno_text EIO = ''input/output error''"

text \<open>\<open>err.Error()\<close>.\<close>

fun Error :: "error \<Rightarrow> string" where
  "Error ErrBlobNotFound = ''blob not found''"
| "Error ErrManifestNotFound = ''manifest not found''"
| "Error ErrUploadNotFound = ''upload not found''"
| "Error ErrInvalidDigest = ''invalid digest''"
| "Error ErrDigestMismatch = ''digest mismatch''"
| "Error ErrInvalidReference = ''invalid reference''"
| "Error (Errorf s) = s"
| "Error (Wrap s e) = s @ '': '' @ Error e"
| "Error (PathError op p er) = op @ '' '' @ path_string p @ '': '' @ errno_text er"
| "Error (LinkError a b er) =
     ''rename '' @ path_string a @ '' '' @ path_string b @ '': '' @ errno_text er"
| "Error ReadError = ''unexpected EOF''"
| "Error JsonError = ''invalid JSON''"
| "Error (StatusError s) = s"
| "Error (NumError s) = ''strconv.ParseInt: parsing '' @ s"
| "Error (RuntimePanic s) = s"

subsection \<open>The interface\<close>

text \<open>One field per method of \<open>storage.Store\<close>; every method takes the state of the store and
  returns its result and the new state.\<close>

record 's store_ops =
  op_GetBlob :: "string \<Rightarrow> 's \<Rightarrow> (error + reader) \<times> 's"
  op_PutBlob :: "string \<Rightarrow> reader \<Rightarrow> 's \<Rightarrow> (error + unit) \<times> 's"
  op_BlobExists :: "string \<Rightarrow> 's \<Rightarrow> (error + bool) \<times> 's"
  op_DeleteBlob :: "string \<Rightarrow> 's \<Rightarrow> (error + unit) \<times> 's"
  op_GetBlobSize :: "string \<Rightarrow> 's \<Rightarrow> (error + int) \<times> 's"
  op_GetManifest :: "string \<Rightarrow> string \<Rightarrow> 's \<Rightarrow> (error + Manifest) \<times> 's"
  op_PutManifest :: "string \<Rightarrow> string \<Rightarrow> Manifest \<Rightarrow> 's \<Rightarrow> (error + unit) \<times> 's"
  op_DeleteManifest :: "string \<Rightarrow> string \<Rightarrow> 's \<Rightarrow> (error + unit) \<times> 's"
  op_ListTags :: "string \<Rightarrow> 's \<Rightarrow> (error + string list option) \<times> 's"
  op_ManifestExists :: "string \<Rightarrow> string \<Rightarrow> 's \<Rightarrow> (error + bool) \<times> 's"
  op_GetReferrers :: "string \<Rightarrow> string \<Rightarrow> 's \<Rightarrow> (error + Descriptor list option) \<times> 's"
  op_CreateUpload :: "string \<Rightarrow> 's \<Rightarrow> (error + Upload) \<times> 's"
  op_GetUpload :: "string \<Rightarrow> 's \<Rightarrow> (error + Upload) \<times> 's"
  op_WriteUploadChunk :: "string \<Rightarrow> int \<Rightarrow> reader \<Rightarrow> 's \<Rightarrow> (error + unit) \<times> 's"
  op_CompleteUpload :: "string \<Rightarrow> string \<Rightarrow> 's \<Rightarrow> (error + unit) \<times> 's"
  op_CancelUpload :: "string \<Rightarrow> 's \<Rightarrow> (error + unit) \<times> 's"
  op_GetUploadStatus :: "string \<Rightarrow> 's \<Rightarrow> (error + int) \<times> 's"

subsection \<open>The blob contract\<close>

text \<open>
  \<open>blobs s\<close> is the abstract content of the store: a partial map from digests to bytes.
  Whatever the store serves under a digest hashes to it; a successful put adds exactly the
  bytes of the reader, a failed one changes nothing; a reader that ends without an error has
  delivered the whole blob. Reading may add blobs (a store that caches), never change one.
\<close>

lemma map_leD: "m \<subseteq>\<^sub>m m' \<Longrightarrow> m x = Some y \<Longrightarrow> m' x = Some y"
  by (metis map_le_def domI)

locale blob_store =
  fixes ops :: "'s store_ops"
    and inv :: "'s \<Rightarrow> bool"
    and blobs :: "'s \<Rightarrow> string \<Rightarrow> bytes option"
  assumes blobs_digest: "inv s \<Longrightarrow> blobs s d = Some b \<Longrightarrow> sha256_digest b = d"
    and get_inv: "inv s \<Longrightarrow> op_GetBlob ops d s = (rg, s') \<Longrightarrow> inv s' \<and> blobs s \<subseteq>\<^sub>m blobs s'"
    and get_Ok: "inv s \<Longrightarrow> canonical_digest d \<Longrightarrow> op_GetBlob ops d s = (Ok rd, s') \<Longrightarrow>
      \<not> rfail rd \<Longrightarrow> blobs s' d = Some (rdata rd)"
    and get_unknown: "inv s \<Longrightarrow> canonical_digest d \<Longrightarrow>
      op_GetBlob ops d s = (Err ErrBlobNotFound, s') \<Longrightarrow> blobs s' d = None"
    and put_inv: "inv s \<Longrightarrow> op_PutBlob ops d rd s = (r, s') \<Longrightarrow> inv s'"
    and put_Ok: "inv s \<Longrightarrow> op_PutBlob ops d rd s = (Ok u, s') \<Longrightarrow>
      sha256_digest (rdata rd) = d \<and> blobs s' = (blobs s)(d \<mapsto> rdata rd)"
    and put_Err: "inv s \<Longrightarrow> op_PutBlob ops d rd s = (Err er, s') \<Longrightarrow> blobs s' = blobs s"
    and exists_inv: "inv s \<Longrightarrow> op_BlobExists ops d s = (rx, s') \<Longrightarrow> inv s' \<and> blobs s \<subseteq>\<^sub>m blobs s'"
    and exists_False: "inv s \<Longrightarrow> canonical_digest d \<Longrightarrow> op_BlobExists ops d s = (Ok False, s') \<Longrightarrow>
      blobs s d = None"
    and size_inv: "inv s \<Longrightarrow> op_GetBlobSize ops d s = (rz, s') \<Longrightarrow> inv s' \<and> blobs s' = blobs s"
    and size_Ok: "inv s \<Longrightarrow> canonical_digest d \<Longrightarrow> op_GetBlobSize ops d s = (Ok n, s') \<Longrightarrow>
      blobs s d = Some b \<Longrightarrow> n = int (length b)"
    and delete_inv: "inv s \<Longrightarrow> canonical_digest d \<Longrightarrow> op_DeleteBlob ops d s = (r, s') \<Longrightarrow> inv s'"
    and delete_Ok: "inv s \<Longrightarrow> canonical_digest d \<Longrightarrow> op_DeleteBlob ops d s = (Ok u, s') \<Longrightarrow>
      blobs s' = (blobs s)(d := None)"
    and delete_Err: "inv s \<Longrightarrow> canonical_digest d \<Longrightarrow> op_DeleteBlob ops d s = (Err er, s') \<Longrightarrow>
      blobs s' = blobs s"
begin

lemma blobs_mono: "blobs s \<subseteq>\<^sub>m blobs s' \<Longrightarrow> blobs s d = Some b \<Longrightarrow> blobs s' d = Some b"
  by (rule map_leD)

lemma get_after_put:
  assumes "inv s" and "op_PutBlob ops d rd s = (Ok u, s1)"
    and "op_GetBlob ops d s1 = (Ok rd', s2)" and "\<not> rfail rd'"
  shows "rdata rd' = rdata rd"
proof -
  have i1: "inv s1" using put_inv [OF assms(1,2)] .
  have d: "sha256_digest (rdata rd) = d" and b1: "blobs s1 d = Some (rdata rd)"
    using put_Ok [OF assms(1,2)] by auto
  have "canonical_digest d" using canonical_sha256_digest [of "rdata rd"] d by simp
  then have "blobs s2 d = Some (rdata rd')"
    using get_Ok [OF i1 _ assms(3,4)] by simp
  moreover have "blobs s2 d = Some (rdata rd)"
    using get_inv [OF i1 assms(3)] b1 by (auto simp: map_le_def dom_def)
  ultimately show ?thesis by simp
qed

lemma served_bytes_hash:
  assumes "inv s" and "canonical_digest d" and "op_GetBlob ops d s = (Ok rd, s')"
    and "\<not> rfail rd"
  shows "sha256_digest (rdata rd) = d"
  using blobs_digest get_Ok [OF assms] get_inv [OF assms(1,3)] by blast

lemma put_other:
  assumes "inv s" and "op_PutBlob ops d rd s = (r, s')" and "d' \<noteq> d"
  shows "blobs s' d' = blobs s d'"
  using assms put_Ok [of s d rd _ s'] put_Err [of s d rd _ s'] by (cases r) auto

lemma put_keeps_content:
  assumes "inv s" and "op_PutBlob ops d rd s = (r, s')" and "blobs s d' = Some b"
  shows "\<exists>b'. blobs s' d' = Some b' \<and> sha256_digest b' = d'"
proof (cases "d' = d \<and> isOk r")
  case True
  then obtain u where "r = Ok u" by (auto simp: isOk_iff)
  with assms True show ?thesis using put_Ok [of s d rd u s'] by auto
next
  case False
  then have "blobs s' d' = blobs s d'"
    using assms put_other [OF assms(1,2)] put_Err [of s d rd _ s'] by (auto simp: not_isOk_iff)
  with assms show ?thesis using blobs_digest [of s d' b] by auto
qed

end

subsection \<open>The upload contract\<close>

text \<open>
  \<open>sess s i\<close> is the abstract upload session: the offset the store reports and the bytes
  received so far. A failed chunk leaves the offset but may leave bytes behind; completing
  moves the received bytes into the blobs exactly when they hash to the digest given.
\<close>

locale upload_store = blob_store ops inv blobs
  for ops :: "'s store_ops" and inv blobs +
  fixes sess :: "'s \<Rightarrow> string \<Rightarrow> (int \<times> bytes) option"
  assumes put_sess: "inv s \<Longrightarrow> op_PutBlob ops d rd s = (r, s') \<Longrightarrow> sess s' = sess s"
    and create_inv: "inv s \<Longrightarrow> op_CreateUpload ops repo s = (rc, s') \<Longrightarrow> inv s' \<and> blobs s' = blobs s"
    and create_Ok: "inv s \<Longrightarrow> op_CreateUpload ops repo s = (Ok up, s') \<Longrightarrow>
      sess s' = (sess s)(u_ID up \<mapsto> (0, []))"
    and status_eq: "inv s \<Longrightarrow> op_GetUploadStatus ops i s =
      (case sess s i of None \<Rightarrow> Err ErrUploadNotFound | Some (off, _) \<Rightarrow> Ok off, s)"
    and getu_inv: "inv s \<Longrightarrow> op_GetUpload ops i s = (ru, s') \<Longrightarrow>
      inv s' \<and> blobs s' = blobs s \<and> sess s' = sess s"
    and getu_none: "inv s \<Longrightarrow> sess s i = None \<Longrightarrow> op_GetUpload ops i s = (Err ErrUploadNotFound, s)"
    and write_none: "inv s \<Longrightarrow> sess s i = None \<Longrightarrow>
      op_WriteUploadChunk ops i off rd s = (Err ErrUploadNotFound, s)"
    and write_inv: "inv s \<Longrightarrow> op_WriteUploadChunk ops i off rd s = (r, s') \<Longrightarrow>
      inv s' \<and> blobs s' = blobs s"
    and write_Ok: "inv s \<Longrightarrow> sess s i = Some (n, c) \<Longrightarrow>
      op_WriteUploadChunk ops i off rd s = (Ok u, s') \<Longrightarrow>
      0 \<le> off \<and> \<not> rfail rd \<and>
      sess s' = (sess s)(i \<mapsto> (int64 (off + int (length (rdata rd))), write_at c (nat off) (rdata rd)))"
    and write_Err: "inv s \<Longrightarrow> sess s i = Some (n, c) \<Longrightarrow>
      op_WriteUploadChunk ops i off rd s = (Err er, s') \<Longrightarrow>
      er \<noteq> ErrUploadNotFound \<and> (\<exists>c'. sess s' = (sess s)(i \<mapsto> (n, c')))"
    and complete_none: "inv s \<Longrightarrow> sess s i = None \<Longrightarrow>
      op_CompleteUpload ops i d s = (Err ErrUploadNotFound, s)"
    and complete_inv: "inv s \<Longrightarrow> op_CompleteUpload ops i d s = (r, s') \<Longrightarrow> inv s'"
    and complete_Ok: "inv s \<Longrightarrow> sess s i = Some (n, c) \<Longrightarrow> op_CompleteUpload ops i d s = (Ok u, s') \<Longrightarrow>
      sha256_digest c = d \<and> sess s' = (sess s)(i := None) \<and> blobs s' = (blobs s)(d \<mapsto> c)"
    and complete_Err: "inv s \<Longrightarrow> sess s i = Some (n, c) \<Longrightarrow>
      op_CompleteUpload ops i d s = (Err er, s') \<Longrightarrow>
      er \<noteq> ErrUploadNotFound \<and> sess s' = sess s \<and> blobs s' = blobs s"
    and cancel_none: "inv s \<Longrightarrow> sess s i = None \<Longrightarrow>
      op_CancelUpload ops i s = (Err ErrUploadNotFound, s)"
    and cancel_some: "inv s \<Longrightarrow> sess s i = Some x \<Longrightarrow> op_CancelUpload ops i s = (r, s') \<Longrightarrow>
      r = Ok () \<and> inv s' \<and> sess s' = (sess s)(i := None) \<and> blobs s' = blobs s"
begin

lemma status_None: "inv s \<Longrightarrow> sess s i = None \<Longrightarrow>
    op_GetUploadStatus ops i s = (Err ErrUploadNotFound, s)"
  by (simp add: status_eq)

lemma status_Some: "inv s \<Longrightarrow> sess s i = Some (n, c) \<Longrightarrow> op_GetUploadStatus ops i s = (Ok n, s)"
  by (simp add: status_eq)

text \<open>A chunk written where the session stands appends its bytes.\<close>

lemma write_append:
  assumes "inv s" and "sess s i = Some (int (length c), c)"
    and "op_WriteUploadChunk ops i (int (length c)) rd s = (Ok u, s')"
    and "in_int64 (int (length (c @ rdata rd)))"
  shows "sess s' i = Some (int (length (c @ rdata rd)), c @ rdata rd)"
  using write_Ok [OF assms(1-3)] assms(4) by (simp add: write_at_end)

end

end
