(* ===== verification/Config.thy ===== *)
theory Config
  imports GoTime GoText Storage
begin

text \<open>
  \<open>internal/config/config.go\<close>: the configuration of the registry, its defaults, its validation and
  the environment variables that override it. Durations are nanoseconds.
\<close>

subsection \<open>The configuration\<close>

record ServerConfig =
  sv_Address :: string
  sv_Port :: int
  sv_ReadTimeout :: int
  sv_WriteTimeout :: int
  sv_IdleTimeout :: int

record StorageConfig =
  sc_Type :: string
  sc_Path :: string

record LoggingConfig =
  lg_Level :: string
  lg_Format :: string

record BasicAuthConfig =
  ba_Username :: string
  ba_Password :: string

record MetricsConfig =
  mc_Enabled :: bool
  mc_Endpoint :: string
  mc_BasicAuth :: "BasicAuthConfig option"

record DiscoveryConfig =
  dy_Method :: string
  dy_Interval :: int
  dy_Timeout :: int
  dy_ConsulAddress :: string
  dy_DNSName :: string

record ReplicationConfig =
  rp_Factor :: int
  rp_Strategy :: string
  rp_SyncInterval :: int
  rp_ConsistencyMode :: string

record HealthCheckConfig =
  hc_Interval :: int
  hc_Timeout :: int
  hc_FailureThreshold :: int
  hc_Workers :: int

record TransportConfig =
  tc_Protocol :: string
  tc_MaxConnections :: int
  tc_IdleTimeout :: int
  tc_MaxMessageSize :: int

record P2PConfig =
  p2_Enabled :: bool
  p2_NodeID :: string
  p2_Port :: int
  p2_BootstrapPeers :: "string list option"
  p2_Discovery :: DiscoveryConfig
  p2_Replication :: ReplicationConfig
  p2_HealthCheck :: HealthCheckConfig
  p2_Transport :: TransportConfig

record Config =
  c_Server :: ServerConfig
  c_Storage :: StorageConfig
  c_Logging :: LoggingConfig
  c_Metrics :: MetricsConfig
  c_P2P :: P2PConfig

definition Default :: Config where
  "Default =
     \<lparr>c_Server = \<lparr>sv_Address = ''localhost'', sv_Port = 5000, sv_ReadTimeout = 30 * Second,
        sv_WriteTimeout = 30 * Second, sv_IdleTimeout = 120 * Second\<rparr>,
      c_Storage = \<lparr>sc_Type = ''filesystem'', sc_Path = ''./data''\<rparr>,
      c_Logging = \<lparr>lg_Level = ''info'', lg_Format = ''json''\<rparr>,
      c_Metrics = \<lparr>mc_Enabled = True, mc_Endpoint = ''/metrics'', mc_BasicAuth = None\<rparr>,
      c_P2P = \<lparr>p2_Enabled = False, p2_NodeID = [], p2_Port = 6000, p2_BootstrapPeers = None,
        p2_Discovery = \<lparr>dy_Method = ''static'', dy_Interval = 30 * Second, dy_Timeout = 10 * Second,
          dy_ConsulAddress = [], dy_DNSName = []\<rparr>,
        p2_Replication = \<lparr>rp_Factor = 3, rp_Strategy = ''eager'', rp_SyncInterval = 60 * Second,
          rp_ConsistencyMode = ''eventual''\<rparr>,
        p2_HealthCheck = \<lparr>hc_Interval = 15 * Second, hc_Timeout = 5 * Second, hc_FailureThreshold = 3,
          hc_Workers = 10\<rparr>,
        p2_Transport = \<lparr>tc_Protocol = ''grpc'', tc_MaxConnections = 100, tc_IdleTimeout = 5 * Minute,
          tc_MaxMessageSize = 32 * 1024 * 1024\<rparr>\<rparr>\<rparr>"

definition GetServerAddress :: "Config \<Rightarrow> string" where
  "GetServerAddress c = sv_Address (c_Server c) @ '':'' @ Itoa (sv_Port (c_Server c))"

subsection \<open>Validation\<close>

text \<open>The node identity may be filled in with the host name; the first failing check ends it.\<close>

definition validateP2P :: "string \<Rightarrow> Config \<Rightarrow> (error + unit) \<times> Config" where
  "validateP2P hostname c =
     (let p = c_P2P c in
      if \<not> p2_Enabled p then (Ok (), c)
      else if p2_Port p < 1 \<or> 65535 < p2_Port p then
        (Err (Errorf (''invalid P2P port: '' @ Itoa (p2_Port p))), c)
      else
        (let c1 = (if p2_NodeID p = [] \<and> hostname \<noteq> [] then c\<lparr>c_P2P := p\<lparr>p2_NodeID := hostname\<rparr>\<rparr> else c);
             dy = p2_Discovery p; rp = p2_Replication p; hc = p2_HealthCheck p; tc = p2_Transport p in
         (if dy_Method dy \<notin> {''static'', ''dns'', ''consul'', ''mdns''} then
            Err (Errorf (''invalid discovery method: '' @ dy_Method dy))
          else if rp_Factor rp < 1 then
            Err (Errorf (''replication factor must be at least 1: '' @ Itoa (rp_Factor rp)))
          else if rp_Strategy rp \<notin> {''eager'', ''lazy'', ''hybrid''} then
            Err (Errorf (''invalid replication strategy: '' @ rp_Strategy rp))
          else if rp_ConsistencyMode rp \<notin> {''eventual'', ''strong''} then
            Err (Errorf (''invalid consistency mode: '' @ rp_ConsistencyMode rp))
          else if tc_Protocol tc \<notin> {''grpc'', ''http''} then
            Err (Errorf (''invalid transport protocol: '' @ tc_Protocol tc))
          else if dy_Interval dy \<le> 0 then Err (Errorf ''discovery interval must be positive'')
          else if dy_Timeout dy \<le> 0 then Err (Errorf ''discovery timeout must be positive'')
          else if hc_Interval hc \<le> 0 then Err (Errorf ''health check interval must be positive'')
          else if hc_Timeout hc \<le> 0 then Err (Errorf ''health check timeout must be positive'')
          else if hc_Workers hc < 1 then Err (Errorf ''health check workers must be at least 1'')
          else Ok (), c1)))"

definition Validate :: "string \<Rightarrow> Config \<Rightarrow> (error + unit) \<times> Config" where
  "Validate hostname c =
     (let sv = c_Server c; st = c_Storage c; lg = c_Logging c in
      if sv_Port sv < 1 \<or> 65535 < sv_Port sv then
        (Err (Errorf (''invalid server port: '' @ Itoa (sv_Port sv))), c)
      else if sv_ReadTimeout sv < 0 then
        (Err (Errorf (''invalid read timeout: '' @ Duration_String (sv_ReadTimeout sv))), c)
      else if sv_WriteTimeout sv < 0 then
        (Err (Errorf (''invalid write timeout: '' @ Duration_String (sv_WriteTimeout sv))), c)
      else if sc_Type st = [] then (Err (Errorf ''storage type cannot be empty''), c)
      else if sc_Type st = ''filesystem'' \<and> sc_Path st = [] then
        (Err (Errorf ''filesystem storage requires a path''), c)
      else if lg_Level lg \<notin> {''debug'', ''info'', ''warn'', ''error''} then
        (Err (Errorf (''invalid log level: '' @ lg_Level lg)), c)
      else if lg_Format lg \<notin> {''json'', ''text''} then
        (Err (Errorf (''invalid log format: '' @ lg_Format lg)), c)
      else
        (case validateP2P hostname c of
           (Err er, c') \<Rightarrow> (Err (Wrap ''invalid P2P configuration'' er), c')
         | (Ok _, c') \<Rightarrow> (Ok (), c')))"

subsection \<open>The environment\<close>

definition parsePort :: "string \<Rightarrow> error + int" where
  "parsePort s =
     (case Sscanf_int s of
        None \<Rightarrow> Err (NumError s)
      | Some p \<Rightarrow>
          if p < 1 \<or> 65535 < p then Err (Errorf (''port out of range: '' @ Itoa p)) else Ok p)"

definition parsePositiveInt :: "string \<Rightarrow> error + int" where
  "parsePositiveInt s =
     (case Sscanf_int s of
        None \<Rightarrow> Err (NumError s)
      | Some v \<Rightarrow> if v < 1 then Err (Errorf (''value must be positive: '' @ Itoa v)) else Ok v)"

text \<open>\<open>os.Getenv\<close> gives the empty string for a variable that is not set; \<open>override\<close> applies a
  variable that is set, and \<open>override_with\<close> one that also parses.\<close>

definition override :: "(string \<Rightarrow> string) \<Rightarrow> string \<Rightarrow> (string \<Rightarrow> 'c \<Rightarrow> 'c) \<Rightarrow> 'c \<Rightarrow> 'c" where
  "override getenv var upd c = (if getenv var \<noteq> [] then upd (getenv var) c else c)"

definition override_with :: "(string \<Rightarrow> error + 'v) \<Rightarrow> (string \<Rightarrow> string) \<Rightarrow> string \<Rightarrow> ('v \<Rightarrow> 'c \<Rightarrow> 'c) \<Rightarrow> 'c \<Rightarrow> 'c" where
  "override_with parse getenv var upd =
     override getenv var (\<lambda>s c. case parse s of Err _ \<Rightarrow> c | Ok v \<Rightarrow> upd v c)"

definition truth :: "string \<Rightarrow> bool" where
  "truth s \<longleftrightarrow> s = ''true'' \<or> s = ''1''"

definition basic_auth :: "MetricsConfig \<Rightarrow> BasicAuthConfig" where
  "basic_auth m = (case mc_BasicAuth m of None \<Rightarrow> \<lparr>ba_Username = [], ba_Password = []\<rparr> | Some a \<Rightarrow> a)"

definition server_env :: "(string \<Rightarrow> string) \<Rightarrow> ServerConfig \<Rightarrow> ServerConfig" where
  "server_env getenv sv =
     override_with parsePort getenv ''OCTOSERVE_SERVER_PORT'' (\<lambda>p. sv_Port_update (\<lambda>_. p))
       (override getenv ''OCTOSERVE_SERVER_ADDRESS'' (\<lambda>a. sv_Address_update (\<lambda>_. a)) sv)"

definition storage_env :: "(string \<Rightarrow> string) \<Rightarrow> StorageConfig \<Rightarrow> StorageConfig" where
  "storage_env getenv = override getenv ''OCTOSERVE_STORAGE_PATH'' (\<lambda>p. sc_Path_update (\<lambda>_. p))"

definition logging_env :: "(string \<Rightarrow> string) \<Rightarrow> LoggingConfig \<Rightarrow> LoggingConfig" where
  "logging_env getenv lg =
     override getenv ''OCTOSERVE_LOG_FORMAT'' (\<lambda>f. lg_Format_update (\<lambda>_. f))
       (override getenv ''OCTOSERVE_LOG_LEVEL'' (\<lambda>l. lg_Level_update (\<lambda>_. l)) lg)"

definition metrics_env :: "(string \<Rightarrow> string) \<Rightarrow> MetricsConfig \<Rightarrow> MetricsConfig" where
  "metrics_env getenv m =
     override getenv ''OCTOSERVE_METRICS_PASSWORD''
       (\<lambda>w m. m\<lparr>mc_BasicAuth := Some ((basic_auth m)\<lparr>ba_Password := w\<rparr>)\<rparr>)
       (override getenv ''OCTOSERVE_METRICS_USERNAME''
         (\<lambda>u m. m\<lparr>mc_BasicAuth := Some ((basic_auth m)\<lparr>ba_Username := u\<rparr>)\<rparr>)
         (override getenv ''OCTOSERVE_METRICS_ENDPOINT'' (\<lambda>e. mc_Endpoint_update (\<lambda>_. e))
           (override getenv ''OCTOSERVE_METRICS_ENABLED'' (\<lambda>b. mc_Enabled_update (\<lambda>_. truth b)) m)))"

definition p2p_env :: "(string \<Rightarrow> string) \<Rightarrow> P2PConfig \<Rightarrow> P2PConfig" where
  "p2p_env getenv p =
     override getenv ''OCTOSERVE_P2P_TRANSPORT_PROTOCOL''
       (\<lambda>x. p2_Transport_update (tc_Protocol_update (\<lambda>_. x)))
       (override_with parsePositiveInt getenv ''OCTOSERVE_P2P_REPLICATION_FACTOR''
         (\<lambda>f. p2_Replication_update (rp_Factor_update (\<lambda>_. f)))
         (override getenv ''OCTOSERVE_P2P_REPLICATION_STRATEGY''
           (\<lambda>x. p2_Replication_update (rp_Strategy_update (\<lambda>_. x)))
           (override getenv ''OCTOSERVE_P2P_DISCOVERY_METHOD''
             (\<lambda>x. p2_Discovery_update (dy_Method_update (\<lambda>_. x)))
             (override getenv ''OCTOSERVE_P2P_BOOTSTRAP_PEERS''
               (\<lambda>x. p2_BootstrapPeers_update (\<lambda>_. Some (map TrimSpace (Split CHR '','' x))))
               (override_with parsePort getenv ''OCTOSERVE_P2P_PORT'' (\<lambda>n. p2_Port_update (\<lambda>_. n))
                 (override getenv ''OCTOSERVE_P2P_NODE_ID'' (\<lambda>x. p2_NodeID_update (\<lambda>_. x))
                   (override getenv ''OCTOSERVE_P2P_ENABLED'' (\<lambda>x. p2_Enabled_update (\<lambda>_. truth x)) p)))))))"

definition LoadFromEnv :: "(string \<Rightarrow> string) \<Rightarrow> Config \<Rightarrow> Config" where
  "LoadFromEnv getenv c =
     c\<lparr>c_Server := server_env getenv (c_Server c), c_Storage := storage_env getenv (c_Storage c),
       c_Logging := logging_env getenv (c_Logging c), c_Metrics := metrics_env getenv (c_Metrics c),
       c_P2P := p2p_env getenv (c_P2P c)\<rparr>"

subsection \<open>What validation guarantees\<close>

definition p2p_ok :: "P2PConfig \<Rightarrow> bool" where
  "p2p_ok p \<longleftrightarrow> 1 \<le> p2_Port p \<and> p2_Port p \<le> 65535 \<and>
     dy_Method (p2_Discovery p) \<in> {''static'', ''dns'', ''consul'', ''mdns''} \<and>
     1 \<le> rp_Factor (p2_Replication p) \<and>
     rp_Strategy (p2_Replication p) \<in> {''eager'', ''lazy'', ''hybrid''} \<and>
     rp_ConsistencyMode (p2_Replication p) \<in> {''eventual'', ''strong''} \<and>
     tc_Protocol (p2_Transport p) \<in> {''grpc'', ''http''} \<and>
     0 < dy_Interval (p2_Discovery p) \<and> 0 < dy_Timeout (p2_Discovery p) \<and>
     0 < hc_Interval (p2_HealthCheck p) \<and> 0 < hc_Timeout (p2_HealthCheck p) \<and> 1 \<le> hc_Workers (p2_HealthCheck p)"

definition config_ok :: "Config \<Rightarrow> bool" where
  "config_ok c \<longleftrightarrow> 1 \<le> sv_Port (c_Server c) \<and> sv_Port (c_Server c) \<le> 65535 \<and>
     0 \<le> sv_ReadTimeout (c_Server c) \<and> 0 \<le> sv_WriteTimeout (c_Server c) \<and>
     sc_Type (c_Storage c) \<noteq> [] \<and> (sc_Type (c_Storage c) = ''filesystem'' \<longrightarrow> sc_Path (c_Storage c) \<noteq> []) \<and>
     lg_Level (c_Logging c) \<in> {''debug'', ''info'', ''warn'', ''error''} \<and>
     lg_Format (c_Logging c) \<in> {''json'', ''text''} \<and>
     (p2_Enabled (c_P2P c) \<longrightarrow> p2p_ok (c_P2P c))"

text \<open>The configuration after validation: only the node identity can differ.\<close>

definition named :: "string \<Rightarrow> Config \<Rightarrow> Config" where
  "named hostname c =
     (if p2_Enabled (c_P2P c) \<and> p2_NodeID (c_P2P c) = [] \<and> hostname \<noteq> []
      then c\<lparr>c_P2P := (c_P2P c)\<lparr>p2_NodeID := hostname\<rparr>\<rparr> else c)"

lemma named_ok [simp]: "config_ok (named hostname c) = config_ok c"
  by (simp add: named_def config_ok_def p2p_ok_def)

lemma validateP2P_iff:
  "fst (validateP2P hostname c) = Ok () \<longleftrightarrow> (p2_Enabled (c_P2P c) \<longrightarrow> p2p_ok (c_P2P c))"
  unfolding validateP2P_def Let_def p2p_ok_def by (simp add: not_less not_le)

lemma validateP2P_named:
  assumes "validateP2P hostname c = (Ok u, c')"
  shows "c' = named hostname c"
  using assms by (auto simp: validateP2P_def named_def Let_def split: if_splits)

lemma Validate_iff: "isOk (fst (Validate hostname c)) \<longleftrightarrow> config_ok c"
proof -
  have p2p: "isOk (fst (validateP2P hostname c)) \<longleftrightarrow> (p2_Enabled (c_P2P c) \<longrightarrow> p2p_ok (c_P2P c))"
    using validateP2P_iff [of hostname c] by (cases "fst (validateP2P hostname c)") auto
  obtain r c1 where run: "validateP2P hostname c = (r, c1)" by fastforce
  have "isOk (fst (Validate hostname c)) \<longleftrightarrow>
      1 \<le> sv_Port (c_Server c) \<and> sv_Port (c_Server c) \<le> 65535 \<and>
      0 \<le> sv_ReadTimeout (c_Server c) \<and> 0 \<le> sv_WriteTimeout (c_Server c) \<and>
      sc_Type (c_Storage c) \<noteq> [] \<and> (sc_Type (c_Storage c) = ''filesystem'' \<longrightarrow> sc_Path (c_Storage c) \<noteq> []) \<and>
      lg_Level (c_Logging c) \<in> {''debug'', ''info'', ''warn'', ''error''} \<and>
      lg_Format (c_Logging c) \<in> {''json'', ''text''} \<and> isOk r"
    unfolding Validate_def Let_def run by (cases r) (simp_all add: not_less)
  then show ?thesis using p2p run by (simp add: config_ok_def)
qed

lemma Validate_named:
  assumes "Validate hostname c = (Ok u, c')"
  shows "c' = named hostname c"
proof -
  obtain r c1 where run: "validateP2P hostname c = (r, c1)" by fastforce
  then have "isOk r \<Longrightarrow> c1 = named hostname c"
    using validateP2P_named [of hostname c _ c1] by (auto simp: isOk_iff)
  moreover have "isOk r \<and> c' = c1"
    using assms unfolding Validate_def Let_def run by (cases r) (simp_all split: if_splits)
  ultimately show ?thesis by simp
qed

text \<open>C15. What \<open>Validate\<close> accepts is exactly the well-formed configurations: ports in range, timeouts
  that are not negative, known levels, formats, methods, strategies and protocols, a path for the
  filesystem store and, where peers are enabled, positive intervals and at least one worker; the
  configuration it leaves is the one given, with the node identity filled in at most, and still
  well-formed. The defaults are.\<close>

theorem validate_exact:
  "(isOk (fst (Validate hostname c)) \<longleftrightarrow> config_ok c) \<and>
   (isOk (fst (Validate hostname c)) \<longrightarrow>
      snd (Validate hostname c) = named hostname c \<and> config_ok (snd (Validate hostname c))) \<and>
   config_ok Default"
proof -
  have "snd (Validate hostname c) = named hostname c" if "isOk (fst (Validate hostname c))"
    using that Validate_named [of hostname c] by (cases "Validate hostname c") (auto simp: isOk_iff)
  moreover have "config_ok Default" by (simp add: config_ok_def Default_def)
  ultimately show ?thesis using Validate_iff by simp
qed

theorem validate_exact_witness:
  "isOk (fst (Validate ''node-a'' (Default\<lparr>c_P2P := (c_P2P Default)\<lparr>p2_Enabled := True\<rparr>\<rparr>))) \<and>
   p2_NodeID (c_P2P (snd (Validate ''node-a'' (Default\<lparr>c_P2P := (c_P2P Default)\<lparr>p2_Enabled := True\<rparr>\<rparr>)))) = ''node-a''"
proof -
  let ?c = "Default\<lparr>c_P2P := (c_P2P Default)\<lparr>p2_Enabled := True\<rparr>\<rparr>"
  have "config_ok ?c" by (simp add: config_ok_def p2p_ok_def Default_def)
  then show ?thesis using validate_exact [of "''node-a''" ?c] by (simp add: named_def Default_def)
qed

subsection \<open>What the environment can do\<close>

lemma parsePort_range: "parsePort s = Ok p \<Longrightarrow> 1 \<le> p \<and> p \<le> 65535"
  by (auto simp: parsePort_def split: option.splits if_splits)

lemma parsePositiveInt_pos: "parsePositiveInt s = Ok p \<Longrightarrow> 1 \<le> p"
  by (auto simp: parsePositiveInt_def split: option.splits if_splits)

lemma override_cases: "override getenv var upd c = c \<or> override getenv var upd c = upd (getenv var) c"
  by (simp add: override_def)

lemma override_keeps: "(\<And>s c. P (upd s c) = P c) \<Longrightarrow> P (override getenv var upd c) = P c"
  by (simp add: override_def)

lemma override_with_keeps: "(\<And>v c. P (upd v c) = P c) \<Longrightarrow> P (override_with parse getenv var upd c) = P c"
  by (simp add: override_with_def override_def split: sum.split)

lemma override_with_Ok: "parse (getenv var) = Ok v \<Longrightarrow> getenv var \<noteq> [] \<Longrightarrow>
    override_with parse getenv var upd c = upd v c"
  by (simp add: override_with_def override_def)

lemma override_with_cases:
  "override_with parse getenv var upd c = c \<or>
   (\<exists>v. parse (getenv var) = Ok v \<and> override_with parse getenv var upd c = upd v c)"
  by (auto simp: override_with_def override_def split: sum.splits)

lemma server_env_port: "1 \<le> sv_Port sv \<and> sv_Port sv \<le> 65535 \<Longrightarrow>
    1 \<le> sv_Port (server_env getenv sv) \<and> sv_Port (server_env getenv sv) \<le> 65535"
  unfolding server_env_def
  using override_with_cases [of parsePort getenv "''OCTOSERVE_SERVER_PORT''" "\<lambda>p. sv_Port_update (\<lambda>_. p)"
      "override getenv ''OCTOSERVE_SERVER_ADDRESS'' (\<lambda>a. sv_Address_update (\<lambda>_. a)) sv"]
  by (auto simp: override_def dest: parsePort_range)

lemma p2p_env_keeps:
  "dy_Interval (p2_Discovery (p2p_env getenv p)) = dy_Interval (p2_Discovery p)"
  "p2_HealthCheck (p2p_env getenv p) = p2_HealthCheck p"
  by (simp_all add: p2p_env_def override_keeps [where P = "\<lambda>p. dy_Interval (p2_Discovery p)"]
      override_with_keeps [where P = "\<lambda>p. dy_Interval (p2_Discovery p)"]
      override_keeps [where P = p2_HealthCheck] override_with_keeps [where P = p2_HealthCheck])

text \<open>C32. Environment variables cannot take the server's port out of range, whatever they hold: after
  \<open>LoadFromEnv\<close> on a validated configuration the port is still between 1 and 65535, a port or factor
  variable that does not parse or is out of range is ignored, and the timeouts and the
  health-check and discovery intervals are those of the file.\<close>

theorem env_keeps_port:
  assumes "config_ok c"
  shows "1 \<le> sv_Port (c_Server (LoadFromEnv getenv c)) \<and> sv_Port (c_Server (LoadFromEnv getenv c)) \<le> 65535 \<and>
    dy_Interval (p2_Discovery (c_P2P (LoadFromEnv getenv c))) = dy_Interval (p2_Discovery (c_P2P c)) \<and>
    p2_HealthCheck (c_P2P (LoadFromEnv getenv c)) = p2_HealthCheck (c_P2P c)"
  using assms server_env_port [of "c_Server c" getenv]
  by (simp add: LoadFromEnv_def config_ok_def p2p_env_keeps)

definition env_of :: "(string \<times> string) list \<Rightarrow> string \<Rightarrow> string" where
  "env_of vars k = (case map_of vars k of None \<Rightarrow> [] | Some v \<Rightarrow> v)"

theorem env_keeps_port_witness:
  "sv_Port (c_Server (LoadFromEnv (env_of [(''OCTOSERVE_SERVER_PORT'', ''70000'')]) Default)) \<le> 65535 \<and>
   sv_Port (c_Server (LoadFromEnv (env_of [(''OCTOSERVE_SERVER_PORT'', ''70000'')]) Default)) = 5000"
proof -
  have "config_ok Default" by (simp add: config_ok_def Default_def)
  from env_keeps_port [OF this, of "env_of [(''OCTOSERVE_SERVER_PORT'', ''70000'')]"]
  have "sv_Port (c_Server (LoadFromEnv (env_of [(''OCTOSERVE_SERVER_PORT'', ''70000'')]) Default)) \<le> 65535" by simp
  moreover have "Sscanf_int ''70000'' = Some 70000"
    by (simp add: Sscanf_int_def number_token_def decode_rune_def rune_space_def is_space_def
      is_digit_def digit_val_def ParseInt_def parse_unsigned_def in_int64_def Let_def)
  then have "parsePort ''70000'' = Err (Errorf (''port out of range: '' @ Itoa 70000))"
    by (simp add: parsePort_def)
  then have "sv_Port (c_Server (LoadFromEnv (env_of [(''OCTOSERVE_SERVER_PORT'', ''70000'')]) Default)) = 5000"
    by (simp add: LoadFromEnv_def server_env_def override_with_def override_def env_of_def Default_def)
  ultimately show ?thesis by simp
qed

text \<open>The environment is applied after validation, and what it sets is not validated: a file with
  peers disabled may hold any intervals, and a variable enables them.\<close>

definition unchecked_file :: Config where
  "unchecked_file = Default\<lparr>c_P2P := (c_P2P Default)
     \<lparr>p2_Discovery := (p2_Discovery (c_P2P Default))\<lparr>dy_Interval := 0\<rparr>,
      p2_HealthCheck := (p2_HealthCheck (c_P2P Default))\<lparr>hc_Workers := 0\<rparr>\<rparr>\<rparr>"

definition enabling_env :: "string \<Rightarrow> string" where
  "enabling_env = env_of [(''OCTOSERVE_P2P_ENABLED'', ''true'')]"

lemma enabled_p2p:
  "c_P2P (LoadFromEnv enabling_env c) = (c_P2P c)\<lparr>p2_Enabled := True\<rparr>"
  by (simp add: LoadFromEnv_def p2p_env_def override_with_def override_def enabling_env_def env_of_def truth_def)

lemma env_after_validation:
  "isOk (fst (Validate hostname unchecked_file))"
  "\<not> config_ok (LoadFromEnv enabling_env unchecked_file)"
proof -
  have "config_ok unchecked_file" by (simp add: unchecked_file_def config_ok_def Default_def)
  then show "isOk (fst (Validate hostname unchecked_file))" by (simp add: Validate_iff)
  show "\<not> config_ok (LoadFromEnv enabling_env unchecked_file)"
    by (simp add: config_ok_def enabled_p2p p2p_ok_def) (simp add: unchecked_file_def)
qed

end
