(* ===== verification/FsStore.thy ===== *)
theory FsStore
  imports Storage
begin

text \<open>
  \<open>internal/storage/filesystem/store.go\<close>: blobs, manifests and uploads as files below a base
  directory. The state is the Go struct (base path, in-memory map of upload sessions) and the
  disk; every method of the store is one definition, in the order of the file, with the result
  and the new state. The context argument carries no behaviour here and is left out.
\<close>

record Store =
  s_basePath :: path
  s_uploads :: "string \<Rightarrow> Upload option"
  s_disk :: fs

definition New :: "env \<Rightarrow> path \<Rightarrow> fs \<Rightarrow> error + Store" where
  "New e base t =
     (let mk = (\<lambda>d r. case r of
          Err er \<Rightarrow> Err er
        | Ok t' \<Rightarrow> (case os_MkdirAll e t' (Join base [d]) of
            Err er \<Rightarrow> Err (Wrap (''failed to create directory '' @ path_string (Join base [d]))
                        (PathError ''mkdir'' (Join base [d]) er))
          | Ok t'' \<Rightarrow> Ok t''))
      in case mk ''uploads'' (mk ''manifests'' (mk ''blobs'' (Ok t))) of
           Err er \<Rightarrow> Err er
         | Ok t' \<Rightarrow> Ok \<lparr>s_basePath = base, s_uploads = (\<lambda>_. None), s_disk = t'\<rparr>)"

subsection \<open>Paths\<close>

definition blob_dirs :: "path \<Rightarrow> string \<Rightarrow> string \<Rightarrow> path" where
  "blob_dirs base algorithm hex =
     (if 4 \<le> length hex
      then Join base [''blobs'', algorithm, take 2 hex, take 2 (drop 2 hex), hex]
      else Join base [''blobs'', algorithm, hex])"

definition blobPath :: "env \<Rightarrow> Store \<Rightarrow> string \<Rightarrow> path" where
  "blobPath e s digestStr =
     (case digest_Parse e digestStr of
        None \<Rightarrow>
          (case SplitN2 CHR '':'' digestStr of
             [algorithm, hex] \<Rightarrow> blob_dirs (s_basePath s) algorithm hex
           | _ \<Rightarrow> Join (s_basePath s) [''blobs'', digestStr])
      | Some (algorithm, hex) \<Rightarrow> blob_dirs (s_basePath s) algorithm hex)"

definition clean_repo :: "string \<Rightarrow> string" where
  "clean_repo repo = ReplaceChar CHR ''/'' CHR ''_'' repo"

definition manifestPath :: "Store \<Rightarrow> string \<Rightarrow> string \<Rightarrow> path" where
  "manifestPath s repo reference =
     Join (s_basePath s) [''manifests'', clean_repo repo, reference]"

definition repoPath :: "Store \<Rightarrow> string \<Rightarrow> path" where
  "repoPath s repo = Join (s_basePath s) [''manifests'', clean_repo repo]"

definition uploadPath :: "Store \<Rightarrow> string \<Rightarrow> path" where
  "uploadPath s uploadID = Join (s_basePath s) [''uploads'', uploadID]"

subsection \<open>Blobs\<close>

definition GetBlob :: "env \<Rightarrow> string \<Rightarrow> Store \<Rightarrow> (error + reader) \<times> Store" where
  "GetBlob e d s =
     (case os_Open e (s_disk s) (blobPath e s d) of
        Err er \<Rightarrow>
          (Err (if er = ENOENT then ErrBlobNotFound
                else Wrap (''failed to open blob '' @ d) (PathError ''open'' (blobPath e s d) er)), s)
      | Ok rd \<Rightarrow> (Ok rd, s))"

text \<open>The deferred \<open>os.Remove(tempPath)\<close>, whose error is ignored.\<close>

definition remove_quietly :: "env \<Rightarrow> fs \<Rightarrow> path \<Rightarrow> fs" where
  "remove_quietly e t p = (case os_Remove e t p of Err _ \<Rightarrow> t | Ok t' \<Rightarrow> t')"

definition PutBlob :: "env \<Rightarrow> string \<Rightarrow> reader \<Rightarrow> Store \<Rightarrow> (error + unit) \<times> Store" where
  "PutBlob e d content s =
     (let path = blobPath e s d; tempPath = tmp_of path in
      case os_MkdirAll e (s_disk s) (filepath_Dir path) of
        Err er \<Rightarrow> (Err (Wrap ''failed to create blob directory''
                     (PathError ''mkdir'' (filepath_Dir path) er)), s)
      | Ok t1 \<Rightarrow>
        (case os_Create e t1 tempPath of
           Err er \<Rightarrow> (Err (Wrap ''failed to create temporary file'' (PathError ''open'' tempPath er)),
                     s\<lparr>s_disk := t1\<rparr>)
         | Ok t2 \<Rightarrow>
           (case io_Copy e t2 tempPath 0 content of (written, copied, t3) \<Rightarrow>
             if \<not> copied then
               (Err (Wrap ''failed to write blob content''
                  (if rfail content then ReadError else PathError ''write'' tempPath EIO)),
                s\<lparr>s_disk := remove_quietly e t3 tempPath\<rparr>)
             else if sys_fault e (SysClose tempPath) then
               (Err (Wrap ''failed to close temporary file'' (PathError ''close'' tempPath EIO)),
                s\<lparr>s_disk := remove_quietly e t3 tempPath\<rparr>)
             else
               (let calculated = sha256_digest (rdata content) in
                if calculated \<noteq> d then
                  (Err (Errorf (''digest mismatch: expected '' @ d @ '', got '' @ calculated)),
                   s\<lparr>s_disk := remove_quietly e t3 tempPath\<rparr>)
                else
                  (case os_Rename e t3 tempPath path of
                     Err er \<Rightarrow> (Err (Wrap ''failed to move blob to final location''
                                  (LinkError tempPath path er)),
                               s\<lparr>s_disk := remove_quietly e t3 tempPath\<rparr>)
                   | Ok t4 \<Rightarrow> (Ok (), s\<lparr>s_disk := remove_quietly e t4 tempPath\<rparr>))))))"

definition stat_exists :: "env \<Rightarrow> fs \<Rightarrow> path \<Rightarrow> error + bool" where
  "stat_exists e t p =
     (case os_Stat e t p of
        Err er \<Rightarrow> if er = ENOENT then Ok False else Err (PathError ''stat'' p er)
      | Ok _ \<Rightarrow> Ok True)"

definition BlobExists :: "env \<Rightarrow> string \<Rightarrow> Store \<Rightarrow> (error + bool) \<times> Store" where
  "BlobExists e d s = (stat_exists e (s_disk s) (blobPath e s d), s)"

definition remove_existing :: "env \<Rightarrow> fs \<Rightarrow> path \<Rightarrow> string \<Rightarrow> (error + unit) \<times> fs" where
  "remove_existing e t p msg =
     (case os_Remove e t p of
        Err er \<Rightarrow> if er = ENOENT then (Ok (), t) else (Err (Wrap msg (PathError ''remove'' p er)), t)
      | Ok t' \<Rightarrow> (Ok (), t'))"

definition DeleteBlob :: "env \<Rightarrow> string \<Rightarrow> Store \<Rightarrow> (error + unit) \<times> Store" where
  "DeleteBlob e d s =
     (case remove_existing e (s_disk s) (blobPath e s d) (''failed to delete blob '' @ d) of
        (r, t) \<Rightarrow> (r, s\<lparr>s_disk := t\<rparr>))"

definition node_size :: "env \<Rightarrow> node \<Rightarrow> int" where
  "node_size e n = (case n of File b \<Rightarrow> int (length b) | Dir \<Rightarrow> dir_size e)"

definition GetBlobSize :: "env \<Rightarrow> string \<Rightarrow> Store \<Rightarrow> (error + int) \<times> Store" where
  "GetBlobSize e d s =
     (case os_Stat e (s_disk s) (blobPath e s d) of
        Err er \<Rightarrow>
          (Err (if er = ENOENT then ErrBlobNotFound
                else Wrap (''failed to stat blob '' @ d) (PathError ''stat'' (blobPath e s d) er)), s)
      | Ok n \<Rightarrow> (Ok (node_size e n), s))"

subsection \<open>Manifests\<close>

definition is_digest_ref :: "string \<Rightarrow> bool" where
  "is_digest_ref reference \<longleftrightarrow> HasPrefix reference ''sha256:''"

definition GetManifest :: "env \<Rightarrow> string \<Rightarrow> string \<Rightarrow> Store \<Rightarrow> (error + Manifest) \<times> Store" where
  "GetManifest e repo reference s =
     (let path = manifestPath s repo reference in
      case os_ReadFile e (s_disk s) path of
        Err (step, er) \<Rightarrow>
          (Err (if er = ENOENT then ErrManifestNotFound
                else Wrap ''failed to read manifest'' (PathError step path er)), s)
      | Ok data \<Rightarrow>
        (case ParseManifest data of
           None \<Rightarrow> (Err (Wrap ''failed to parse manifest'' JsonError), s)
         | Some m \<Rightarrow>
             (let m1 = m\<lparr>m_Repository := repo\<rparr> in
              (Ok (if \<not> is_digest_ref reference then m1\<lparr>m_Tag := reference\<rparr> else m1), s))))"

definition writeManifestFile :: "env \<Rightarrow> fs \<Rightarrow> path \<Rightarrow> bytes \<Rightarrow> (error + unit) \<times> fs" where
  "writeManifestFile e t path data =
     (case os_MkdirAll e t (filepath_Dir path) of
        Err er \<Rightarrow> (Err (Wrap ''failed to create manifest directory''
                     (PathError ''mkdir'' (filepath_Dir path) er)), t)
      | Ok t1 \<Rightarrow>
        (let tempPath = tmp_of path in
         case os_WriteFile e t1 tempPath data of
           (Err (step, er), t2) \<Rightarrow>
             (Err (Wrap ''failed to write temporary manifest'' (PathError step tempPath er)), t2)
         | (Ok _, t2) \<Rightarrow>
             (case os_Rename e t2 tempPath path of
                Err er \<Rightarrow> (Err (Wrap ''failed to move manifest to final location''
                             (LinkError tempPath path er)), t2)
              | Ok t3 \<Rightarrow> (Ok (), t3))))"

text \<open>Encoding a manifest cannot fail: it holds only strings, integers, lists and maps of them.\<close>

definition PutManifest ::
  "env \<Rightarrow> string \<Rightarrow> string \<Rightarrow> Manifest \<Rightarrow> Store \<Rightarrow> (error + unit) \<times> Store" where
  "PutManifest e repo reference manifest s =
     (let data = MarshalManifest manifest in
      case writeManifestFile e (s_disk s) (manifestPath s repo reference) data of
        (Err er, t) \<Rightarrow> (Err er, s\<lparr>s_disk := t\<rparr>)
      | (Ok _, t) \<Rightarrow>
          if \<not> is_digest_ref reference \<and> m_Digest manifest \<noteq> [] then
            (case writeManifestFile e t (manifestPath s repo (m_Digest manifest)) data of
               (r, t') \<Rightarrow> (r, s\<lparr>s_disk := t'\<rparr>))
          else (Ok (), s\<lparr>s_disk := t\<rparr>))"

definition DeleteManifest :: "env \<Rightarrow> string \<Rightarrow> string \<Rightarrow> Store \<Rightarrow> (error + unit) \<times> Store" where
  "DeleteManifest e repo reference s =
     (case remove_existing e (s_disk s) (manifestPath s repo reference) ''failed to delete manifest'' of
        (r, t) \<Rightarrow> (r, s\<lparr>s_disk := t\<rparr>))"

text \<open>A slice built by appending to a nil one stays nil when nothing is appended.\<close>

definition appended :: "'a list \<Rightarrow> 'a list option" where
  "appended xs = (if xs = [] then None else Some xs)"

definition ListTags :: "env \<Rightarrow> string \<Rightarrow> Store \<Rightarrow> (error + string list option) \<times> Store" where
  "ListTags e repo s =
     (case os_ReadDir e (s_disk s) (repoPath s repo) of
        Err er \<Rightarrow>
          (if er = ENOENT then Ok (Some [])
           else Err (Wrap ''failed to read repository directory'' (PathError ''open'' (repoPath s repo) er)), s)
      | Ok entries \<Rightarrow>
          (Ok (appended (map fst (filter (\<lambda>(c, n). n \<noteq> Dir \<and> \<not> HasPrefix c ''sha256:'') entries))), s))"

definition ManifestExists :: "env \<Rightarrow> string \<Rightarrow> string \<Rightarrow> Store \<Rightarrow> (error + bool) \<times> Store" where
  "ManifestExists e repo reference s =
     (stat_exists e (s_disk s) (manifestPath s repo reference), s)"

definition referrer_descriptor :: "Manifest \<Rightarrow> Descriptor" where
  "referrer_descriptor m =
     zero_Descriptor\<lparr>d_MediaType := m_MediaType m, d_Digest := m_Digest m, d_Size := m_Size m,
       d_ArtifactType := (if m_ArtifactType m \<noteq> [] then m_ArtifactType m
                          else if d_MediaType (m_Config m) \<noteq> [] then d_MediaType (m_Config m)
                          else []),
       d_Annotations := m_Annotations m\<rparr>"

definition referrer_of :: "env \<Rightarrow> fs \<Rightarrow> path \<Rightarrow> string \<Rightarrow> string \<times> node \<Rightarrow> Descriptor option" where
  "referrer_of e t dir d entry =
     (case entry of (c, n) \<Rightarrow>
        if n = Dir then None
        else case os_ReadFile e t (Join dir [c]) of
          Err _ \<Rightarrow> None
        | Ok data \<Rightarrow>
            (case ParseManifest data of
               None \<Rightarrow> None
             | Some m \<Rightarrow>
                 (case m_Subject m of
                    None \<Rightarrow> None
                  | Some subj \<Rightarrow> if d_Digest subj = d then Some (referrer_descriptor m) else None)))"

definition GetReferrers ::
  "env \<Rightarrow> string \<Rightarrow> string \<Rightarrow> Store \<Rightarrow> (error + Descriptor list option) \<times> Store" where
  "GetReferrers e repo d s =
     (if os_Stat e (s_disk s) (repoPath s repo) = Err ENOENT then (Ok None, s)
      else case os_ReadDir e (s_disk s) (repoPath s repo) of
        Err er \<Rightarrow> (Err (Wrap ''failed to read repository directory''
                     (PathError ''open'' (repoPath s repo) er)), s)
      | Ok entries \<Rightarrow>
          (Ok (appended (List.map_filter (referrer_of e (s_disk s) (repoPath s repo) d) entries)), s))"

subsection \<open>Uploads\<close>

definition CreateUpload :: "env \<Rightarrow> string \<Rightarrow> Store \<Rightarrow> (error + Upload) \<times> Store" where
  "CreateUpload e repo s =
     (let uploadID = new_uuid e; upload = NewUpload e uploadID repo;
          uploadDir = Join (s_basePath s) [''uploads''] in
      case os_MkdirAll e (s_disk s) uploadDir of
        Err er \<Rightarrow> (Err (Wrap ''failed to create upload directory'' (PathError ''mkdir'' uploadDir er)), s)
      | Ok t1 \<Rightarrow>
        (let tempFile = uploadPath s uploadID; upload1 = SetTempFile tempFile upload in
         case os_Create e t1 tempFile of
           Err er \<Rightarrow> (Err (Wrap ''failed to create upload file'' (PathError ''open'' tempFile er)),
                     s\<lparr>s_disk := t1\<rparr>)
         | Ok t2 \<Rightarrow> (Ok upload1, s\<lparr>s_disk := t2, s_uploads := (s_uploads s)(uploadID \<mapsto> upload1)\<rparr>)))"

definition GetUpload :: "string \<Rightarrow> Store \<Rightarrow> (error + Upload) \<times> Store" where
  "GetUpload uploadID s =
     (case s_uploads s uploadID of None \<Rightarrow> (Err ErrUploadNotFound, s) | Some u \<Rightarrow> (Ok u, s))"

definition WriteUploadChunk ::
  "env \<Rightarrow> string \<Rightarrow> int \<Rightarrow> reader \<Rightarrow> Store \<Rightarrow> (error + unit) \<times> Store" where
  "WriteUploadChunk e uploadID offset chunk s =
     (case GetUpload uploadID s of
        (Err er, _) \<Rightarrow> (Err er, s)
      | (Ok upload, _) \<Rightarrow>
        (let tempFile = GetTempFile upload in
         case os_OpenFile_W e (s_disk s) tempFile of
           Err er \<Rightarrow> (Err (Wrap ''failed to open upload file'' (PathError ''open'' tempFile er)), s)
         | Ok _ \<Rightarrow>
           if offset < 0 \<or> sys_fault e (SysSeek tempFile) then
             (Err (Wrap ''failed to seek to offset''
                (PathError ''seek'' tempFile (if offset < 0 then EINVAL else EIO))), s)
           else
             (case io_Copy e (s_disk s) tempFile (nat offset) chunk of (written, copied, t1) \<Rightarrow>
               if \<not> copied then
                 (Err (Wrap ''failed to write chunk''
                    (if rfail chunk then ReadError else PathError ''write'' tempFile EIO)),
                  s\<lparr>s_disk := t1\<rparr>)
               else
                 (Ok (), s\<lparr>s_disk := t1,
                    s_uploads := (s_uploads s)(uploadID \<mapsto>
                      AddSize (int written) (SetOffset (int64 (offset + int written)) upload))\<rparr>))))"

definition CompleteUpload :: "env \<Rightarrow> string \<Rightarrow> string \<Rightarrow> Store \<Rightarrow> (error + unit) \<times> Store" where
  "CompleteUpload e uploadID d s =
     (case GetUpload uploadID s of
        (Err er, _) \<Rightarrow> (Err er, s)
      | (Ok upload, _) \<Rightarrow>
        (let tempFile = GetTempFile upload in
         case os_Open e (s_disk s) tempFile of
           Err er \<Rightarrow> (Err (Wrap ''failed to open upload file'' (PathError ''open'' tempFile er)), s)
         | Ok file \<Rightarrow>
           (case PutBlob e d file s of
              (Err er, s1) \<Rightarrow> (Err (Wrap ''failed to store blob'' er), s1)
            | (Ok _, s1) \<Rightarrow>
                (Ok (), s1\<lparr>s_uploads := (s_uploads s1)(uploadID := None),
                          s_disk := remove_quietly e (s_disk s1) tempFile\<rparr>))))"

definition CancelUpload :: "env \<Rightarrow> string \<Rightarrow> Store \<Rightarrow> (error + unit) \<times> Store" where
  "CancelUpload e uploadID s =
     (case GetUpload uploadID s of
        (Err er, _) \<Rightarrow> (Err er, s)
      | (Ok upload, _) \<Rightarrow>
          (Ok (), s\<lparr>s_uploads := (s_uploads s)(uploadID := None),
                   s_disk := remove_quietly e (s_disk s) (GetTempFile upload)\<rparr>))"

definition GetUploadStatus :: "string \<Rightarrow> Store \<Rightarrow> (error + int) \<times> Store" where
  "GetUploadStatus uploadID s =
     (case GetUpload uploadID s of
        (Err er, _) \<Rightarrow> (Err er, s)
      | (Ok upload, _) \<Rightarrow> (Ok (GetOffset upload), s))"

text \<open>The method table: \<open>*filesystem.Store\<close> as a \<open>storage.Store\<close>.\<close>

definition fs_ops :: "env \<Rightarrow> Store store_ops" where
  "fs_ops e = \<lparr>
     op_GetBlob = GetBlob e, op_PutBlob = PutBlob e, op_BlobExists = BlobExists e,
     op_DeleteBlob = DeleteBlob e, op_GetBlobSize = GetBlobSize e,
     op_GetManifest = GetManifest e, op_PutManifest = PutManifest e,
     op_DeleteManifest = DeleteManifest e, op_ListTags = ListTags e,
     op_ManifestExists = ManifestExists e, op_GetReferrers = GetReferrers e,
     op_CreateUpload = CreateUpload e, op_GetUpload = GetUpload,
     op_WriteUploadChunk = WriteUploadChunk e, op_CompleteUpload = CompleteUpload e,
     op_CancelUpload = CancelUpload e, op_GetUploadStatus = GetUploadStatus\<rparr>"

lemma fs_ops_sel [simp]:
  "op_GetBlob (fs_ops e) = GetBlob e" "op_PutBlob (fs_ops e) = PutBlob e"
  "op_BlobExists (fs_ops e) = BlobExists e" "op_DeleteBlob (fs_ops e) = DeleteBlob e"
  "op_GetBlobSize (fs_ops e) = GetBlobSize e" "op_GetManifest (fs_ops e) = GetManifest e"
  "op_PutManifest (fs_ops e) = PutManifest e" "op_DeleteManifest (fs_ops e) = DeleteManifest e"
  "op_ListTags (fs_ops e) = ListTags e" "op_ManifestExists (fs_ops e) = ManifestExists e"
  "op_GetReferrers (fs_ops e) = GetReferrers e" "op_CreateUpload (fs_ops e) = CreateUpload e"
  "op_GetUpload (fs_ops e) = GetUpload" "op_WriteUploadChunk (fs_ops e) = WriteUploadChunk e"
  "op_CompleteUpload (fs_ops e) = CompleteUpload e" "op_CancelUpload (fs_ops e) = CancelUpload e"
  "op_GetUploadStatus (fs_ops e) = GetUploadStatus"
  by (simp_all add: fs_ops_def)

end
