(* ===== verification/FsBlobs.thy ===== *)
theory FsBlobs
  imports FsStore
begin

text \<open>
  The blob and upload side of the filesystem store: what each operation does to the disk, the
  invariant that every blob file hashes to its name whatever the callers pass and whichever
  system calls fail, and the interpretation of the blob and upload contracts.
\<close>

subsection \<open>Where canonical digests live\<close>

definition blob_file :: "path \<Rightarrow> string \<Rightarrow> path" where
  "blob_file base h = base @ [''blobs'', ''sha256'', take 2 h, take 2 (drop 2 h), h]"

lemma canonical_hex_safe:
  assumes "canonical_hex h"
  shows "safe_comp h" and "safe_comp (take 2 h)" and "safe_comp (take 2 (drop 2 h))"
proof -
  have len: "length h = 64" using assms by (simp add: canonical_hex_def)
  have no: "CHR ''/'' \<notin> set h" "CHR ''.'' \<notin> set h"
    using canonical_hex_chars [OF assms] by auto
  have safe: "safe_comp x" if "set x \<subseteq> set h" and "x \<noteq> []" for x
    using that no by (auto simp: safe_comp_def)
  have "h \<noteq> []" "take 2 h \<noteq> []" "take 2 (drop 2 h) \<noteq> []" using len by auto
  then show "safe_comp h" and "safe_comp (take 2 h)" and "safe_comp (take 2 (drop 2 h))"
    by (auto intro!: safe dest: in_set_takeD in_set_dropD)
qed

lemma blob_dirs_canonical:
  assumes "canonical_hex h"
  shows "blob_dirs base ''sha256'' h = blob_file base h"
proof -
  have "4 \<le> length h" using assms by (simp add: canonical_hex_def)
  moreover have "safe_comp ''blobs''" "safe_comp ''sha256''" by (simp_all add: safe_comp_def)
  ultimately show ?thesis
    using canonical_hex_safe [OF assms] by (simp add: blob_dirs_def blob_file_def)
qed

lemma blobPath_canonical:
  assumes "digest_ok e" and "canonical_hex h"
  shows "blobPath e s (''sha256:'' @ h) = blob_file (s_basePath s) h"
proof -
  have split: "SplitN2 CHR '':'' (''sha256:'' @ h) = [''sha256'', h]"
    using SplitN2_append_sep [of "CHR '':''" "''sha256''" h] by simp
  have "a = ''sha256'' \<and> b = h" if "digest_Parse e (''sha256:'' @ h) = Some (a, b)" for a b
  proof -
    from assms(1) that have eq: "''sha256:'' @ h = a @ CHR '':'' # b" and no: "CHR '':'' \<notin> set a"
      unfolding digest_ok_def by blast+
    have "[''sha256'', h] = [a, b]"
      unfolding split [symmetric] eq by (rule SplitN2_append_sep [OF no])
    then show ?thesis by simp
  qed
  then have parsed: "digest_Parse e (''sha256:'' @ h) = None \<or>
      digest_Parse e (''sha256:'' @ h) = Some (''sha256'', h)"
    by (cases "digest_Parse e (''sha256:'' @ h)") auto
  show ?thesis
    using parsed unfolding blobPath_def blob_dirs_canonical [OF assms(2), symmetric]
    by (elim disjE) (simp_all only: split option.case prod.case list.case)
qed

lemma blob_file_inj: "blob_file b h = blob_file b h' \<longleftrightarrow> h = h'"
  by (auto simp: blob_file_def)

lemma blob_file_not_tmp: "canonical_hex h \<Longrightarrow> \<not> is_tmp (blob_file b h)"
  using not_is_tmp_no_dot [of h "b @ [''blobs'', ''sha256'', take 2 h, take 2 (drop 2 h)]"]
    canonical_hex_chars [of h]
  by (simp add: blob_file_def)

lemma blob_file_not_upload: "blob_file b h \<noteq> b @ [''uploads'', i]"
  by (simp add: blob_file_def)

subsection \<open>Removing\<close>

lemma remove_quietly_other: "q \<noteq> p \<Longrightarrow> fs_get (remove_quietly e t p) q = fs_get t q"
  using os_Remove_same [of e t p] by (auto simp: remove_quietly_def same_except_def split: sum.splits)

lemma remove_quietly_wf: "wf_fs t \<Longrightarrow> wf_fs (remove_quietly e t p)"
  by (auto simp: remove_quietly_def os_Remove_wf split: sum.splits)

subsection \<open>What \<open>PutBlob\<close> does\<close>

lemma PutBlob_cases [consumes 1, case_names mkdir create fail success]:
  assumes "PutBlob e d rd s = (r, s')"
  obtains er where "r = Err er" and "s' = s"
  | er t1 where "os_MkdirAll e (s_disk s) (filepath_Dir (blobPath e s d)) = Ok t1"
      and "r = Err er" and "s' = s\<lparr>s_disk := t1\<rparr>"
  | er t1 t2 n ok t3 where "os_MkdirAll e (s_disk s) (filepath_Dir (blobPath e s d)) = Ok t1"
      and "os_Create e t1 (tmp_of (blobPath e s d)) = Ok t2"
      and "io_Copy e t2 (tmp_of (blobPath e s d)) 0 rd = (n, ok, t3)"
      and "r = Err er" and "s' = s\<lparr>s_disk := remove_quietly e t3 (tmp_of (blobPath e s d))\<rparr>"
  | t1 t2 n t3 t4 where "os_MkdirAll e (s_disk s) (filepath_Dir (blobPath e s d)) = Ok t1"
      and "os_Create e t1 (tmp_of (blobPath e s d)) = Ok t2"
      and "io_Copy e t2 (tmp_of (blobPath e s d)) 0 rd = (n, True, t3)"
      and "sha256_digest (rdata rd) = d"
      and "os_Rename e t3 (tmp_of (blobPath e s d)) (blobPath e s d) = Ok t4"
      and "r = Ok ()" and "s' = s\<lparr>s_disk := remove_quietly e t4 (tmp_of (blobPath e s d))\<rparr>"
  using assms unfolding PutBlob_def Let_def
  by (auto split: sum.splits prod.splits if_splits)

lemma PutBlob_state:
  assumes "PutBlob e d rd s = (r, s')"
  shows "s_basePath s' = s_basePath s \<and> s_uploads s' = s_uploads s"
  using assms by (cases rule: PutBlob_cases) simp_all

text \<open>Apart from new directories and the temporary file, only a successful put changes the
  disk, and only at the path of the digest.\<close>

lemma PutBlob_frame:
  assumes "PutBlob e d rd s = (r, s')"
  shows "\<exists>t. grows (s_disk s) t \<and>
      (\<forall>q. q \<noteq> tmp_of (blobPath e s d) \<longrightarrow> q \<noteq> blobPath e s d \<or> \<not> isOk r \<longrightarrow>
         fs_get (s_disk s') q = fs_get t q)"
  using assms
proof (cases rule: PutBlob_cases)
  case (mkdir er)
  then show ?thesis by (intro exI [of _ "s_disk s"]) simp
next
  case (create er t1)
  then show ?thesis using os_MkdirAll_grows [OF create(1)] by (intro exI [of _ t1]) simp
next
  case (fail er t1 t2 n ok t3)
  note same = os_Create_same [OF fail(2)] io_Copy_same [OF fail(3)]
  then have "fs_get (s_disk s') q = fs_get t1 q" if "q \<noteq> tmp_of (blobPath e s d)" for q
    using that by (simp add: fail(5) remove_quietly_other same_except_def)
  then show ?thesis using os_MkdirAll_grows [OF fail(1)] by (intro exI [of _ t1]) simp
next
  case (success t1 t2 n t3 t4)
  note same = os_Create_same [OF success(2)] io_Copy_same [OF success(3)] os_Rename_same [OF success(5)]
  then have "fs_get (s_disk s') q = fs_get t1 q"
    if "q \<noteq> tmp_of (blobPath e s d)" "q \<noteq> blobPath e s d" for q
    using that by (simp add: success(7) remove_quietly_other same_except_def)
  then show ?thesis using os_MkdirAll_grows [OF success(1)] success(6)
    by (intro exI [of _ t1]) simp
qed

lemma PutBlob_success:
  assumes "PutBlob e d rd s = (Ok u, s')"
  shows "sha256_digest (rdata rd) = d \<and> \<not> rfail rd \<and>
    fs_get (s_disk s') (blobPath e s d) = Some (File (rdata rd))"
  using assms
proof (cases rule: PutBlob_cases)
  case (success t1 t2 n t3 t4)
  note copied = io_Copy_ok [OF success(3) os_Create_file [OF success(2)]]
  have "fs_get t4 (blobPath e s d) = Some (File (rdata rd))"
    using os_Rename_moves(1) [OF success(5)] copied(3) by simp
  then show ?thesis using success copied by (simp add: remove_quietly_other)
qed simp_all

lemma PutBlob_wf:
  assumes "PutBlob e d rd s = (r, s')" and "wf_fs (s_disk s)"
  shows "wf_fs (s_disk s')"
  using assms(1)
proof (cases rule: PutBlob_cases)
  case (create er t1)
  then show ?thesis using os_MkdirAll_wf assms(2) by auto
next
  case (fail er t1 t2 n ok t3)
  have "wf_fs t2" using os_Create_wf [OF fail(2)] os_MkdirAll_wf(1) [OF fail(1) assms(2)] .
  then have "wf_fs t3" by (rule io_Copy_wf(1) [OF fail(3) _ os_Create_file [OF fail(2)]])
  then show ?thesis using fail(5) by (simp add: remove_quietly_wf)
next
  case (success t1 t2 n t3 t4)
  have "wf_fs t2" using os_Create_wf [OF success(2)] os_MkdirAll_wf(1) [OF success(1) assms(2)] .
  then have "wf_fs t3" by (rule io_Copy_wf(1) [OF success(3) _ os_Create_file [OF success(2)]])
  then have "wf_fs t4" using os_Rename_wf [OF success(5)] by simp
  then show ?thesis using success(7) by (simp add: remove_quietly_wf)
qed (use assms(2) in simp)

subsection \<open>Content and invariant\<close>

definition content :: "node option \<Rightarrow> bytes option" where
  "content n = (case n of Some (File b) \<Rightarrow> Some b | _ \<Rightarrow> None)"

lemma content_simps [simp]:
  "content None = None" "content (Some Dir) = None" "content (Some (File b)) = Some b"
  by (simp_all add: content_def)

lemma content_Some: "content n = Some b \<longleftrightarrow> n = Some (File b)"
  by (auto simp: content_def split: option.splits node.splits)

lemma is_file_content: "is_file n \<longleftrightarrow> content n \<noteq> None"
  by (auto simp: content_def is_file_def split: option.splits node.splits)

lemma grows_content: "grows t t' \<Longrightarrow> content (fs_get t' q) = content (fs_get t q)"
  unfolding grows_def by (metis content_simps(1,2))

lemma file_at_content: "file_at t p = (case content (fs_get t p) of None \<Rightarrow> [] | Some b \<Rightarrow> b)"
  by (auto simp: file_at_def content_def split: option.splits node.splits)

text \<open>The blobs of a store: what lies at the path of each canonical digest.\<close>

definition fs_blobs :: "Store \<Rightarrow> string \<Rightarrow> bytes option" where
  "fs_blobs s d =
     (if canonical_digest d then content (fs_get (s_disk s) (blob_file (s_basePath s) (drop 7 d)))
      else None)"

text \<open>The upload sessions of a store: offset and bytes received.\<close>

definition fs_sess :: "Store \<Rightarrow> string \<Rightarrow> (int \<times> bytes) option" where
  "fs_sess s i =
     map_option (\<lambda>u. (u_offset u, file_at (s_disk s) (u_tempFile u))) (s_uploads s i)"

definition addressed :: "Store \<Rightarrow> bool" where
  "addressed s \<longleftrightarrow> (\<forall>d b. fs_blobs s d = Some b \<longrightarrow> sha256_digest b = d)"

definition upload_file :: "path \<Rightarrow> string \<Rightarrow> path" where
  "upload_file base i = base @ [''uploads'', i]"

definition uploads_ok :: "path \<Rightarrow> (string \<Rightarrow> Upload option) \<Rightarrow> bool" where
  "uploads_ok base ups \<longleftrightarrow>
     (\<forall>i u. ups i = Some u \<longrightarrow> u_ID u = i \<and> u_tempFile u = upload_file base i \<and> safe_comp i \<and>
        CHR ''.'' \<notin> set i)"

definition upload_files :: "Store \<Rightarrow> bool" where
  "upload_files s \<longleftrightarrow>
     (\<forall>i u. s_uploads s i = Some u \<longrightarrow> is_file (fs_get (s_disk s) (u_tempFile u)))"

text \<open>\<open>fs_safe\<close> survives every operation with every argument; \<open>fs_inv\<close> adds that each
  session has its file, which a caller could break only by deleting a blob whose digest it made
  up to point there.\<close>

definition fs_safe :: "env \<Rightarrow> Store \<Rightarrow> bool" where
  "fs_safe e s \<longleftrightarrow> digest_ok e \<and> wf_fs (s_disk s) \<and> addressed s \<and> uploads_ok (s_basePath s) (s_uploads s)"

definition fs_inv :: "env \<Rightarrow> Store \<Rightarrow> bool" where
  "fs_inv e s \<longleftrightarrow> fs_safe e s \<and> uuid_ok e \<and> upload_files s"

lemma uploads_okD:
  assumes "uploads_ok base ups" and "ups i = Some u"
  shows "u_ID u = i" and "u_tempFile u = upload_file base i" and "safe_comp i" and "CHR ''.'' \<notin> set i"
  using assms unfolding uploads_ok_def by blast+

lemma upload_file_not_tmp: "CHR ''.'' \<notin> set i \<Longrightarrow> \<not> is_tmp (upload_file b i)"
  using not_is_tmp_no_dot [of i "b @ [''uploads'']"] by (simp add: upload_file_def)

lemma upload_file_not_blob [simp]:
  "upload_file b i \<noteq> blob_file b h" "blob_file b h \<noteq> upload_file b i"
  by (simp_all add: upload_file_def blob_file_def)

lemma upload_file_inj [simp]: "upload_file b i = upload_file b j \<longleftrightarrow> i = j"
  by (simp add: upload_file_def)

lemma canonical_drop: "canonical_digest d \<Longrightarrow> d = ''sha256:'' @ drop 7 d \<and> canonical_hex (drop 7 d)"
  by (erule canonical_digestE) simp

lemma blobPath_blob_file:
  assumes "digest_ok e" and "canonical_digest d"
  shows "blobPath e s d = blob_file (s_basePath s) (drop 7 d)"
  using blobPath_canonical [OF assms(1)] canonical_drop [OF assms(2)] by metis

lemma fs_blobs_path:
  "digest_ok e \<Longrightarrow> canonical_digest d \<Longrightarrow> fs_blobs s d = content (fs_get (s_disk s) (blobPath e s d))"
  by (simp add: fs_blobs_def blobPath_blob_file)

text \<open>The blobs depend on the files at blob paths only.\<close>

lemma fs_blobs_cong:
  assumes "s_basePath s' = s_basePath s"
    and "\<And>h. canonical_hex h \<Longrightarrow> content (fs_get (s_disk s') (blob_file (s_basePath s) h)) =
      content (fs_get (s_disk s) (blob_file (s_basePath s) h))"
  shows "fs_blobs s' = fs_blobs s"
  using assms canonical_drop by (intro ext) (auto simp: fs_blobs_def)

lemma addressed_cong: "fs_blobs s' = fs_blobs s \<Longrightarrow> addressed s' = addressed s"
  by (simp add: addressed_def)

lemma fs_sess_cong:
  assumes "s_uploads s' = s_uploads s"
    and "\<And>i u. s_uploads s i = Some u \<Longrightarrow> content (fs_get (s_disk s') (u_tempFile u)) =
      content (fs_get (s_disk s) (u_tempFile u))"
  shows "fs_sess s' = fs_sess s" and "upload_files s' = upload_files s"
proof -
  show "fs_sess s' = fs_sess s"
    using assms by (intro ext) (auto simp: fs_sess_def file_at_content intro!: option.map_cong)
  show "upload_files s' = upload_files s"
    unfolding upload_files_def is_file_content assms(1) using assms(2) by metis
qed

subsection \<open>\<open>PutBlob\<close> against the content\<close>

lemma PutBlob_content:
  assumes "PutBlob e d rd s = (r, s')" and "\<not> is_tmp q" and "q \<noteq> blobPath e s d \<or> \<not> isOk r"
  shows "content (fs_get (s_disk s') q) = content (fs_get (s_disk s) q)"
proof -
  have "q \<noteq> tmp_of (blobPath e s d)" using assms(2) by auto
  with PutBlob_frame [OF assms(1)] assms(3) obtain t where
    "grows (s_disk s) t" and "fs_get (s_disk s') q = fs_get t q" by blast
  then show ?thesis by (simp add: grows_content)
qed

lemma PutBlob_canonical: "PutBlob e d rd s = (Ok u, s') \<Longrightarrow> canonical_digest d"
  using PutBlob_success canonical_sha256_digest by metis

lemma PutBlob_blobs:
  assumes "digest_ok e" and "PutBlob e d rd s = (r, s')"
  shows "fs_blobs s' = (if isOk r then (fs_blobs s)(d \<mapsto> rdata rd) else fs_blobs s)"
proof (cases r)
  case (Inl er)
  with assms show ?thesis
    using fs_blobs_cong [of s' s] PutBlob_content [OF assms(2)] PutBlob_state [OF assms(2)]
      blob_file_not_tmp by simp
next
  case (Inr u)
  with assms have put: "PutBlob e d rd s = (Ok u, s')" by simp
  have can: "canonical_digest d" using PutBlob_canonical [OF put] .
  have "fs_blobs s' d' = ((fs_blobs s)(d \<mapsto> rdata rd)) d'" for d'
  proof (cases "d' = d")
    case True
    then show ?thesis using PutBlob_success [OF put] PutBlob_state [OF put] can
      by (simp add: fs_blobs_def blobPath_blob_file [OF assms(1) can])
  next
    case False
    show ?thesis
    proof (cases "canonical_digest d'")
      case c: True
      have "blob_file (s_basePath s) (drop 7 d') \<noteq> blobPath e s d"
        using False canonical_drop [OF c] canonical_drop [OF can]
        by (auto simp: blobPath_blob_file [OF assms(1) can] blob_file_inj)
      then have "content (fs_get (s_disk s') (blob_file (s_basePath s) (drop 7 d'))) =
          content (fs_get (s_disk s) (blob_file (s_basePath s) (drop 7 d')))"
        using PutBlob_content [OF put] blob_file_not_tmp canonical_drop [OF c] by simp
      then show ?thesis using False c PutBlob_state [OF put] by (simp add: fs_blobs_def)
    qed (simp add: fs_blobs_def False)
  qed
  then show ?thesis using Inr by (intro ext) simp
qed

lemma PutBlob_uploads:
  assumes "fs_safe e s" and "PutBlob e d rd s = (r, s')"
  shows "fs_sess s' = fs_sess s" and "upload_files s' = upload_files s"
proof -
  have "content (fs_get (s_disk s') (u_tempFile u)) = content (fs_get (s_disk s) (u_tempFile u))"
    if "s_uploads s i = Some u" for i u
  proof (rule PutBlob_content [OF assms(2)])
    have up: "u_tempFile u = upload_file (s_basePath s) i" "CHR ''.'' \<notin> set i"
      using assms(1) that uploads_okD by (auto simp: fs_safe_def)
    then show "\<not> is_tmp (u_tempFile u)" by (simp add: upload_file_not_tmp)
    show "u_tempFile u \<noteq> blobPath e s d \<or> \<not> isOk r"
      using assms up PutBlob_canonical
      by (cases r) (auto simp: blobPath_blob_file fs_safe_def)
  qed
  with PutBlob_state [OF assms(2)] show "fs_sess s' = fs_sess s" and "upload_files s' = upload_files s"
    using fs_sess_cong [of s' s] by auto
qed

lemma PutBlob_safe [keeps]:
  assumes "fs_safe e s" and "PutBlob e d rd s = (r, s')"
  shows "fs_safe e s'"
  using assms PutBlob_state [OF assms(2)] PutBlob_wf [OF assms(2)] PutBlob_blobs [OF _ assms(2)]
    PutBlob_success [of e d rd s _ s']
  by (cases r) (auto simp: fs_safe_def addressed_def)

lemma PutBlob_inv [keeps]: "fs_inv e s \<Longrightarrow> PutBlob e d rd s = (r, s') \<Longrightarrow> fs_inv e s'"
  using PutBlob_safe PutBlob_uploads unfolding fs_inv_def by blast

end
