(* ===== verification/FsUploads.thy ===== *)
theory FsUploads
  imports FsBlobs
begin

text \<open>
  The reading and deleting of blobs and the upload sessions of the filesystem store, the
  interpretation of the blob and upload contracts of theory Storage on it, and what follows
  from the contracts.
\<close>

subsection \<open>Reading and deleting\<close>

lemma GetBlob_state: "GetBlob e d s = (r, s') \<Longrightarrow> s' = s"
  by (auto simp: GetBlob_def split: sum.splits)

lemma GetBlob_Ok:
  assumes "GetBlob e d s = (Ok rd, s')" and "\<not> rfail rd"
  shows "content (fs_get (s_disk s) (blobPath e s d)) = Some (rdata rd)"
  using assms
  by (auto simp: GetBlob_def os_Open_def Let_def dest!: lookup_OkD split: sum.splits if_splits node.splits)

lemma BlobExists_state: "BlobExists e d s = (r, s') \<Longrightarrow> s' = s"
  by (simp add: BlobExists_def)

lemma BlobExists_False:
  assumes "BlobExists e d s = (Ok False, s')" and "wf_fs (s_disk s)"
  shows "fs_get (s_disk s) (blobPath e s d) = None"
  using assms lookup_Err_wf
  by (auto simp: BlobExists_def stat_exists_def os_Stat_def split: sum.splits if_splits)

lemma GetBlobSize_state: "GetBlobSize e d s = (r, s') \<Longrightarrow> s' = s"
  by (auto simp: GetBlobSize_def split: sum.splits)

lemma GetBlobSize_Ok:
  assumes "GetBlobSize e d s = (Ok n, s')" and "content (fs_get (s_disk s) (blobPath e s d)) = Some b"
  shows "n = int (length b)"
  using assms
  by (auto simp: GetBlobSize_def os_Stat_def node_size_def content_Some dest!: lookup_OkD
      split: sum.splits if_splits)

lemma DeleteBlob_cases:
  assumes "DeleteBlob e d s = (r, s')"
  obtains er where "r = Err er" and "s' = s"
  | "r = Ok ()" and "s' = s" and "os_Remove e (s_disk s) (blobPath e s d) = Err ENOENT"
  | t where "r = Ok ()" and "s' = s\<lparr>s_disk := t\<rparr>" and "os_Remove e (s_disk s) (blobPath e s d) = Ok t"
  using assms by (auto simp: DeleteBlob_def remove_existing_def split: sum.splits if_splits)

lemma os_Remove_ENOENT: "wf_fs t \<Longrightarrow> os_Remove e t p = Err ENOENT \<Longrightarrow> fs_get t p = None"
  by (auto simp: os_Remove_def dest: lookup_Err_wf split: sum.splits if_splits node.splits)

lemma DeleteBlob_other:
  assumes "DeleteBlob e d s = (r, s')" and "q \<noteq> blobPath e s d"
  shows "fs_get (s_disk s') q = fs_get (s_disk s) q"
  using assms(1)
  by (cases rule: DeleteBlob_cases) (use assms(2) os_Remove_same in \<open>auto simp: same_except_def\<close>)

lemma DeleteBlob_gone:
  assumes "DeleteBlob e d s = (Ok u, s')" and "wf_fs (s_disk s)"
  shows "fs_get (s_disk s') (blobPath e s d) = None"
  using assms(1)
  by (cases rule: DeleteBlob_cases) (use assms(2) os_Remove_ENOENT os_Remove_gone in auto)

lemma DeleteBlob_Err: "DeleteBlob e d s = (Err er, s') \<Longrightarrow> s' = s"
  by (erule DeleteBlob_cases) auto

lemma DeleteBlob_keeps:
  assumes "DeleteBlob e d s = (r, s')"
  shows "s_basePath s' = s_basePath s \<and> s_uploads s' = s_uploads s \<and>
    (wf_fs (s_disk s) \<longrightarrow> wf_fs (s_disk s'))"
  using assms by (cases rule: DeleteBlob_cases) (auto simp: os_Remove_wf)

text \<open>Deleting removes at most what is at the path of the digest.\<close>

lemma DeleteBlob_content:
  assumes "DeleteBlob e d s = (r, s')"
  shows "content (fs_get (s_disk s') q) = content (fs_get (s_disk s) q) \<or>
    content (fs_get (s_disk s') q) = None"
proof (cases "q = blobPath e s d")
  case True
  show ?thesis using assms
    by (cases rule: DeleteBlob_cases) (simp_all add: True os_Remove_gone)
next
  case False
  then show ?thesis using DeleteBlob_other [OF assms] by simp
qed

lemma DeleteBlob_safe [keeps]:
  assumes "fs_safe e s" and "DeleteBlob e d s = (r, s')"
  shows "fs_safe e s'"
proof -
  have "fs_blobs s' d' = fs_blobs s d' \<or> fs_blobs s' d' = None" for d'
    using DeleteBlob_content [OF assms(2)] DeleteBlob_keeps [OF assms(2)] by (simp add: fs_blobs_def)
  then have "addressed s'" using assms(1) unfolding fs_safe_def addressed_def
    by (metis option.distinct(1))
  then show ?thesis using assms(1) DeleteBlob_keeps [OF assms(2)] by (simp add: fs_safe_def)
qed

lemma DeleteBlob_uploads:
  assumes "fs_safe e s" and "DeleteBlob e d s = (r, s')" and "canonical_digest d"
  shows "fs_sess s' = fs_sess s" and "upload_files s' = upload_files s"
proof -
  have "fs_get (s_disk s') (u_tempFile u) = fs_get (s_disk s) (u_tempFile u)"
    if "s_uploads s i = Some u" for i u
    using assms that uploads_okD(2) [of "s_basePath s" "s_uploads s" i u]
    by (intro DeleteBlob_other [OF assms(2)]) (auto simp: fs_safe_def blobPath_blob_file)
  with DeleteBlob_keeps [OF assms(2)] show "fs_sess s' = fs_sess s" and "upload_files s' = upload_files s"
    using fs_sess_cong [of s' s] by auto
qed

lemma DeleteBlob_inv [keeps]:
  "fs_inv e s \<Longrightarrow> canonical_digest d \<Longrightarrow> DeleteBlob e d s = (r, s') \<Longrightarrow> fs_inv e s'"
  using DeleteBlob_safe DeleteBlob_uploads unfolding fs_inv_def by blast

lemma DeleteBlob_blobs:
  assumes "fs_safe e s" and "canonical_digest d" and "DeleteBlob e d s = (Ok u, s')"
  shows "fs_blobs s' = (fs_blobs s)(d := None)"
proof
  fix d'
  have ok: "digest_ok e" "wf_fs (s_disk s)" using assms(1) by (auto simp: fs_safe_def)
  note path = blobPath_blob_file [OF ok(1) assms(2)]
  note base = conjunct1 [OF DeleteBlob_keeps [OF assms(3)]]
  show "fs_blobs s' d' = ((fs_blobs s)(d := None)) d'"
  proof (cases "d' = d \<or> \<not> canonical_digest d'")
    case True
    then show ?thesis
      using DeleteBlob_gone [OF assms(3) ok(2)] base path by (auto simp: fs_blobs_def)
  next
    case False
    then have "drop 7 d' \<noteq> drop 7 d"
      using canonical_drop [of d'] canonical_drop [OF assms(2)] by metis
    then have "blob_file (s_basePath s) (drop 7 d') \<noteq> blobPath e s d"
      by (simp add: path blob_file_inj)
    with False show ?thesis
      using DeleteBlob_other [OF assms(3)] base by (auto simp: fs_blobs_def)
  qed
qed

subsection \<open>Upload sessions\<close>

lemma uploads_Join [simp]: "Join base [''uploads''] = base @ [''uploads'']"
  by (rule Join_safe) (simp add: safe_comp_def)

lemma uploadPath_upload_file: "safe_comp i \<Longrightarrow> uploadPath s i = upload_file (s_basePath s) i"
  unfolding uploadPath_def upload_file_def by (rule Join_safe) (simp add: safe_comp_def)

text \<open>A change of the file of one session leaves the blobs and the other sessions alone.\<close>

lemma upload_file_blobs:
  assumes "s_basePath s' = s_basePath s"
    and "\<And>q. q \<noteq> upload_file (s_basePath s) i \<Longrightarrow>
      content (fs_get (s_disk s') q) = content (fs_get (s_disk s) q)"
  shows "fs_blobs s' = fs_blobs s"
  using assms by (intro fs_blobs_cong) simp_all

lemma upload_file_sess:
  assumes "uploads_ok (s_basePath s) (s_uploads s)"
    and "\<And>q. q \<noteq> upload_file (s_basePath s) i \<Longrightarrow>
      content (fs_get (s_disk s') q) = content (fs_get (s_disk s) q)"
    and "\<And>j. j \<noteq> i \<Longrightarrow> s_uploads s' j = s_uploads s j"
  shows "fs_sess s' = (fs_sess s)(i := fs_sess s' i)"
    and "upload_files s \<Longrightarrow> (\<And>u. s_uploads s' i = Some u \<Longrightarrow> is_file (fs_get (s_disk s') (u_tempFile u)))
      \<Longrightarrow> upload_files s'"
proof -
  have tmp: "u_tempFile u \<noteq> upload_file (s_basePath s) i" if "s_uploads s j = Some u" "j \<noteq> i" for j u
    using uploads_okD(2) [OF assms(1) that(1)] that(2) by simp
  show "fs_sess s' = (fs_sess s)(i := fs_sess s' i)"
  proof
    fix j
    show "fs_sess s' j = ((fs_sess s)(i := fs_sess s' i)) j"
      using assms(2,3) tmp by (cases "j = i") (auto simp: fs_sess_def file_at_content intro!: option.map_cong)
  qed
  show "upload_files s'" if "upload_files s"
    and "\<And>u. s_uploads s' i = Some u \<Longrightarrow> is_file (fs_get (s_disk s') (u_tempFile u))"
    unfolding upload_files_def
  proof (intro allI impI)
    fix j u
    assume up: "s_uploads s' j = Some u"
    show "is_file (fs_get (s_disk s') (u_tempFile u))"
    proof (cases "j = i")
      case True
      with up that(2) show ?thesis by simp
    next
      case False
      with up assms(3) have "s_uploads s j = Some u" by metis
      then show ?thesis
        using that(1) tmp False assms(2) unfolding upload_files_def is_file_content by metis
    qed
  qed
qed

text \<open>\<open>fs_safe\<close> and \<open>fs_inv\<close> after such a change.\<close>

lemma upload_file_safe:
  assumes "fs_safe e s" and "s_basePath s' = s_basePath s" and "wf_fs (s_disk s')"
    and "uploads_ok (s_basePath s) (s_uploads s')"
    and "\<And>q. q \<noteq> upload_file (s_basePath s) i \<Longrightarrow>
      content (fs_get (s_disk s') q) = content (fs_get (s_disk s) q)"
  shows "fs_safe e s'"
  using assms(1,3,4) upload_file_blobs [OF assms(2,5)]
  unfolding fs_safe_def assms(2) addressed_def by simp

lemma CreateUpload_cases:
  assumes "CreateUpload e repo s = (r, s')"
  obtains er where "r = Err er" and "s' = s"
  | er t1 where "r = Err er" and "s' = s\<lparr>s_disk := t1\<rparr>"
      and "os_MkdirAll e (s_disk s) (s_basePath s @ [''uploads'']) = Ok t1"
  | u t1 t2 where "r = Ok u"
      and "u = (NewUpload e (new_uuid e) repo)\<lparr>u_tempFile := uploadPath s (new_uuid e)\<rparr>"
      and "s' = s\<lparr>s_disk := t2, s_uploads := (s_uploads s)(new_uuid e \<mapsto> u)\<rparr>"
      and "os_MkdirAll e (s_disk s) (s_basePath s @ [''uploads'']) = Ok t1"
      and "os_Create e t1 (uploadPath s (new_uuid e)) = Ok t2"
  using assms unfolding CreateUpload_def Let_def
  by (auto simp: SetTempFile_def split: sum.splits)

lemma CreateUpload_effect:
  assumes "fs_safe e s" and "uuid_ok e" and "CreateUpload e repo s = (r, s')"
  shows "fs_safe e s'" and "fs_blobs s' = fs_blobs s"
    and "isOk r \<Longrightarrow> fs_sess s' = (fs_sess s)(new_uuid e \<mapsto> (0, []))"
    and "upload_files s \<Longrightarrow> upload_files s'"
    and "r = Ok up \<Longrightarrow> u_ID up = new_uuid e"
proof -
  let ?i = "new_uuid e"
  have i: "safe_comp ?i" "CHR ''.'' \<notin> set ?i" using assms(2) by (auto simp: uuid_ok_def)
  have safe: "wf_fs (s_disk s)" "uploads_ok (s_basePath s) (s_uploads s)"
    using assms(1) by (auto simp: fs_safe_def)
  have "fs_safe e s' \<and> fs_blobs s' = fs_blobs s \<and>
      (isOk r \<longrightarrow> fs_sess s' = (fs_sess s)(?i \<mapsto> (0, []))) \<and> (upload_files s \<longrightarrow> upload_files s') \<and>
      (r = Ok up \<longrightarrow> u_ID up = ?i)"
    using assms(3)
  proof (cases rule: CreateUpload_cases)
    case (1 er)
    then show ?thesis using assms(1) by simp
  next
    case (2 er t1)
    note same = grows_content [OF os_MkdirAll_grows [OF 2(3)]]
    have "fs_safe e s'"
      by (rule upload_file_safe [OF assms(1), where i = ?i])
        (use 2 safe os_MkdirAll_wf(1) same in auto)
    moreover have "fs_blobs s' = fs_blobs s" by (rule upload_file_blobs) (use 2 same in auto)
    moreover have "upload_files s' = upload_files s"
      using fs_sess_cong [of s' s] 2 same by auto
    ultimately show ?thesis using 2 by simp
  next
    case (3 u t1 t2)
    note path = uploadPath_upload_file [OF i(1), of s]
    have same: "content (fs_get t2 q) = content (fs_get (s_disk s) q)"
      if "q \<noteq> upload_file (s_basePath s) ?i" for q
      using that os_Create_same [OF 3(5)] grows_content [OF os_MkdirAll_grows [OF 3(4)]]
      by (simp add: path same_except_def)
    have created: "fs_get t2 (upload_file (s_basePath s) ?i) = Some (File [])"
      using os_Create_file [OF 3(5)] by (simp add: path)
    have "fs_safe e s'"
    proof (rule upload_file_safe [OF assms(1), where i = ?i])
      show "uploads_ok (s_basePath s) (s_uploads s')"
        using safe(2) i path 3(2,3) by (auto simp: uploads_ok_def NewUpload_def)
    qed (use 3 same safe os_Create_wf os_MkdirAll_wf(1) in auto)
    moreover have "fs_blobs s' = fs_blobs s" by (rule upload_file_blobs) (use 3 same in auto)
    moreover have "fs_sess s' = (fs_sess s)(?i \<mapsto> (0, []))"
    proof -
      have "fs_sess s' ?i = Some (0, [])"
        using 3(2,3) path created by (simp add: fs_sess_def NewUpload_def file_at_def)
      moreover have "fs_sess s' = (fs_sess s)(?i := fs_sess s' ?i)"
        by (rule upload_file_sess(1) [OF safe(2)]) (use 3(3) same in auto)
      ultimately show ?thesis by simp
    qed
    moreover have "upload_files s'" if "upload_files s"
      by (rule upload_file_sess(2) [OF safe(2) _ _ that, where i = ?i])
        (use 3(2,3) same created path in \<open>auto simp: is_file_def NewUpload_def\<close>)
    ultimately show ?thesis using 3(1,2) by (auto simp: NewUpload_def)
  qed
  then show "fs_safe e s'" and "fs_blobs s' = fs_blobs s"
    and "isOk r \<Longrightarrow> fs_sess s' = (fs_sess s)(new_uuid e \<mapsto> (0, []))"
    and "upload_files s \<Longrightarrow> upload_files s'"
    and "r = Ok up \<Longrightarrow> u_ID up = new_uuid e" by blast+
qed

lemma fs_sess_Some:
  assumes "uploads_ok (s_basePath s) (s_uploads s)" and "fs_sess s i = Some (n, c)"
  obtains u where "s_uploads s i = Some u" and "u_offset u = n"
    and "c = file_at (s_disk s) (upload_file (s_basePath s) i)"
    and "u_tempFile u = upload_file (s_basePath s) i" and "u_ID u = i"
    and "safe_comp i" and "CHR ''.'' \<notin> set i"
  using assms(2) uploads_okD [OF assms(1)] by (auto simp: fs_sess_def)

lemma fs_sess_None: "fs_sess s i = None \<longleftrightarrow> s_uploads s i = None"
  by (simp add: fs_sess_def)

lemma WriteUploadChunk_cases:
  assumes "WriteUploadChunk e i off rd s = (r, s')" and "s_uploads s i = Some u"
  obtains er where "r = Err er" and "er \<noteq> ErrUploadNotFound" and "s' = s"
  | er b n ok t1 where "r = Err er" and "er \<noteq> ErrUploadNotFound" and "s' = s\<lparr>s_disk := t1\<rparr>"
      and "os_OpenFile_W e (s_disk s) (u_tempFile u) = Ok b"
      and "io_Copy e (s_disk s) (u_tempFile u) (nat off) rd = (n, ok, t1)"
  | b n t1 where "r = Ok ()" and "0 \<le> off"
      and "os_OpenFile_W e (s_disk s) (u_tempFile u) = Ok b"
      and "io_Copy e (s_disk s) (u_tempFile u) (nat off) rd = (n, True, t1)"
      and "s' = s\<lparr>s_disk := t1, s_uploads := (s_uploads s)(i \<mapsto>
        AddSize (int n) (SetOffset (int64 (off + int n)) u))\<rparr>"
proof (cases "os_OpenFile_W e (s_disk s) (u_tempFile u)")
  case (Inl er)
  with assms show thesis
    by (intro that(1)) (auto simp: WriteUploadChunk_def GetUpload_def GetTempFile_def)
next
  case opened: (Inr b)
  show thesis
  proof (cases "off < 0 \<or> sys_fault e (SysSeek (u_tempFile u))")
    case True
    with assms opened show thesis
      by (intro that(1)) (auto simp: WriteUploadChunk_def GetUpload_def GetTempFile_def)
  next
    case False
    obtain n ok t1 where copy: "io_Copy e (s_disk s) (u_tempFile u) (nat off) rd = (n, ok, t1)"
      by (cases "io_Copy e (s_disk s) (u_tempFile u) (nat off) rd")
    note run = assms(1) [unfolded WriteUploadChunk_def GetUpload_def Let_def GetTempFile_def]
    show thesis
    proof (cases ok)
      case True
      with run assms(2) opened False copy show thesis by (intro that(3)) auto
    next
      case not: False
      with run assms(2) opened False copy show thesis
        by (cases "rfail rd"; intro that(2) [OF _ _ _ opened copy]) auto
    qed
  qed
qed

lemma os_OpenFile_W_file: "os_OpenFile_W e t p = Ok b \<Longrightarrow> fs_get t p = Some (File b)"
  by (auto simp: os_OpenFile_W_def dest!: lookup_OkD split: if_splits sum.splits node.splits)

lemma WriteUploadChunk_effect:
  assumes "fs_safe e s" and "WriteUploadChunk e i off rd s = (r, s')" and "s_uploads s i = Some u"
  shows "fs_safe e s'" and "fs_blobs s' = fs_blobs s" and "upload_files s \<Longrightarrow> upload_files s'"
    and "r = Err er \<Longrightarrow> er \<noteq> ErrUploadNotFound \<and>
      (\<exists>k. fs_sess s' = (fs_sess s)(i \<mapsto> (u_offset u,
        write_at (file_at (s_disk s) (u_tempFile u)) (nat off) (take k (rdata rd)))))"
    and "r = Ok v \<Longrightarrow> 0 \<le> off \<and> \<not> rfail rd \<and>
      fs_sess s' = (fs_sess s)(i \<mapsto> (int64 (off + int (length (rdata rd))),
        write_at (file_at (s_disk s) (u_tempFile u)) (nat off) (rdata rd)))"
proof -
  have safe: "wf_fs (s_disk s)" "uploads_ok (s_basePath s) (s_uploads s)"
    using assms(1) by (auto simp: fs_safe_def)
  have up: "u_tempFile u = upload_file (s_basePath s) i" "u_ID u = i" "safe_comp i" "CHR ''.'' \<notin> set i"
    using uploads_okD [OF safe(2) assms(3)] by auto
  have "fs_safe e s' \<and> fs_blobs s' = fs_blobs s \<and> (upload_files s \<longrightarrow> upload_files s') \<and>
      (r = Err er \<longrightarrow> er \<noteq> ErrUploadNotFound \<and>
      (\<exists>k. fs_sess s' = (fs_sess s)(i \<mapsto> (u_offset u,
        write_at (file_at (s_disk s) (u_tempFile u)) (nat off) (take k (rdata rd)))))) \<and>
      (r = Ok v \<longrightarrow> 0 \<le> off \<and> \<not> rfail rd \<and>
        fs_sess s' = (fs_sess s)(i \<mapsto> (int64 (off + int (length (rdata rd))),
          write_at (file_at (s_disk s) (u_tempFile u)) (nat off) (rdata rd))))"
    using assms(2,3)
  proof (cases rule: WriteUploadChunk_cases)
    case (1 er')
    moreover have "fs_sess s = (fs_sess s)(i \<mapsto> (u_offset u,
        write_at (file_at (s_disk s) (u_tempFile u)) (nat off) (take 0 (rdata rd))))"
      using assms(3) by (auto simp: fs_sess_def write_at_def)
    ultimately show ?thesis using assms(1) by (auto intro: exI [of _ 0])
  next
    case (2 er' b n ok t1)
    have same: "content (fs_get t1 q) = content (fs_get (s_disk s) q)"
      if "q \<noteq> upload_file (s_basePath s) i" for q
      using that io_Copy_same [OF 2(5)] by (simp add: up same_except_def)
    note written = io_Copy_wf [OF 2(5) safe(1) os_OpenFile_W_file [OF 2(4)]]
    have "fs_safe e s'"
      by (rule upload_file_safe [OF assms(1), where i = i]) (use 2 same safe written in auto)
    moreover have "fs_blobs s' = fs_blobs s" by (rule upload_file_blobs) (use 2 same in auto)
    moreover have "upload_files s'" if "upload_files s"
      by (rule upload_file_sess(2) [OF safe(2) _ _ that, where i = i])
        (use 2 same written assms(3) in \<open>auto simp: is_file_def\<close>)
    moreover have "fs_sess s' = (fs_sess s)(i := fs_sess s' i)"
      by (rule upload_file_sess(1) [OF safe(2)]) (use 2 same in auto)
    moreover obtain k where "fs_sess s' i = Some (u_offset u,
        write_at (file_at (s_disk s) (u_tempFile u)) (nat off) (take k (rdata rd)))"
      using io_Copy_prefix [OF 2(5) os_OpenFile_W_file [OF 2(4)]] os_OpenFile_W_file [OF 2(4)] 2(3) assms(3)
      by (auto simp: fs_sess_def file_at_def)
    ultimately show ?thesis using 2(1,2) by auto
  next
    case (3 b n t1)
    let ?u = "AddSize (int n) (SetOffset (int64 (off + int n)) u)"
    have same: "content (fs_get t1 q) = content (fs_get (s_disk s) q)"
      if "q \<noteq> upload_file (s_basePath s) i" for q
      using that io_Copy_same [OF 3(4)] by (simp add: up same_except_def)
    note opened = os_OpenFile_W_file [OF 3(3)]
    note written = io_Copy_wf [OF 3(4) safe(1) opened]
    note copied = io_Copy_ok [OF 3(4) opened]
    have "fs_safe e s'"
    proof (rule upload_file_safe [OF assms(1), where i = i])
      show "uploads_ok (s_basePath s) (s_uploads s')"
        using safe(2) up 3(5) by (auto simp: uploads_ok_def upload_defs)
    qed (use 3 same safe written in auto)
    moreover have "fs_blobs s' = fs_blobs s" by (rule upload_file_blobs) (use 3 same in auto)
    moreover have "upload_files s'" if "upload_files s"
      by (rule upload_file_sess(2) [OF safe(2) _ _ that, where i = i])
        (use 3 same written assms(3) in \<open>auto simp: is_file_def upload_defs\<close>)
    moreover have "fs_sess s' = (fs_sess s)(i := fs_sess s' i)"
      by (rule upload_file_sess(1) [OF safe(2)]) (use 3 same in auto)
    moreover have "fs_sess s' i = Some (int64 (off + int (length (rdata rd))),
        write_at (file_at (s_disk s) (u_tempFile u)) (nat off) (rdata rd))"
      using 3(5) copied opened by (simp add: fs_sess_def upload_defs file_at_def)
    ultimately show ?thesis using 3(1,2) copied(2) by auto
  qed
  then show "fs_safe e s'" and "fs_blobs s' = fs_blobs s" and "upload_files s \<Longrightarrow> upload_files s'"
    and "r = Err er \<Longrightarrow> er \<noteq> ErrUploadNotFound \<and>
      (\<exists>k. fs_sess s' = (fs_sess s)(i \<mapsto> (u_offset u,
        write_at (file_at (s_disk s) (u_tempFile u)) (nat off) (take k (rdata rd)))))"
    and "r = Ok v \<Longrightarrow> 0 \<le> off \<and> \<not> rfail rd \<and>
      fs_sess s' = (fs_sess s)(i \<mapsto> (int64 (off + int (length (rdata rd))),
        write_at (file_at (s_disk s) (u_tempFile u)) (nat off) (rdata rd)))" by blast+
qed

text \<open>Forgetting a session and its file.\<close>

definition drop_upload :: "env \<Rightarrow> string \<Rightarrow> Store \<Rightarrow> Store" where
  "drop_upload e i s = s\<lparr>s_uploads := (s_uploads s)(i := None),
     s_disk := remove_quietly e (s_disk s) (upload_file (s_basePath s) i)\<rparr>"

lemma drop_upload_effect:
  assumes "fs_safe e s"
  shows "fs_safe e (drop_upload e i s)" and "fs_blobs (drop_upload e i s) = fs_blobs s"
    and "fs_sess (drop_upload e i s) = (fs_sess s)(i := None)"
    and "upload_files s \<Longrightarrow> upload_files (drop_upload e i s)"
proof -
  let ?s = "drop_upload e i s"
  have safe: "wf_fs (s_disk s)" "uploads_ok (s_basePath s) (s_uploads s)"
    using assms by (auto simp: fs_safe_def)
  have same: "content (fs_get (s_disk ?s) q) = content (fs_get (s_disk s) q)"
    if "q \<noteq> upload_file (s_basePath s) i" for q
    using that by (simp add: drop_upload_def remove_quietly_other)
  have base: "s_basePath ?s = s_basePath s" by (simp add: drop_upload_def)
  show "fs_safe e ?s"
  proof (rule upload_file_safe [OF assms base _ _ same])
    show "wf_fs (s_disk ?s)" using safe(1) by (simp add: drop_upload_def remove_quietly_wf)
    show "uploads_ok (s_basePath s) (s_uploads ?s)"
      using safe(2) by (auto simp: drop_upload_def uploads_ok_def)
  qed
  show "fs_blobs ?s = fs_blobs s" by (rule upload_file_blobs [OF base same])
  have "fs_sess ?s = (fs_sess s)(i := fs_sess ?s i)"
    by (rule upload_file_sess(1) [OF safe(2) same]) (simp_all add: drop_upload_def)
  then show "fs_sess ?s = (fs_sess s)(i := None)" by (simp add: drop_upload_def fs_sess_def)
  show "upload_files ?s" if "upload_files s"
  proof (rule upload_file_sess(2) [OF safe(2) _ _ that, where i = i])
    fix q
    assume "q \<noteq> upload_file (s_basePath s) i"
    then show "content (fs_get (s_disk ?s) q) = content (fs_get (s_disk s) q)" by (rule same)
  qed (auto simp: drop_upload_def)
qed

lemma CancelUpload_Some:
  assumes "uploads_ok (s_basePath s) (s_uploads s)" and "s_uploads s i = Some u"
  shows "CancelUpload e i s = (Ok (), drop_upload e i s)"
  using assms(2) uploads_okD(2) [OF assms]
  by (simp add: CancelUpload_def GetUpload_def drop_upload_def upload_defs)

lemma CompleteUpload_cases:
  assumes "CompleteUpload e i d s = (r, s')" and "uploads_ok (s_basePath s) (s_uploads s)"
    and "s_uploads s i = Some u"
  obtains er where "r = Err er" and "er \<noteq> ErrUploadNotFound" and "s' = s"
  | er rd er1 where "r = Err er" and "er \<noteq> ErrUploadNotFound" and "PutBlob e d rd s = (Err er1, s')"
  | rd s1 where "r = Ok ()" and "os_Open e (s_disk s) (upload_file (s_basePath s) i) = Ok rd"
      and "PutBlob e d rd s = (Ok (), s1)" and "s' = drop_upload e i s1"
proof -
  have tmp: "u_tempFile u = upload_file (s_basePath s) i" using uploads_okD(2) [OF assms(2,3)] .
  have base: "s_basePath s1 = s_basePath s \<and> s_uploads s1 = s_uploads s"
    if "PutBlob e d rd s = (r1, s1)" for rd r1 s1
    using PutBlob_state [OF that] .
  show thesis
    using assms(1,3) that tmp base
    unfolding CompleteUpload_def GetUpload_def Let_def GetTempFile_def drop_upload_def
    by (auto split: sum.splits prod.splits)
qed

lemma os_Open_content:
  "os_Open e t p = Ok rd \<Longrightarrow> \<not> rfail rd \<Longrightarrow> content (fs_get t p) = Some (rdata rd)"
  by (auto simp: os_Open_def Let_def dest!: lookup_OkD split: sum.splits if_splits node.splits)

lemma CompleteUpload_effect:
  assumes "fs_safe e s" and "CompleteUpload e i d s = (r, s')" and "s_uploads s i = Some u"
  shows "fs_safe e s'" and "upload_files s \<Longrightarrow> upload_files s'"
    and "r = Err er \<Longrightarrow> er \<noteq> ErrUploadNotFound \<and> fs_sess s' = fs_sess s \<and> fs_blobs s' = fs_blobs s"
    and "r = Ok v \<Longrightarrow> sha256_digest (file_at (s_disk s) (upload_file (s_basePath s) i)) = d \<and>
      fs_sess s' = (fs_sess s)(i := None) \<and>
      fs_blobs s' = (fs_blobs s)(d \<mapsto> file_at (s_disk s) (upload_file (s_basePath s) i))"
proof -
  have safe: "digest_ok e" "uploads_ok (s_basePath s) (s_uploads s)"
    using assms(1) by (auto simp: fs_safe_def)
  have "fs_safe e s' \<and> (upload_files s \<longrightarrow> upload_files s') \<and>
      (r = Err er \<longrightarrow> er \<noteq> ErrUploadNotFound \<and> fs_sess s' = fs_sess s \<and> fs_blobs s' = fs_blobs s) \<and>
      (r = Ok v \<longrightarrow> sha256_digest (file_at (s_disk s) (upload_file (s_basePath s) i)) = d \<and>
        fs_sess s' = (fs_sess s)(i := None) \<and>
        fs_blobs s' = (fs_blobs s)(d \<mapsto> file_at (s_disk s) (upload_file (s_basePath s) i)))"
    using assms(2) safe(2) assms(3)
  proof (cases rule: CompleteUpload_cases)
    case (1 er')
    then show ?thesis using assms(1) by auto
  next
    case (2 er' rd er1)
    then show ?thesis
      using PutBlob_safe [OF assms(1) 2(3)] PutBlob_uploads [OF assms(1) 2(3)]
        PutBlob_blobs [OF safe(1) 2(3)] by auto
  next
    case (3 rd s1)
    have put: "sha256_digest (rdata rd) = d" "\<not> rfail rd"
      using PutBlob_success [OF 3(3)] by auto
    then have bytes: "file_at (s_disk s) (upload_file (s_basePath s) i) = rdata rd"
      using os_Open_content [OF 3(2)] by (simp add: file_at_content)
    have s1: "fs_safe e s1" "fs_sess s1 = fs_sess s" "upload_files s1 = upload_files s"
      "fs_blobs s1 = (fs_blobs s)(d \<mapsto> rdata rd)"
      using PutBlob_safe [OF assms(1) 3(3)] PutBlob_uploads [OF assms(1) 3(3)]
        PutBlob_blobs [OF safe(1) 3(3)] by simp_all
    show ?thesis
      using drop_upload_effect [OF s1(1), of i] s1(2-4) put(1) bytes 3(1,4) by simp
  qed
  then show "fs_safe e s'" and "upload_files s \<Longrightarrow> upload_files s'"
    and "r = Err er \<Longrightarrow> er \<noteq> ErrUploadNotFound \<and> fs_sess s' = fs_sess s \<and> fs_blobs s' = fs_blobs s"
    and "r = Ok v \<Longrightarrow> sha256_digest (file_at (s_disk s) (upload_file (s_basePath s) i)) = d \<and>
      fs_sess s' = (fs_sess s)(i := None) \<and>
      fs_blobs s' = (fs_blobs s)(d \<mapsto> file_at (s_disk s) (upload_file (s_basePath s) i))" by blast+
qed

lemma no_upload:
  assumes "s_uploads s i = None"
  shows "WriteUploadChunk e i off rd s = (Err ErrUploadNotFound, s)"
    and "CompleteUpload e i d s = (Err ErrUploadNotFound, s)"
    and "CancelUpload e i s = (Err ErrUploadNotFound, s)"
    and "GetUploadStatus i s = (Err ErrUploadNotFound, s)"
  using assms
  by (simp_all add: WriteUploadChunk_def CompleteUpload_def CancelUpload_def GetUploadStatus_def
      GetUpload_def)

subsection \<open>The contracts hold\<close>

lemma fs_invD:
  assumes "fs_inv e s"
  shows "fs_safe e s" and "uuid_ok e" and "upload_files s" and "digest_ok e" and "wf_fs (s_disk s)"
    and "addressed s" and "uploads_ok (s_basePath s) (s_uploads s)"
  using assms by (auto simp: fs_inv_def fs_safe_def)

lemma sess_upload:
  assumes "fs_inv e s" and "fs_sess s i = Some (n, c)"
  shows "\<exists>u. s_uploads s i = Some u \<and> u_offset u = n \<and>
    u_tempFile u = upload_file (s_basePath s) i \<and> c = file_at (s_disk s) (upload_file (s_basePath s) i)"
  using fs_sess_Some [OF fs_invD(7) [OF assms(1)] assms(2)] by metis

lemma GetBlob_unknown:
  assumes "GetBlob e d s = (Err ErrBlobNotFound, s')" and "wf_fs (s_disk s)"
  shows "content (fs_get (s_disk s') (blobPath e s' d)) = None"
proof -
  from assms(1) have s': "s' = s" and op: "os_Open e (s_disk s) (blobPath e s d) = Err ENOENT"
    by (auto simp: GetBlob_def Let_def split: sum.splits if_splits)
  from op have "lookup (s_disk s) (blobPath e s d) = Err ENOENT"
    by (auto simp: os_Open_def Let_def split: sum.splits if_splits node.splits)
  then show ?thesis using lookup_Err_wf [OF assms(2)] s' by simp
qed

text \<open>Any invariant that implies safety and that putting and deleting keep makes it a blob store.\<close>

lemma fs_blob_store:
  assumes safe: "\<And>s. I s \<Longrightarrow> fs_safe e s"
    and put: "\<And>d rd s r s'. I s \<Longrightarrow> PutBlob e d rd s = (r, s') \<Longrightarrow> I s'"
    and del: "\<And>d s r s'. I s \<Longrightarrow> canonical_digest d \<Longrightarrow> DeleteBlob e d s = (r, s') \<Longrightarrow> I s'"
  shows "blob_store (fs_ops e) I fs_blobs"
proof (unfold_locales, simp_all only: fs_ops_sel)
  have D: "digest_ok e" "wf_fs (s_disk s)" "addressed s" if "I s" for s
    using safe [OF that] by (simp_all add: fs_safe_def)
  fix s s' d and b :: bytes and rg rd r u er rx rz n
  show "sha256_digest b = d" if "I s" "fs_blobs s d = Some b"
    using D(3) [OF that(1)] that(2) by (simp add: addressed_def)
  show "I s' \<and> fs_blobs s \<subseteq>\<^sub>m fs_blobs s'" if "I s" "GetBlob e d s = (rg, s')"
    using that(1) GetBlob_state [OF that(2)] by simp
  show "fs_blobs s' d = Some (rdata rd)"
    if "I s" "canonical_digest d" "GetBlob e d s = (Ok rd, s')" "\<not> rfail rd"
    using GetBlob_Ok [OF that(3,4)] GetBlob_state [OF that(3)] D(1) [OF that(1)] that(2)
    by (simp add: fs_blobs_path)
  show "I s'" if "I s" "PutBlob e d rd s = (r, s')"
    using that by (rule put)
  show "sha256_digest (rdata rd) = d \<and> fs_blobs s' = (fs_blobs s)(d \<mapsto> rdata rd)"
    if "I s" "PutBlob e d rd s = (Ok u, s')"
    using PutBlob_success [OF that(2)] PutBlob_blobs [OF D(1) [OF that(1)] that(2)] by simp
  show "fs_blobs s' = fs_blobs s" if "I s" "PutBlob e d rd s = (Err er, s')"
    using PutBlob_blobs [OF D(1) [OF that(1)] that(2)] by simp
  show "I s' \<and> fs_blobs s \<subseteq>\<^sub>m fs_blobs s'" if "I s" "BlobExists e d s = (rx, s')"
    using that(1) BlobExists_state [OF that(2)] by simp
  show "fs_blobs s d = None"
    if "I s" "canonical_digest d" "BlobExists e d s = (Ok False, s')"
    using BlobExists_False [OF that(3) D(2) [OF that(1)]] D(1) [OF that(1)] that(2)
    by (simp add: fs_blobs_path)
  show "fs_blobs s' d = None"
    if "I s" "canonical_digest d" "GetBlob e d s = (Err ErrBlobNotFound, s')"
    using GetBlob_unknown [OF that(3) D(2) [OF that(1)]] D(1) [OF that(1)] that(2) by (simp add: fs_blobs_path)
  show "I s' \<and> fs_blobs s' = fs_blobs s" if "I s" "GetBlobSize e d s = (rz, s')"
    using that(1) GetBlobSize_state [OF that(2)] by simp
  show "n = int (length b)"
    if "I s" "canonical_digest d" "GetBlobSize e d s = (Ok n, s')" "fs_blobs s d = Some b"
    using GetBlobSize_Ok [OF that(3)] D(1) [OF that(1)] that(2,4) by (simp add: fs_blobs_path)
  show "I s'" if "I s" "canonical_digest d" "DeleteBlob e d s = (r, s')"
    using that by (rule del)
  show "fs_blobs s' = (fs_blobs s)(d := None)"
    if "I s" "canonical_digest d" "DeleteBlob e d s = (Ok u, s')"
    using DeleteBlob_blobs [OF safe [OF that(1)] that(2,3)] .
  show "fs_blobs s' = fs_blobs s"
    if "I s" "canonical_digest d" "DeleteBlob e d s = (Err er, s')"
    using DeleteBlob_Err [OF that(3)] by simp
qed

interpretation fsb: blob_store "fs_ops e" "fs_inv e" fs_blobs for e
  by (rule fs_blob_store [OF fs_invD(1)]) (auto intro: PutBlob_inv DeleteBlob_inv)

interpretation fss: blob_store "fs_ops e" "fs_safe e" fs_blobs for e
  by (rule fs_blob_store) (auto dest: PutBlob_safe DeleteBlob_safe)

interpretation fsu: upload_store "fs_ops e" "fs_inv e" fs_blobs fs_sess for e
proof (unfold_locales, simp_all only: fs_ops_sel)
  fix s s' d i n off c repo x and r rc :: "error + 'b" and ru :: "error + unit" and er u up rd
  note D = fs_invD
  show "fs_sess s' = fs_sess s" if "fs_inv e s" "PutBlob e d rd s = (ru, s')"
    using PutBlob_uploads(1) [OF D(1) [OF that(1)] that(2)] .
  show "fs_inv e s' \<and> fs_blobs s' = fs_blobs s"
    if "fs_inv e s" "CreateUpload e repo s = (rc, s')" for rc
    using CreateUpload_effect [OF D(1,2) [OF that(1)] that(2)] that(1) by (simp add: fs_inv_def)
  show "fs_sess s' = (fs_sess s)(u_ID up \<mapsto> (0, []))"
    if "fs_inv e s" "CreateUpload e repo s = (Ok up, s')"
    using CreateUpload_effect(3,5) [OF D(1,2) [OF that(1)] that(2)] by simp
  show "GetUploadStatus i s =
      (case fs_sess s i of None \<Rightarrow> Err ErrUploadNotFound | Some (off, _) \<Rightarrow> Ok off, s)"
    by (auto simp: GetUploadStatus_def GetUpload_def fs_sess_def GetOffset_def split: option.splits)
  show "fs_inv e s' \<and> fs_blobs s' = fs_blobs s \<and> fs_sess s' = fs_sess s"
    if "fs_inv e s" "GetUpload i s = (rg, s')" for rg
    using that by (auto simp: GetUpload_def split: option.splits)
  show "GetUpload i s = (Err ErrUploadNotFound, s)" if "fs_sess s i = None"
    using that by (auto simp: GetUpload_def fs_sess_None)
  show "WriteUploadChunk e i off rd s = (Err ErrUploadNotFound, s)" if "fs_sess s i = None"
    using that no_upload by (simp add: fs_sess_None)
  show "fs_inv e s' \<and> fs_blobs s' = fs_blobs s"
    if "fs_inv e s" "WriteUploadChunk e i off rd s = (ru, s')"
    using WriteUploadChunk_effect(1-3) [OF D(1) [OF that(1)] that(2)] that no_upload(1) [of s i]
    by (cases "s_uploads s i") (auto simp: fs_inv_def)
  show "0 \<le> off \<and> \<not> rfail rd \<and> fs_sess s' = (fs_sess s)
      (i \<mapsto> (int64 (off + int (length (rdata rd))), write_at c (nat off) (rdata rd)))"
    if "fs_inv e s" "fs_sess s i = Some (n, c)" "WriteUploadChunk e i off rd s = (Ok u, s')"
    using sess_upload [OF that(1,2)] WriteUploadChunk_effect(5) [OF D(1) [OF that(1)] that(3)] by auto
  show "er \<noteq> ErrUploadNotFound \<and> (\<exists>c'. fs_sess s' = (fs_sess s)(i \<mapsto> (n, c')))"
    if "fs_inv e s" "fs_sess s i = Some (n, c)" "WriteUploadChunk e i off rd s = (Err er, s')"
    using sess_upload [OF that(1,2)] WriteUploadChunk_effect(4) [OF D(1) [OF that(1)] that(3)] by auto
  show "CompleteUpload e i d s = (Err ErrUploadNotFound, s)" if "fs_sess s i = None"
    using that no_upload by (simp add: fs_sess_None)
  show "fs_inv e s'" if "fs_inv e s" "CompleteUpload e i d s = (ru, s')"
    using CompleteUpload_effect(1,2) [OF D(1) [OF that(1)] that(2)] that no_upload(2) [of s i]
    by (cases "s_uploads s i") (auto simp: fs_inv_def)
  show "sha256_digest c = d \<and> fs_sess s' = (fs_sess s)(i := None) \<and>
      fs_blobs s' = (fs_blobs s)(d \<mapsto> c)"
    if "fs_inv e s" "fs_sess s i = Some (n, c)" "CompleteUpload e i d s = (Ok u, s')"
    using sess_upload [OF that(1,2)] CompleteUpload_effect(4) [OF D(1) [OF that(1)] that(3)] by auto
  show "er \<noteq> ErrUploadNotFound \<and> fs_sess s' = fs_sess s \<and> fs_blobs s' = fs_blobs s"
    if "fs_inv e s" "fs_sess s i = Some (n, c)" "CompleteUpload e i d s = (Err er, s')"
    using sess_upload [OF that(1,2)] CompleteUpload_effect(3) [OF D(1) [OF that(1)] that(3)] by auto
  show "CancelUpload e i s = (Err ErrUploadNotFound, s)" if "fs_sess s i = None"
    using that no_upload by (simp add: fs_sess_None)
  show "ru = Ok () \<and> fs_inv e s' \<and> fs_sess s' = (fs_sess s)(i := None) \<and> fs_blobs s' = fs_blobs s"
    if "fs_inv e s" "fs_sess s i = Some x" "CancelUpload e i s = (ru, s')"
  proof -
    from that(2) obtain u where "s_uploads s i = Some u" by (auto simp: fs_sess_def)
    then have "ru = Ok () \<and> s' = drop_upload e i s"
      using CancelUpload_Some [OF D(7) [OF that(1)]] that(3) by simp
    then show ?thesis
      using drop_upload_effect [OF D(1) [OF that(1)]] that(1) by (simp add: fs_inv_def)
  qed
qed

end
