(* ===== verification/Http.thy ===== *)
theory Http
  imports Storage
begin

text \<open>
  The part of \<open>net/http\<close> and \<open>net/url\<close> the handlers use, and the registry's error
  responses (\<open>internal/errors/oci.go\<close>). A request is its method, path, parsed query values,
  headers, body reader and declared length; a response writer collects headers until
  \<open>WriteHeader\<close> fixes them, and then body bytes.
\<close>

subsection \<open>Headers\<close>

definition upper :: "char \<Rightarrow> char" where
  "upper c = (let n = ord c in if 97 \<le> n \<and> n \<le> 122 then char_of (n - 32) else c)"

definition lower1 :: "char \<Rightarrow> char" where
  "lower1 c = (let n = ord c in if 65 \<le> n \<and> n \<le> 90 then char_of (n + 32) else c)"

text \<open>\<open>CanonicalHeaderKey\<close>: upper case at the start and after a hyphen, lower elsewhere.\<close>

fun canon_from :: "bool \<Rightarrow> string \<Rightarrow> string" where
  "canon_from up [] = []"
| "canon_from up (c # cs) = (if up then upper c else lower1 c) # canon_from (c = CHR ''-'') cs"

definition canon_key :: "string \<Rightarrow> string" where
  "canon_key = canon_from True"

type_synonym header = "(string \<times> string) list"

text \<open>\<open>Header.Get\<close> (empty when absent) and \<open>Header.Set\<close>.\<close>

definition h_get :: "header \<Rightarrow> string \<Rightarrow> string" where
  "h_get h k = (case map_of h (canon_key k) of None \<Rightarrow> [] | Some v \<Rightarrow> v)"

definition h_set :: "string \<Rightarrow> string \<Rightarrow> header \<Rightarrow> header" where
  "h_set k v h = AList.update (canon_key k) v h"

lemma h_get_set [simp]: "h_get (h_set k v h) k = v"
  by (simp add: h_get_def h_set_def update_conv')

lemma h_get_set_other [simp]: "canon_key k' \<noteq> canon_key k \<Longrightarrow> h_get (h_set k v h) k' = h_get h k'"
  by (simp add: h_get_def h_set_def update_conv')

subsection \<open>Queries\<close>

text \<open>\<open>url.Values\<close>: each key with its values; \<open>Get\<close> takes the first.\<close>

type_synonym url_values = "(string \<times> string list) list"

definition q_get :: "url_values \<Rightarrow> string \<Rightarrow> string" where
  "q_get q k = (case map_of q k of Some (v # _) \<Rightarrow> v | _ \<Rightarrow> [])"

definition q_set :: "string \<Rightarrow> string \<Rightarrow> url_values \<Rightarrow> url_values" where
  "q_set k v q = AList.update k [v] q"

lemma q_get_set [simp]: "q_get (q_set k v q) k = v"
  by (simp add: q_get_def q_set_def update_conv')

lemma q_get_set_other [simp]: "k' \<noteq> k \<Longrightarrow> q_get (q_set k v q) k' = q_get q k'"
  by (simp add: q_get_def q_set_def update_conv')

definition upper_hex :: "nat \<Rightarrow> char" where
  "upper_hex d = ''0123456789ABCDEF'' ! d"

definition pct :: "char \<Rightarrow> string" where
  "pct c = [CHR 0x25, upper_hex (ord c div 16), upper_hex (ord c mod 16)]"

definition unreserved :: "char \<Rightarrow> bool" where
  "unreserved c \<longleftrightarrow> (let n = ord c in (48 \<le> n \<and> n \<le> 57) \<or> (65 \<le> n \<and> n \<le> 90) \<or> (97 \<le> n \<and> n \<le> 122)) \<or>
     c \<in> set ''-_.~''"

definition QueryEscape :: "string \<Rightarrow> string" where
  "QueryEscape s = concat (map (\<lambda>c. if unreserved c then [c] else if c = CHR '' '' then ''+'' else pct c) s)"

definition PathEscape :: "string \<Rightarrow> string" where
  "PathEscape s = concat (map (\<lambda>c. if unreserved c \<or> c \<in> set ''$&+,/:;=@'' then [c] else pct c) s)"

definition amp_join :: "string list \<Rightarrow> string" where
  "amp_join ss = (case ss of [] \<Rightarrow> [] | x # xs \<Rightarrow> x @ concat (map ((#) CHR ''&'') xs))"

text \<open>\<open>Values.Encode\<close>: keys in order.\<close>

definition q_encode :: "url_values \<Rightarrow> string" where
  "q_encode q = amp_join (concat (map (\<lambda>k. case map_of q k of
       None \<Rightarrow> [] | Some vs \<Rightarrow> map (\<lambda>v. QueryEscape k @ CHR ''='' # QueryEscape v) vs)
     (sort (remdups (map fst q)))))"

subsection \<open>Requests and responses\<close>

record request =
  r_Method :: string
  r_Path :: string
  r_Query :: url_values
  r_Header :: header
  r_Body :: reader
  r_ContentLength :: int

definition GetParam :: "request \<Rightarrow> string \<Rightarrow> string" where
  "GetParam r name = q_get (r_Query r) (''route_'' @ name)"

text \<open>A response writer: the header map, what \<open>WriteHeader\<close> sent (status and the headers at
  that moment), the body, and whether copying a body ended early because its reader failed.\<close>

record rw =
  w_header :: header
  w_sent :: "(nat \<times> header) option"
  w_body :: bytes
  w_cut :: bool

definition new_rw :: rw where
  "new_rw = \<lparr>w_header = [], w_sent = None, w_body = [], w_cut = False\<rparr>"

definition SetHeader :: "string \<Rightarrow> string \<Rightarrow> rw \<Rightarrow> rw" where
  "SetHeader k v w = w\<lparr>w_header := h_set k v (w_header w)\<rparr>"

definition WriteHeader :: "nat \<Rightarrow> rw \<Rightarrow> rw" where
  "WriteHeader n w = (case w_sent w of None \<Rightarrow> w\<lparr>w_sent := Some (n, w_header w)\<rparr> | Some _ \<Rightarrow> w)"

definition WriteBody :: "bytes \<Rightarrow> rw \<Rightarrow> rw" where
  "WriteBody b w = (let w1 = WriteHeader 200 w in w1\<lparr>w_body := w_body w1 @ b\<rparr>)"

text \<open>\<open>io.Copy(w, reader)\<close>.\<close>

definition CopyBody :: "reader \<Rightarrow> rw \<Rightarrow> rw" where
  "CopyBody rd w = (WriteBody (rdata rd) w)\<lparr>w_cut := rfail rd\<rparr>"

definition status :: "rw \<Rightarrow> nat" where
  "status w = (case w_sent w of None \<Rightarrow> 200 | Some (n, _) \<Rightarrow> n)"

definition sent_header :: "rw \<Rightarrow> string \<Rightarrow> string" where
  "sent_header w k = h_get (case w_sent w of None \<Rightarrow> w_header w | Some (_, h) \<Rightarrow> h) k"

text \<open>A writer nothing has been sent on.\<close>

definition unsent :: "rw \<Rightarrow> bool" where
  "unsent w \<longleftrightarrow> w_sent w = None \<and> w_body w = [] \<and> \<not> w_cut w"

lemma unsent_new [simp]: "unsent new_rw"
  by (simp add: unsent_def new_rw_def)

lemma unsent_SetHeader [simp]: "unsent (SetHeader k v w) = unsent w"
  by (simp add: unsent_def SetHeader_def)

lemma SetHeader_sel [simp]: "w_header (SetHeader k v w) = h_set k v (w_header w)"
  by (simp add: SetHeader_def)

lemma status_WriteHeader [simp]: "unsent w \<Longrightarrow> status (WriteHeader n w) = n"
  by (simp add: status_def WriteHeader_def unsent_def)

lemma body_WriteHeader [simp]: "unsent w \<Longrightarrow> w_body (WriteHeader n w) = []"
  by (simp add: WriteHeader_def unsent_def)

lemma sent_WriteHeader [simp]: "unsent w \<Longrightarrow> sent_header (WriteHeader n w) k = h_get (w_header w) k"
  by (simp add: sent_header_def WriteHeader_def unsent_def)

lemma WriteBody_sent [simp]:
  "unsent w \<Longrightarrow> status (WriteBody b (WriteHeader n w)) = n"
  "unsent w \<Longrightarrow> w_body (WriteBody b (WriteHeader n w)) = b"
  "unsent w \<Longrightarrow> sent_header (WriteBody b (WriteHeader n w)) k = h_get (w_header w) k"
  by (simp_all add: status_def sent_header_def WriteBody_def WriteHeader_def Let_def unsent_def)

lemma CopyBody_sent [simp]:
  "unsent w \<Longrightarrow> status (CopyBody rd (WriteHeader n w)) = n"
  "unsent w \<Longrightarrow> w_body (CopyBody rd (WriteHeader n w)) = rdata rd"
  "unsent w \<Longrightarrow> sent_header (CopyBody rd (WriteHeader n w)) k = h_get (w_header w) k"
  "w_cut (CopyBody rd w') = rfail rd"
  by (simp_all add: status_def sent_header_def CopyBody_def WriteBody_def WriteHeader_def Let_def unsent_def)

text \<open>\<open>json.NewEncoder(w).Encode\<close>: the value and a line feed.\<close>

definition Encode :: "json \<Rightarrow> rw \<Rightarrow> rw" where
  "Encode j w = WriteBody (Marshal j @ [10]) w"

lemma Encode_sent [simp]: "unsent w \<Longrightarrow> status (Encode j (WriteHeader n w)) = n"
  "unsent w \<Longrightarrow> sent_header (Encode j (WriteHeader n w)) k = h_get (w_header w) k"
  "unsent w \<Longrightarrow> w_body (Encode j (WriteHeader n w)) = Marshal j @ [10]"
  by (simp_all add: Encode_def)

subsection \<open>OCI errors\<close>

record OCIError =
  oe_Code :: string
  oe_Message :: string
  oe_Detail :: string

definition NewOCIError :: "string \<Rightarrow> string \<Rightarrow> string \<Rightarrow> OCIError" where
  "NewOCIError code message detail = \<lparr>oe_Code = code, oe_Message = message, oe_Detail = detail\<rparr>"

definition oci_json :: "OCIError \<Rightarrow> json" where
  "oci_json er = JObj ([(''code'', JStr (oe_Code er)), (''message'', JStr (oe_Message er))]
     @ omit_str ''detail'' (oe_Detail er))"

definition NewOCIErrorResponse :: "OCIError list \<Rightarrow> json" where
  "NewOCIErrorResponse errors = JObj [(''errors'', JArr (map oci_json errors))]"

definition WriteErrorResponse :: "nat \<Rightarrow> OCIError list \<Rightarrow> rw \<Rightarrow> rw" where
  "WriteErrorResponse statusCode errors w =
     Encode (NewOCIErrorResponse errors)
       (WriteHeader statusCode (SetHeader ''Content-Type'' ''application/json'' w))"

lemma WriteErrorResponse_status [simp]: "unsent w \<Longrightarrow> status (WriteErrorResponse n es w) = n"
  by (simp add: WriteErrorResponse_def)

definition BlobUnknown :: "string \<Rightarrow> OCIError" where
  "BlobUnknown digest = NewOCIError ''BLOB_UNKNOWN'' ''blob unknown to registry'' digest"

definition BlobUploadInvalid :: "string \<Rightarrow> OCIError" where
  "BlobUploadInvalid detail = NewOCIError ''BLOB_UPLOAD_INVALID'' ''blob upload invalid'' detail"

definition BlobUploadUnknown :: "string \<Rightarrow> OCIError" where
  "BlobUploadUnknown uploadID =
     NewOCIError ''BLOB_UPLOAD_UNKNOWN'' ''blob upload unknown to registry'' uploadID"

definition DigestInvalid :: "string \<Rightarrow> OCIError" where
  "DigestInvalid digest =
     NewOCIError ''DIGEST_INVALID'' ''provided digest did not match uploaded content'' digest"

definition ManifestBlobUnknown :: "string \<Rightarrow> OCIError" where
  "ManifestBlobUnknown digest =
     NewOCIError ''MANIFEST_BLOB_UNKNOWN''
       ''manifest references a manifest or blob unknown to registry'' digest"

definition ManifestInvalid :: "string \<Rightarrow> OCIError" where
  "ManifestInvalid detail = NewOCIError ''MANIFEST_INVALID'' ''manifest invalid'' detail"

definition ManifestUnknown :: "string \<Rightarrow> OCIError" where
  "ManifestUnknown reference = NewOCIError ''MANIFEST_UNKNOWN'' ''manifest unknown to registry'' reference"

definition NameInvalid :: "string \<Rightarrow> OCIError" where
  "NameInvalid name = NewOCIError ''NAME_INVALID'' ''invalid repository name'' name"

definition NameUnknown :: "string \<Rightarrow> OCIError" where
  "NameUnknown name = NewOCIError ''NAME_UNKNOWN'' ''repository name not known to registry'' name"

definition SizeInvalid :: "string \<Rightarrow> OCIError" where
  "SizeInvalid detail =
     NewOCIError ''SIZE_INVALID'' ''provided length did not match content length'' detail"

definition Unauthorized :: "string \<Rightarrow> OCIError" where
  "Unauthorized detail = NewOCIError ''UNAUTHORIZED'' ''authentication required'' detail"

definition Denied :: "string \<Rightarrow> OCIError" where
  "Denied detail = NewOCIError ''DENIED'' ''requested access to the resource is denied'' detail"

definition Unsupported :: "string \<Rightarrow> OCIError" where
  "Unsupported detail = NewOCIError ''UNSUPPORTED'' ''the operation is unsupported'' detail"

definition TooManyRequests :: "string \<Rightarrow> OCIError" where
  "TooManyRequests detail = NewOCIError ''TOOMANYREQUESTS'' ''too many requests'' detail"

text \<open>The answer to an unexpected error of the store.\<close>

definition internal_error :: "error \<Rightarrow> rw \<Rightarrow> rw" where
  "internal_error er w =
     WriteErrorResponse 500 [NewOCIError ''UNKNOWN'' ''internal server error'' (Error er)] w"

lemma internal_error_status [simp]: "unsent w \<Longrightarrow> status (internal_error er w) = 500"
  by (simp add: internal_error_def)

end
