(* ===== verification/BlobHandler.thy ===== *)
theory BlobHandler
  imports FsUploads Http
begin

text \<open>
  \<open>internal/api/handlers/blobs.go\<close> and \<open>registry.go\<close>: reading, probing and deleting blobs
  over any store. A handler takes the store's methods, the request, the response writer and the
  state of the store. What the blob contract gives is proved for every store that meets it.
\<close>

definition handleRangeRequest :: "request \<Rightarrow> reader \<Rightarrow> int \<Rightarrow> string \<Rightarrow> rw \<Rightarrow> rw" where
  "handleRangeRequest r reader sz rangeHeader w =
     CopyBody reader (WriteHeader 206
       (SetHeader ''Content-Range'' (''bytes 0-'' @ Itoa (int64 (sz - 1)) @ ''/'' @ Itoa sz)
         (SetHeader ''Accept-Ranges'' ''bytes'' w)))"

definition blob_headers :: "string \<Rightarrow> int \<Rightarrow> rw \<Rightarrow> rw" where
  "blob_headers digest sz w =
     SetHeader ''Docker-Content-Digest'' digest
       (SetHeader ''Content-Length'' (Itoa sz)
         (SetHeader ''Content-Type'' ''application/octet-stream'' w))"

definition BlobHandler_GetBlob :: "'s store_ops \<Rightarrow> request \<Rightarrow> rw \<Rightarrow> 's \<Rightarrow> rw \<times> 's" where
  "BlobHandler_GetBlob ops r w s =
     (let digest = GetParam r ''digest'' in
      case op_BlobExists ops digest s of
        (Err er, s1) \<Rightarrow> (internal_error er w, s1)
      | (Ok False, s1) \<Rightarrow> (WriteErrorResponse 404 [BlobUnknown digest] w, s1)
      | (Ok True, s1) \<Rightarrow>
        (case op_GetBlob ops digest s1 of
           (Err er, s2) \<Rightarrow> (internal_error er w, s2)
         | (Ok reader, s2) \<Rightarrow>
           (case op_GetBlobSize ops digest s2 of
              (Err er, s3) \<Rightarrow> (internal_error er w, s3)
            | (Ok sz, s3) \<Rightarrow>
                (let w1 = blob_headers digest sz w; rangeHeader = h_get (r_Header r) ''Range'' in
                 (if rangeHeader \<noteq> [] then handleRangeRequest r reader sz rangeHeader w1
                  else CopyBody reader (WriteHeader 200 w1), s3)))))"

definition BlobHandler_HeadBlob :: "'s store_ops \<Rightarrow> request \<Rightarrow> rw \<Rightarrow> 's \<Rightarrow> rw \<times> 's" where
  "BlobHandler_HeadBlob ops r w s =
     (let digest = GetParam r ''digest'' in
      case op_BlobExists ops digest s of
        (Err er, s1) \<Rightarrow> (internal_error er w, s1)
      | (Ok False, s1) \<Rightarrow> (WriteErrorResponse 404 [BlobUnknown digest] w, s1)
      | (Ok True, s1) \<Rightarrow>
        (case op_GetBlobSize ops digest s1 of
           (Err er, s2) \<Rightarrow> (internal_error er w, s2)
         | (Ok sz, s2) \<Rightarrow> (WriteHeader 200 (blob_headers digest sz w), s2)))"

definition BlobHandler_DeleteBlob :: "'s store_ops \<Rightarrow> request \<Rightarrow> rw \<Rightarrow> 's \<Rightarrow> rw \<times> 's" where
  "BlobHandler_DeleteBlob ops r w s =
     (let digest = GetParam r ''digest'' in
      case op_BlobExists ops digest s of
        (Err er, s1) \<Rightarrow> (internal_error er w, s1)
      | (Ok False, s1) \<Rightarrow> (WriteErrorResponse 404 [BlobUnknown digest] w, s1)
      | (Ok True, s1) \<Rightarrow>
        (case op_DeleteBlob ops digest s1 of
           (Err er, s2) \<Rightarrow> (internal_error er w, s2)
         | (Ok _, s2) \<Rightarrow> (WriteHeader 202 w, s2)))"

definition RegistryHandler_CheckAPI :: "request \<Rightarrow> rw \<Rightarrow> rw" where
  "RegistryHandler_CheckAPI r w =
     Encode (JObj [(''message'', JStr ''OCI Registry API v2'')])
       (WriteHeader 200 (SetHeader ''Content-Type'' ''application/json'' w))"

lemma unsent_blob_headers [simp]: "unsent (blob_headers digest sz w) = unsent w"
  by (simp add: blob_headers_def)

lemma canon_keys [simp]:
  "canon_key ''Content-Length'' = ''Content-Length''" "canon_key ''Content-Type'' = ''Content-Type''"
  "canon_key ''Docker-Content-Digest'' = ''Docker-Content-Digest''"
  "canon_key ''Content-Range'' = ''Content-Range''" "canon_key ''Accept-Ranges'' = ''Accept-Ranges''"
  "canon_key ''Location'' = ''Location''" "canon_key ''Range'' = ''Range''"
  "canon_key ''Link'' = ''Link''" "canon_key ''Accept'' = ''Accept''"
  by code_simp+

lemma blob_headers_get [simp]:
  "h_get (w_header (blob_headers digest sz w)) ''Content-Length'' = Itoa sz"
  "h_get (w_header (blob_headers digest sz w)) ''Docker-Content-Digest'' = digest"
  by (simp_all add: blob_headers_def)

lemma handleRangeRequest_sent [simp]:
  "unsent w \<Longrightarrow> status (handleRangeRequest r rd n x w) = 206"
  "unsent w \<Longrightarrow> w_body (handleRangeRequest r rd n x w) = rdata rd"
  "w_cut (handleRangeRequest r rd n x w) = rfail rd"
  "unsent w \<Longrightarrow> sent_header (handleRangeRequest r rd n x w) ''Content-Length'' =
     h_get (w_header w) ''Content-Length''"
  by (simp_all add: handleRangeRequest_def)

text \<open>The ways a GET ends.\<close>

lemma GetBlob_handler_cases:
  assumes "BlobHandler_GetBlob ops r w s = (w', s')" and "unsent w"
  obtains er s1 where "op_BlobExists ops (GetParam r ''digest'') s = (Err er, s')" and "status w' = 500"
  | "op_BlobExists ops (GetParam r ''digest'') s = (Ok False, s')" and "status w' = 404"
  | er s1 where "op_BlobExists ops (GetParam r ''digest'') s = (Ok True, s1)"
      and "op_GetBlob ops (GetParam r ''digest'') s1 = (Err er, s')" and "status w' = 500"
  | er s1 s2 rd where "op_BlobExists ops (GetParam r ''digest'') s = (Ok True, s1)"
      and "op_GetBlob ops (GetParam r ''digest'') s1 = (Ok rd, s2)"
      and "op_GetBlobSize ops (GetParam r ''digest'') s2 = (Err er, s')" and "status w' = 500"
  | s1 s2 rd n where "op_BlobExists ops (GetParam r ''digest'') s = (Ok True, s1)"
      and "op_GetBlob ops (GetParam r ''digest'') s1 = (Ok rd, s2)"
      and "op_GetBlobSize ops (GetParam r ''digest'') s2 = (Ok n, s')"
      and "status w' = (if h_get (r_Header r) ''Range'' = [] then 200 else 206)"
      and "w_body w' = rdata rd" and "w_cut w' = rfail rd"
      and "sent_header w' ''Content-Length'' = Itoa n"
  using assms unfolding BlobHandler_GetBlob_def Let_def
  by (auto split: prod.splits sum.splits bool.splits if_splits)

context blob_store
begin

text \<open>A GET answered with a body read to its end: the body is the blob, it hashes to the digest,
  and \<open>Content-Length\<close> is its length.\<close>

lemma get_handler_hash:
  assumes "inv s" and "canonical_digest (GetParam r ''digest'')" and "unsent w"
    and "BlobHandler_GetBlob ops r w s = (w', s')" and "status w' < 300" and "\<not> w_cut w'"
  shows "sha256_digest (w_body w') = GetParam r ''digest''"
    and "sent_header w' ''Content-Length'' = Itoa (int (length (w_body w')))"
    and "blobs s' (GetParam r ''digest'') = Some (w_body w')" and "inv s'"
proof -
  let ?d = "GetParam r ''digest''"
  from assms(4,3) obtain s1 s2 rd n where run: "op_BlobExists ops ?d s = (Ok True, s1)"
    "op_GetBlob ops ?d s1 = (Ok rd, s2)" "op_GetBlobSize ops ?d s2 = (Ok n, s')"
    and w': "w_body w' = rdata rd" "w_cut w' = rfail rd" "sent_header w' ''Content-Length'' = Itoa n"
    by (rule GetBlob_handler_cases) (use assms(5) in auto)
  note i1 = exists_inv [OF assms(1) run(1)]
  note i2 = get_inv [OF conjunct1 [OF i1] run(2)]
  note i3 = size_inv [OF conjunct1 [OF i2] run(3)]
  have b2: "blobs s2 ?d = Some (rdata rd)"
    using get_Ok [OF conjunct1 [OF i1] assms(2) run(2)] assms(6) w'(2) by simp
  then have n: "n = int (length (rdata rd))"
    using size_Ok [OF conjunct1 [OF i2] assms(2) run(3)] by simp
  show "sha256_digest (w_body w') = ?d"
    using blobs_digest [OF conjunct1 [OF i2] b2] w'(1) by simp
  show "sent_header w' ''Content-Length'' = Itoa (int (length (w_body w')))" using w' n by simp
  have "blobs s' ?d = Some (rdata rd)" using i3 b2 by simp
  then show "blobs s' ?d = Some (w_body w')" using w'(1) by simp
  show "inv s'" using i3 by simp
qed

text \<open>A blob the store has is never answered with 404, by GET or HEAD.\<close>

lemma get_handler_found:
  assumes "inv s" and "canonical_digest (GetParam r ''digest'')" and "unsent w"
    and "BlobHandler_GetBlob ops r w s = (w', s')" and "blobs s (GetParam r ''digest'') \<noteq> None"
  shows "status w' \<noteq> 404"
  using assms(4,3)
proof (cases rule: GetBlob_handler_cases)
  case 2
  then show ?thesis using exists_False [OF assms(1,2) 2(1)] assms(5) by simp
qed auto

text \<open>DELETE answered with 202 removes the blob and nothing else.\<close>

lemma delete_handler:
  assumes "inv s" and "canonical_digest (GetParam r ''digest'')" and "unsent w"
    and "BlobHandler_DeleteBlob ops r w s = (w', s')"
  shows "inv s'" and "status w' = 202 \<Longrightarrow> blobs s' (GetParam r ''digest'') = None"
    and "d' \<noteq> GetParam r ''digest'' \<Longrightarrow> blobs s d' = Some b \<Longrightarrow> blobs s' d' = Some b"
proof -
  let ?d = "GetParam r ''digest''"
  obtain x s1 where ex: "op_BlobExists ops ?d s = (x, s1)" by fastforce
  note i1 = exists_inv [OF assms(1) ex]
  have "inv s' \<and> (status w' = 202 \<longrightarrow> blobs s' ?d = None) \<and>
      (d' \<noteq> ?d \<longrightarrow> blobs s d' = Some b \<longrightarrow> blobs s' d' = Some b)"
  proof (cases "x = Ok True")
    case True
    obtain y s2 where del: "op_DeleteBlob ops ?d s1 = (y, s2)" by fastforce
    have s': "s' = s2" "status w' = 202 \<longleftrightarrow> isOk y"
      using assms(3,4) ex True del by (auto simp: BlobHandler_DeleteBlob_def Let_def split: sum.splits)
    have b1: "blobs s d' = Some b \<longrightarrow> blobs s1 d' = Some b"
      using blobs_mono [OF conjunct2 [OF i1]] by blast
    show ?thesis
    proof (cases y)
      case (Inl er)
      then show ?thesis
        using delete_Err [OF conjunct1 [OF i1] assms(2)] delete_inv [OF conjunct1 [OF i1] assms(2) del] del s' b1
        by auto
    next
      case (Inr u)
      then show ?thesis
        using delete_Ok [OF conjunct1 [OF i1] assms(2)] delete_inv [OF conjunct1 [OF i1] assms(2) del] del s' b1
        by auto
    qed
  next
    case False
    then have "s' = s1" "status w' \<noteq> 202"
      using assms(3,4) ex
      by (auto simp: BlobHandler_DeleteBlob_def Let_def split: sum.splits bool.splits)
    then show ?thesis using i1 blobs_mono [OF conjunct2 [OF i1]] by blast
  qed
  then show "inv s'" and "status w' = 202 \<Longrightarrow> blobs s' ?d = None"
    and "d' \<noteq> ?d \<Longrightarrow> blobs s d' = Some b \<Longrightarrow> blobs s' d' = Some b" by blast+
qed

end

end
