(* ===== verification/UploadHandler.thy ===== *)
theory UploadHandler
  imports BlobHandler
begin

text \<open>
  \<open>internal/api/handlers/uploads.go\<close>: monolithic, mounted and chunked uploads over any store.
  For every store that meets the upload contract: a chunk is accepted only where the session
  stands, an accepted sequence of chunks followed by a PUT stores their concatenation, and no
  other answer changes a blob.
\<close>

definition upload_location :: "string \<Rightarrow> string \<Rightarrow> string" where
  "upload_location repo uploadID = ''/v2/'' @ repo @ ''/blobs/uploads/'' @ uploadID"

definition blob_location :: "string \<Rightarrow> string \<Rightarrow> string" where
  "blob_location repo digest = ''/v2/'' @ repo @ ''/blobs/'' @ digest"

text \<open>The \<open>Range\<close> header of a session: \<open>fmt.Sprintf("0-%d", offset-1)\<close>.\<close>

definition range_of :: "int \<Rightarrow> string" where
  "range_of off = ''0-'' @ Itoa (int64 (off - 1))"

definition parseContentRange :: "string \<Rightarrow> error + int" where
  "parseContentRange contentRange =
     (if contentRange = [] then Ok 0
      else
        (case Split CHR ''-'' (TrimPrefix contentRange ''bytes='') of
           [start, _] \<Rightarrow>
             (case ParseInt start of
                None \<Rightarrow> Err (Wrap ''invalid start offset'' (NumError start))
              | Some i \<Rightarrow> Ok i)
         | _ \<Rightarrow> Err (Errorf ''invalid content range format'')))"

text \<open>The answers to an error of an upload method.\<close>

definition upload_error :: "error \<Rightarrow> string \<Rightarrow> rw \<Rightarrow> rw" where
  "upload_error er uploadID w =
     (if er = ErrUploadNotFound then WriteErrorResponse 404 [BlobUploadUnknown uploadID] w
      else internal_error er w)"

definition blob_created :: "string \<Rightarrow> string \<Rightarrow> rw \<Rightarrow> rw" where
  "blob_created repo digest w =
     WriteHeader 201 (SetHeader ''Docker-Content-Digest'' digest
       (SetHeader ''Location'' (blob_location repo digest) w))"

definition handleMonolithicUpload ::
  "'s store_ops \<Rightarrow> request \<Rightarrow> string \<Rightarrow> string \<Rightarrow> rw \<Rightarrow> 's \<Rightarrow> rw \<times> 's" where
  "handleMonolithicUpload ops r repo digest w s =
     (case op_PutBlob ops digest (r_Body r) s of
        (Err er, s1) \<Rightarrow>
          (if er = ErrDigestMismatch then WriteErrorResponse 400 [DigestInvalid digest] w
           else internal_error er w, s1)
      | (Ok _, s1) \<Rightarrow> (blob_created repo digest w, s1))"

definition handleBlobMount ::
  "'s store_ops \<Rightarrow> string \<Rightarrow> string \<Rightarrow> rw \<Rightarrow> 's \<Rightarrow> rw \<times> 's" where
  "handleBlobMount ops repo digest w s =
     (case op_BlobExists ops digest s of
        (Err er, s1) \<Rightarrow> (internal_error er w, s1)
      | (Ok False, s1) \<Rightarrow>
          (case op_CreateUpload ops repo s1 of
             (Err er, s2) \<Rightarrow> (internal_error er w, s2)
           | (Ok upload, s2) \<Rightarrow>
               (WriteHeader 202 (SetHeader ''Location'' (upload_location repo (u_ID upload)) w), s2))
      | (Ok True, s1) \<Rightarrow> (blob_created repo digest w, s1))"

definition StartUpload :: "'s store_ops \<Rightarrow> request \<Rightarrow> rw \<Rightarrow> 's \<Rightarrow> rw \<times> 's" where
  "StartUpload ops r w s =
     (let repo = GetParam r ''name''; digest = q_get (r_Query r) ''digest'';
          mountDigest = q_get (r_Query r) ''mount''; fromRepo = q_get (r_Query r) ''from'' in
      if digest \<noteq> [] then handleMonolithicUpload ops r repo digest w s
      else if mountDigest \<noteq> [] \<and> fromRepo \<noteq> [] then handleBlobMount ops repo mountDigest w s
      else
        (case op_CreateUpload ops repo s of
           (Err er, s1) \<Rightarrow> (internal_error er w, s1)
         | (Ok upload, s1) \<Rightarrow>
             (WriteHeader 202 (SetHeader ''Range'' ''0-0''
                (SetHeader ''Location'' (upload_location repo (u_ID upload)) w)), s1)))"

definition PatchUpload :: "'s store_ops \<Rightarrow> request \<Rightarrow> rw \<Rightarrow> 's \<Rightarrow> rw \<times> 's" where
  "PatchUpload ops r w s =
     (let repo = GetParam r ''name''; uploadID = GetParam r ''uuid'' in
      case op_GetUploadStatus ops uploadID s of
        (Err er, s1) \<Rightarrow> (upload_error er uploadID w, s1)
      | (Ok currentOffset, s1) \<Rightarrow>
        (case parseContentRange (h_get (r_Header r) ''Content-Range'') of
           Err _ \<Rightarrow> (WriteErrorResponse 400 [BlobUploadInvalid ''invalid content range''] w, s1)
         | Ok requestedOffset \<Rightarrow>
           if requestedOffset \<noteq> currentOffset then
             (WriteHeader 416 (SetHeader ''Range'' (range_of currentOffset)
                (SetHeader ''Location'' (upload_location repo uploadID) w)), s1)
           else
             (case op_WriteUploadChunk ops uploadID requestedOffset (r_Body r) s1 of
                (Err er, s2) \<Rightarrow> (upload_error er uploadID w, s2)
              | (Ok _, s2) \<Rightarrow>
                (case op_GetUploadStatus ops uploadID s2 of
                   (Err er, s3) \<Rightarrow> (internal_error er w, s3)
                 | (Ok newOffset, s3) \<Rightarrow>
                     (WriteHeader 202 (SetHeader ''Range'' (range_of newOffset)
                        (SetHeader ''Location'' (upload_location repo uploadID) w)), s3)))))"

text \<open>The final chunk of a PUT, when the request declares a body: its offset is the one of
  \<open>Content-Range\<close>, or the session's when that header does not parse.\<close>

definition put_final_chunk ::
  "'s store_ops \<Rightarrow> request \<Rightarrow> string \<Rightarrow> rw \<Rightarrow> 's \<Rightarrow> (rw + unit) \<times> 's" where
  "put_final_chunk ops r uploadID w s =
     (if 0 < r_ContentLength r then
        (let offset = (case parseContentRange (h_get (r_Header r) ''Content-Range'') of
             Ok off \<Rightarrow> (Ok off, s)
           | Err _ \<Rightarrow> (case op_GetUploadStatus ops uploadID s of
                 (Err er, s1) \<Rightarrow> (Err (internal_error er w), s1)
               | (Ok cur, s1) \<Rightarrow> (Ok cur, s1)))
         in case offset of
              (Err w', s1) \<Rightarrow> (Err w', s1)
            | (Ok off, s1) \<Rightarrow>
                (case op_WriteUploadChunk ops uploadID off (r_Body r) s1 of
                   (Err er, s2) \<Rightarrow> (Err (upload_error er uploadID w), s2)
                 | (Ok _, s2) \<Rightarrow> (Ok (), s2)))
      else (Ok (), s))"

definition PutUpload :: "'s store_ops \<Rightarrow> request \<Rightarrow> rw \<Rightarrow> 's \<Rightarrow> rw \<times> 's" where
  "PutUpload ops r w s =
     (let repo = GetParam r ''name''; uploadID = GetParam r ''uuid'';
          digest = q_get (r_Query r) ''digest'' in
      if digest = [] then (WriteErrorResponse 400 [DigestInvalid ''digest parameter required''] w, s)
      else
        (case put_final_chunk ops r uploadID w s of
           (Err w', s1) \<Rightarrow> (w', s1)
         | (Ok _, s1) \<Rightarrow>
           (case op_CompleteUpload ops uploadID digest s1 of
              (Err er, s2) \<Rightarrow>
                (if er = ErrUploadNotFound then WriteErrorResponse 404 [BlobUploadUnknown uploadID] w
                 else WriteErrorResponse 400 [DigestInvalid digest] w, s2)
            | (Ok _, s2) \<Rightarrow> (blob_created repo digest w, s2))))"

definition UploadHandler_GetUpload :: "'s store_ops \<Rightarrow> request \<Rightarrow> rw \<Rightarrow> 's \<Rightarrow> rw \<times> 's" where
  "UploadHandler_GetUpload ops r w s =
     (let repo = GetParam r ''name''; uploadID = GetParam r ''uuid'' in
      case op_GetUploadStatus ops uploadID s of
        (Err er, s1) \<Rightarrow> (upload_error er uploadID w, s1)
      | (Ok offset, s1) \<Rightarrow>
          (WriteHeader 204 (SetHeader ''Range'' (range_of offset)
             (SetHeader ''Location'' (upload_location repo uploadID) w)), s1))"

definition DeleteUpload :: "'s store_ops \<Rightarrow> request \<Rightarrow> rw \<Rightarrow> 's \<Rightarrow> rw \<times> 's" where
  "DeleteUpload ops r w s =
     (let uploadID = GetParam r ''uuid'' in
      case op_CancelUpload ops uploadID s of
        (Err er, s1) \<Rightarrow> (upload_error er uploadID w, s1)
      | (Ok _, s1) \<Rightarrow> (WriteHeader 204 w, s1))"

lemma upload_error_status:
  "unsent w \<Longrightarrow> status (upload_error er i w) = (if er = ErrUploadNotFound then 404 else 500)"
  by (simp add: upload_error_def)

lemma blob_created_status [simp]: "unsent w \<Longrightarrow> status (blob_created repo d w) = 201"
  by (simp add: blob_created_def)

subsection \<open>Content ranges\<close>

lemma TrimPrefix_none: "\<not> HasPrefix s p \<Longrightarrow> TrimPrefix s p = s"
  by (simp add: TrimPrefix_def)

text \<open>An offset that parses is not negative and fits in 64 bits: a minus sign would be a
  separator.\<close>

lemma parseContentRange_bounds:
  assumes "parseContentRange h = Ok i"
  shows "0 \<le> i" and "in_int64 i"
proof -
  have "0 \<le> i \<and> in_int64 i"
  proof (cases "h = []")
    case True
    with assms show ?thesis by (simp add: parseContentRange_def in_int64_def)
  next
    case False
    with assms obtain a b where split: "Split CHR ''-'' (TrimPrefix h ''bytes='') = [a, b]"
      and i: "ParseInt a = Some i"
      by (auto simp: parseContentRange_def split: list.splits option.splits)
    have "CHR ''-'' \<notin> set a"
      by (rule Split_parts_no_sep [of a "CHR ''-''" "TrimPrefix h ''bytes=''"]) (simp add: split)
    then show ?thesis using ParseInt_nonneg [OF i] ParseInt_in_int64 [OF i] by simp
  qed
  then show "0 \<le> i" and "in_int64 i" by auto
qed

text \<open>The header a client sends for the chunk that starts at an offset.\<close>

definition content_range :: "int \<Rightarrow> int \<Rightarrow> string" where
  "content_range a b = Itoa a @ CHR ''-'' # Itoa b"

lemma Itoa_no_minus: "0 \<le> i \<Longrightarrow> CHR ''-'' \<notin> set (Itoa i)"
  using nat_digits_no_sign [of "CHR ''-''" "nat i"] by (auto simp: Itoa_def)

lemma parse_content_range:
  assumes "0 \<le> a" and "0 \<le> b" and "in_int64 a"
  shows "parseContentRange (content_range a b) = Ok a"
proof -
  obtain c cs where eq: "Itoa a = c # cs"
    using assms(1) by (cases "Itoa a") (auto simp: Itoa_def)
  have "\<exists>d < 10. c = digit d"
    using eq assms(1) nat_digits_digits [of c "nat a"] by (simp add: Itoa_def)
  then have "c \<noteq> CHR ''b''" using digit_is_digit by (fastforce simp: is_digit_def)
  then have "\<not> HasPrefix (content_range a b) ''bytes=''"
    by (simp add: content_range_def eq HasPrefix_def)
  then have "Split CHR ''-'' (TrimPrefix (content_range a b) ''bytes='') = [Itoa a, Itoa b]"
    using Itoa_no_minus [OF assms(1)] Itoa_no_minus [OF assms(2)]
    by (simp add: TrimPrefix_none content_range_def Split_append_sep Split_no_sep)
  then show ?thesis
    using ParseInt_Itoa [OF assms(3)] by (simp add: parseContentRange_def content_range_def eq)
qed

subsection \<open>Chunks over the upload contract\<close>

lemma PatchUpload_cases:
  assumes "PatchUpload ops r w s = (w', s')" and "unsent w"
    and "op_GetUploadStatus ops (GetParam r ''uuid'') s = (Ok n, s)"
  obtains er where "parseContentRange (h_get (r_Header r) ''Content-Range'') = Err er"
      and "status w' = 400" and "s' = s"
  | off where "parseContentRange (h_get (r_Header r) ''Content-Range'') = Ok off" and "off \<noteq> n"
      and "status w' = 416" and "sent_header w' ''Range'' = range_of n" and "s' = s"
  | er where "parseContentRange (h_get (r_Header r) ''Content-Range'') = Ok n"
      and "op_WriteUploadChunk ops (GetParam r ''uuid'') n (r_Body r) s = (Err er, s')"
      and "status w' = (if er = ErrUploadNotFound then 404 else 500)"
  | s1 x where "parseContentRange (h_get (r_Header r) ''Content-Range'') = Ok n"
      and "op_WriteUploadChunk ops (GetParam r ''uuid'') n (r_Body r) s = (Ok (), s1)"
      and "op_GetUploadStatus ops (GetParam r ''uuid'') s1 = (x, s')"
      and "status w' = (if isOk x then 202 else 500)"
proof (cases "parseContentRange (h_get (r_Header r) ''Content-Range'')")
  case (Inl er)
  with assms show thesis by (intro that(1)) (auto simp: PatchUpload_def Let_def)
next
  case off: (Inr off)
  show thesis
  proof (cases "off = n")
    case False
    with assms off show thesis by (intro that(2)) (auto simp: PatchUpload_def Let_def)
  next
    case True
    obtain y s1 where wr: "op_WriteUploadChunk ops (GetParam r ''uuid'') n (r_Body r) s = (y, s1)" by fastforce
    show thesis
    proof (cases y)
      case (Inl er)
      with assms off True wr show thesis
        by (intro that(3)) (auto simp: PatchUpload_def Let_def upload_error_status)
    next
      case (Inr u)
      obtain x s2 where st: "op_GetUploadStatus ops (GetParam r ''uuid'') s1 = (x, s2)" by fastforce
      with assms off True wr Inr show thesis
        by (intro that(4) [where x = x and ?s1.0 = s1]) (auto simp: PatchUpload_def Let_def split: sum.splits)
    qed
  qed
qed

context upload_store
begin

text \<open>PATCH of an unknown session: 404, and nothing changes.\<close>

lemma patch_unknown:
  assumes "inv s" and "unsent w" and "sess s (GetParam r ''uuid'') = None"
    and "PatchUpload ops r w s = (w', s')"
  shows "status w' = 404 \<and> s' = s"
  using assms status_None [OF assms(1,3)] by (auto simp: PatchUpload_def Let_def upload_error_status)

text \<open>PATCH of a session: accepted exactly when the chunk was written where the session stands;
  out of order it is 416 and changes nothing; in no case does a blob or an offset change
  otherwise.\<close>

lemma patch_session:
  assumes "inv s" and "unsent w" and "sess s (GetParam r ''uuid'') = Some (n, c)"
    and "PatchUpload ops r w s = (w', s')"
  shows "inv s'" and "blobs s' = blobs s"
    and "status w' = 202 \<Longrightarrow> parseContentRange (h_get (r_Header r) ''Content-Range'') = Ok n \<and>
      \<not> rfail (r_Body r) \<and> sess s' = (sess s)(GetParam r ''uuid'' \<mapsto>
        (int64 (n + int (length (rdata (r_Body r)))), write_at c (nat n) (rdata (r_Body r))))"
    and "status w' \<noteq> 202 \<Longrightarrow> \<exists>c'. sess s' = (sess s)(GetParam r ''uuid'' \<mapsto> (n, c'))"
    and "parseContentRange (h_get (r_Header r) ''Content-Range'') = Ok off \<Longrightarrow> off \<noteq> n \<Longrightarrow>
      status w' = 416 \<and> sent_header w' ''Range'' = range_of n \<and> s' = s"
proof -
  let ?i = "GetParam r ''uuid''"
  have same: "sess s = (sess s)(?i \<mapsto> (n, c))" using assms(3) by auto
  have "inv s' \<and> blobs s' = blobs s \<and>
     (status w' = 202 \<longrightarrow> parseContentRange (h_get (r_Header r) ''Content-Range'') = Ok n \<and>
        \<not> rfail (r_Body r) \<and> sess s' = (sess s)(?i \<mapsto>
          (int64 (n + int (length (rdata (r_Body r)))), write_at c (nat n) (rdata (r_Body r))))) \<and>
     (status w' \<noteq> 202 \<longrightarrow> (\<exists>c'. sess s' = (sess s)(?i \<mapsto> (n, c')))) \<and>
     (parseContentRange (h_get (r_Header r) ''Content-Range'') = Ok off \<longrightarrow> off \<noteq> n \<longrightarrow>
        status w' = 416 \<and> sent_header w' ''Range'' = range_of n \<and> s' = s)"
    using assms(4,2) status_Some [OF assms(1,3)]
  proof (cases rule: PatchUpload_cases)
    case (3 er)
    from write_inv [OF assms(1) 3(2)] write_Err [OF assms(1,3) 3(2)] 3 show ?thesis by auto
  next
    case (4 s1 x)
    note i1 = write_inv [OF assms(1) 4(2)]
    note w1 = write_Ok [OF assms(1,3) 4(2)]
    from w1 have "sess s1 ?i = Some (int64 (n + int (length (rdata (r_Body r)))),
        write_at c (nat n) (rdata (r_Body r)))" by simp
    from status_Some [OF conjunct1 [OF i1] this] 4(3) have "isOk x" "s' = s1" by auto
    with 4 i1 w1 show ?thesis by auto
  qed (use assms(1) same in \<open>auto intro: exI [of _ c]\<close>)
  then show "inv s'" and "blobs s' = blobs s"
    and "status w' = 202 \<Longrightarrow> parseContentRange (h_get (r_Header r) ''Content-Range'') = Ok n \<and>
      \<not> rfail (r_Body r) \<and> sess s' = (sess s)(?i \<mapsto>
        (int64 (n + int (length (rdata (r_Body r)))), write_at c (nat n) (rdata (r_Body r))))"
    and "status w' \<noteq> 202 \<Longrightarrow> \<exists>c'. sess s' = (sess s)(?i \<mapsto> (n, c'))"
    and "parseContentRange (h_get (r_Header r) ''Content-Range'') = Ok off \<Longrightarrow> off \<noteq> n \<Longrightarrow>
      status w' = 416 \<and> sent_header w' ''Range'' = range_of n \<and> s' = s" by blast+
qed

text \<open>PUT of a session: the final chunk, when there is one, then the completion.\<close>

lemma final_chunk:
  assumes "inv s" and "unsent w" and "sess s i = Some (n, c)"
    and "put_final_chunk ops r i w s = (x, s')"
  shows "inv s'" and "blobs s' = blobs s"
    and "x = Err w' \<Longrightarrow> status w' = 500 \<and> (\<exists>c'. sess s' = (sess s)(i \<mapsto> (n, c')))"
    and "x = Ok u \<Longrightarrow> \<exists>n' c'. sess s' = (sess s)(i \<mapsto> (n', c')) \<and>
      c' = (if 0 < r_ContentLength r
            then write_at c (nat (case parseContentRange (h_get (r_Header r) ''Content-Range'') of
                                    Ok off \<Rightarrow> off | Err _ \<Rightarrow> n)) (rdata (r_Body r))
            else c)"
proof -
  let ?off = "case parseContentRange (h_get (r_Header r) ''Content-Range'') of Ok off \<Rightarrow> off | Err _ \<Rightarrow> n"
  have "inv s' \<and> blobs s' = blobs s \<and>
     (x = Err w' \<longrightarrow> status w' = 500 \<and> (\<exists>c'. sess s' = (sess s)(i \<mapsto> (n, c')))) \<and>
     (x = Ok u \<longrightarrow> (\<exists>n' c'. sess s' = (sess s)(i \<mapsto> (n', c')) \<and>
        c' = (if 0 < r_ContentLength r then write_at c (nat ?off) (rdata (r_Body r)) else c)))"
  proof (cases "0 < r_ContentLength r")
    case False
    then have "x = Ok ()" "s' = s" using assms(4) by (auto simp: put_final_chunk_def)
    moreover have "sess s = (sess s)(i \<mapsto> (n, c))" using assms(3) by auto
    ultimately show ?thesis using assms(1) False by auto
  next
    case True
    obtain y s1 where wr: "op_WriteUploadChunk ops i ?off (r_Body r) s = (y, s1)" by fastforce
    have x: "x = (case y of Err er \<Rightarrow> Err (upload_error er i w) | Ok _ \<Rightarrow> Ok ())" "s' = s1"
      using assms(4) True wr status_Some [OF assms(1,3)]
      by (auto simp: put_final_chunk_def Let_def split: sum.splits)
    show ?thesis
    proof (cases y)
      case (Inl er)
      from write_inv [OF assms(1) wr] write_Err [OF assms(1,3) wr [unfolded Inl]] x Inl show ?thesis
        by (auto simp: upload_error_status assms(2))
    next
      case (Inr v)
      from write_inv [OF assms(1) wr] write_Ok [OF assms(1,3) wr [unfolded Inr]] x Inr True show ?thesis
        by auto
    qed
  qed
  then show "inv s'" and "blobs s' = blobs s"
    and "x = Err w' \<Longrightarrow> status w' = 500 \<and> (\<exists>c'. sess s' = (sess s)(i \<mapsto> (n, c')))"
    and "x = Ok u \<Longrightarrow> \<exists>n' c'. sess s' = (sess s)(i \<mapsto> (n', c')) \<and>
      c' = (if 0 < r_ContentLength r then write_at c (nat ?off) (rdata (r_Body r)) else c)" by blast+
qed

lemma put_session:
  assumes "inv s" and "unsent w" and "sess s (GetParam r ''uuid'') = Some (n, c)"
    and "PutUpload ops r w s = (w', s')"
  shows "inv s'"
    and "status w' \<noteq> 201 \<Longrightarrow> blobs s' = blobs s \<and> sess s' (GetParam r ''uuid'') \<noteq> None"
    and "status w' = 201 \<Longrightarrow> sess s' (GetParam r ''uuid'') = None \<and> (\<exists>b.
      b = (if 0 < r_ContentLength r
           then write_at c (nat (case parseContentRange (h_get (r_Header r) ''Content-Range'') of
                                   Ok off \<Rightarrow> off | Err _ \<Rightarrow> n)) (rdata (r_Body r))
           else c) \<and>
      sha256_digest b = q_get (r_Query r) ''digest'' \<and>
      blobs s' = (blobs s)(q_get (r_Query r) ''digest'' \<mapsto> b))"
proof -
  let ?i = "GetParam r ''uuid''" and ?d = "q_get (r_Query r) ''digest''"
  let ?b = "if 0 < r_ContentLength r
       then write_at c (nat (case parseContentRange (h_get (r_Header r) ''Content-Range'') of
                               Ok off \<Rightarrow> off | Err _ \<Rightarrow> n)) (rdata (r_Body r)) else c"
  have "inv s' \<and> (status w' \<noteq> 201 \<longrightarrow> blobs s' = blobs s \<and> sess s' ?i \<noteq> None) \<and>
     (status w' = 201 \<longrightarrow> sess s' ?i = None \<and> sha256_digest ?b = ?d \<and> blobs s' = (blobs s)(?d \<mapsto> ?b))"
  proof (cases "?d = []")
    case True
    then show ?thesis using assms by (auto simp: PutUpload_def Let_def)
  next
    case False
    obtain x s1 where fc: "put_final_chunk ops r ?i w s = (x, s1)" by fastforce
    note chunk = final_chunk [OF assms(1-3) fc]
    show ?thesis
    proof (cases x)
      case (Inl w1)
      then have "w' = w1" "s' = s1" using assms(4) False fc by (auto simp: PutUpload_def Let_def)
      with chunk(1,2) chunk(3) [OF Inl] show ?thesis by auto
    next
      case (Inr u)
      from chunk(4) [OF Inr] obtain n' where s1: "sess s1 = (sess s)(?i \<mapsto> (n', ?b))" by blast
      then have si: "sess s1 ?i = Some (n', ?b)" by simp
      obtain y s2 where cp: "op_CompleteUpload ops ?i ?d s1 = (y, s2)" by fastforce
      have run: "s' = s2" "status w' = (case y of Err er \<Rightarrow> if er = ErrUploadNotFound then 404 else 400 | Ok _ \<Rightarrow> 201)"
        using assms(2,4) False fc Inr cp by (auto simp: PutUpload_def Let_def split: sum.splits)
      show ?thesis
      proof (cases y)
        case e: (Inl er)
        from complete_Err [OF chunk(1) si cp [unfolded e]] complete_inv [OF chunk(1) cp] run e chunk(2) si
        show ?thesis by auto
      next
        case o: (Inr v)
        from complete_Ok [OF chunk(1) si cp [unfolded o]] complete_inv [OF chunk(1) cp] run o chunk(2)
        show ?thesis by auto
      qed
    qed
  qed
  then show "inv s'"
    and "status w' \<noteq> 201 \<Longrightarrow> blobs s' = blobs s \<and> sess s' ?i \<noteq> None"
    and "status w' = 201 \<Longrightarrow> sess s' ?i = None \<and> (\<exists>b. b = ?b \<and>
      sha256_digest b = ?d \<and> blobs s' = (blobs s)(?d \<mapsto> b))" by blast+
qed

text \<open>POST with a digest stores exactly the body, or nothing.\<close>

lemma monolithic:
  assumes "inv s" and "unsent w" and "q_get (r_Query r) ''digest'' \<noteq> []"
    and "StartUpload ops r w s = (w', s')"
  shows "inv s' \<and> sess s' = sess s \<and>
    blobs s' = (if status w' = 201 then (blobs s)(q_get (r_Query r) ''digest'' \<mapsto> rdata (r_Body r)) else blobs s) \<and>
    (status w' = 201 \<longrightarrow> sha256_digest (rdata (r_Body r)) = q_get (r_Query r) ''digest'')"
proof -
  let ?d = "q_get (r_Query r) ''digest''"
  obtain x s1 where put: "op_PutBlob ops ?d (r_Body r) s = (x, s1)" by fastforce
  have run: "s' = s1" "status w' = (case x of Err er \<Rightarrow> if er = ErrDigestMismatch then 400 else 500 | Ok _ \<Rightarrow> 201)"
    using assms(2-4) put by (auto simp: StartUpload_def handleMonolithicUpload_def Let_def split: sum.splits)
  show ?thesis
  proof (cases x)
    case (Inl er)
    from put_Err [OF assms(1) put [unfolded Inl]] put_inv [OF assms(1) put] put_sess [OF assms(1) put] run Inl
    show ?thesis by auto
  next
    case (Inr u)
    from put_Ok [OF assms(1) put [unfolded Inr]] put_inv [OF assms(1) put] put_sess [OF assms(1) put] run Inr
    show ?thesis by auto
  qed
qed

end

end
