(* ===== verification/FsManifests.thy ===== *)
theory FsManifests
  imports FsUploads
begin

text \<open>
  The manifest side of the filesystem store: where manifests are kept, what a put, a delete and
  the listings do, and that none of them touches a blob or an upload file as long as the
  repository name and the reference are plain path components.
\<close>

subsection \<open>Paths\<close>

text \<open>A repository name and a reference that name one file below the manifests directory.\<close>

definition repo_ok :: "string \<Rightarrow> bool" where
  "repo_ok repo \<longleftrightarrow> safe_comp (clean_repo repo)"

definition manifest_file :: "path \<Rightarrow> string \<Rightarrow> string \<Rightarrow> path" where
  "manifest_file base repo reference = base @ [''manifests'', clean_repo repo, reference]"

lemma ReplaceChar_eq:
  "new \<notin> set t \<Longrightarrow> old \<notin> set t \<Longrightarrow> ReplaceChar old new s = t \<longleftrightarrow> s = t"
proof
  assume "new \<notin> set t" and "ReplaceChar old new s = t"
  then have "c \<noteq> old" if "c \<in> set s" for c using that by (auto simp: ReplaceChar_def)
  then have "old \<notin> set s" by blast
  with \<open>ReplaceChar old new s = t\<close> show "s = t" by (simp add: ReplaceChar_id)
qed (simp add: ReplaceChar_id)

lemma repo_ok_iff: "repo_ok repo \<longleftrightarrow> repo \<noteq> [] \<and> repo \<noteq> ''.'' \<and> repo \<noteq> ''..''"
proof -
  have "CHR ''/'' \<notin> set (clean_repo repo)" unfolding clean_repo_def by (rule set_ReplaceChar) simp
  moreover have "clean_repo repo = t \<longleftrightarrow> repo = t" if "t \<in> {[], ''.'', ''..''}" for t
    unfolding clean_repo_def using that by (intro ReplaceChar_eq) auto
  ultimately show ?thesis by (simp add: repo_ok_def safe_comp_def)
qed

lemma manifestPath_safe:
  assumes "repo_ok repo" and "safe_comp reference"
  shows "manifestPath s repo reference = manifest_file (s_basePath s) repo reference"
  unfolding manifestPath_def manifest_file_def
  by (rule Join_safe) (use assms in \<open>simp add: repo_ok_def safe_comp_def\<close>)

lemma repoPath_safe: "repo_ok repo \<Longrightarrow> repoPath s repo = s_basePath s @ [''manifests'', clean_repo repo]"
  unfolding repoPath_def by (rule Join_safe) (simp add: repo_ok_def safe_comp_def)

lemma manifest_file_not_Nil [simp]: "manifest_file b repo reference \<noteq> []"
  by (simp add: manifest_file_def)

lemma tmp_manifest_file: "tmp_of (manifest_file b repo reference) = manifest_file b repo (reference @ ''.tmp'')"
  using tmp_of_append_one [of "b @ [''manifests'', clean_repo repo]" reference]
  by (simp add: manifest_file_def)

lemma manifest_file_not_blob [simp]: "manifest_file b repo reference \<noteq> blob_file b h"
  by (simp add: manifest_file_def blob_file_def)

lemma manifest_file_not_upload [simp]: "manifest_file b repo reference \<noteq> upload_file b i"
  by (simp add: manifest_file_def upload_file_def)

lemma manifest_file_eq [simp]:
  "manifest_file b repo reference = manifest_file b repo' reference' \<longleftrightarrow>
     clean_repo repo = clean_repo repo' \<and> reference = reference'"
  by (simp add: manifest_file_def)

lemma canonical_safe: "canonical_digest d \<Longrightarrow> safe_comp d"
  using canonical_hex_chars by (auto elim!: canonical_digestE simp: safe_comp_def)

lemma canonical_is_digest_ref: "canonical_digest d \<Longrightarrow> is_digest_ref d"
  by (auto elim!: canonical_digestE simp: is_digest_ref_def HasPrefix_def)

subsection \<open>Writing one manifest file\<close>

lemma writeManifestFile_cases:
  assumes "writeManifestFile e t p data = (r, t')"
  obtains er where "r = Err er" and "t' = t"
  | er t1 where "r = Err er" and "os_MkdirAll e t (filepath_Dir p) = Ok t1" and "t' = t1"
  | er t1 t2 n ok where "r = Err er" and "os_MkdirAll e t (filepath_Dir p) = Ok t1"
      and "os_Create e t1 (tmp_of p) = Ok t2"
      and "io_Copy e t2 (tmp_of p) 0 (bytes_reader data) = (n, ok, t')"
  | t1 t2 t3 n where "r = Ok ()" and "os_MkdirAll e t (filepath_Dir p) = Ok t1"
      and "os_Create e t1 (tmp_of p) = Ok t2"
      and "io_Copy e t2 (tmp_of p) 0 (bytes_reader data) = (n, True, t3)"
      and "os_Rename e t3 (tmp_of p) p = Ok t'"
proof (cases "os_MkdirAll e t (filepath_Dir p)")
  case (Inl er)
  with assms show thesis by (intro that(1)) (auto simp: writeManifestFile_def)
next
  case mk: (Inr t1)
  show thesis
  proof (cases "os_Create e t1 (tmp_of p)")
    case (Inl er)
    with assms mk show thesis
      by (intro that(2) [OF _ mk]) (auto simp: writeManifestFile_def os_WriteFile_def Let_def)
  next
    case cr: (Inr t2)
    obtain n ok t3 where cp: "io_Copy e t2 (tmp_of p) 0 (bytes_reader data) = (n, ok, t3)"
      by (cases "io_Copy e t2 (tmp_of p) 0 (bytes_reader data)")
    note run = assms [unfolded writeManifestFile_def os_WriteFile_def Let_def]
    show thesis
    proof (cases "ok \<and> isOk (os_Rename e t3 (tmp_of p) p)")
      case True
      then obtain t4 where "os_Rename e t3 (tmp_of p) p = Ok t4" by (auto simp: isOk_iff)
      with run mk cr cp True show thesis by (intro that(4) [OF _ mk cr]) auto
    next
      case False
      have "\<exists>er. r = Err er" and "t' = t3"
        using run mk cr cp False by (auto split: sum.splits if_splits)
      with mk cr cp show thesis by (auto intro: that(3) [OF _ mk cr])
    qed
  qed
qed

lemma writeManifestFile_frame:
  assumes "writeManifestFile e t p data = (r, t')" and "q \<noteq> tmp_of p" and "q \<noteq> p \<or> \<not> isOk r"
  shows "content (fs_get t' q) = content (fs_get t q)"
  using assms(1)
proof (cases rule: writeManifestFile_cases)
  case (2 er t1)
  then show ?thesis using grows_content os_MkdirAll_grows by blast
next
  case (3 er t1 t2 n ok)
  then show ?thesis
    using os_Create_same [OF 3(3)] io_Copy_same [OF 3(4)] assms(2)
      grows_content [OF os_MkdirAll_grows [OF 3(2)]] by (simp add: same_except_def)
next
  case (4 t1 t2 t3 n)
  then show ?thesis
    using os_Create_same [OF 4(3)] io_Copy_same [OF 4(4)] os_Rename_same [OF 4(5)] assms(2,3)
      grows_content [OF os_MkdirAll_grows [OF 4(2)]] by (simp add: same_except_def)
qed simp

lemma writeManifestFile_Ok:
  assumes "writeManifestFile e t p data = (Ok u, t')"
  shows "fs_get t' p = Some (File data) \<and> fs_get t' (tmp_of p) = None"
  using assms
proof (cases rule: writeManifestFile_cases)
  case (4 t1 t2 t3 n)
  have "fs_get t3 (tmp_of p) = Some (File data)"
    using io_Copy_ok(3) [OF 4(4) os_Create_file [OF 4(3)]] by simp
  then show ?thesis using os_Rename_moves [OF 4(5)] by simp
qed simp_all

lemma writeManifestFile_wf:
  assumes "writeManifestFile e t p data = (r, t')" and "wf_fs t"
  shows "wf_fs t'"
  using assms(1)
proof (cases rule: writeManifestFile_cases)
  case (2 er t1)
  then show ?thesis using os_MkdirAll_wf(1) assms(2) by blast
next
  case (3 er t1 t2 n ok)
  have "wf_fs t2" using os_Create_wf [OF 3(3)] os_MkdirAll_wf(1) [OF 3(2) assms(2)] .
  then show ?thesis by (rule io_Copy_wf(1) [OF 3(4) _ os_Create_file [OF 3(3)]])
next
  case (4 t1 t2 t3 n)
  have "wf_fs t2" using os_Create_wf [OF 4(3)] os_MkdirAll_wf(1) [OF 4(2) assms(2)] .
  then have "wf_fs t3" by (rule io_Copy_wf(1) [OF 4(4) _ os_Create_file [OF 4(3)]])
  then show ?thesis using os_Rename_wf [OF 4(5)] by simp
qed (use assms(2) in simp)

subsection \<open>Putting and deleting manifests\<close>

text \<open>The references under which a put stores the manifest: the one given and, for a tag, the
  digest recorded in the manifest.\<close>

definition put_refs :: "string \<Rightarrow> Manifest \<Rightarrow> string set" where
  "put_refs reference m =
     insert reference (if \<not> is_digest_ref reference \<and> m_Digest m \<noteq> [] then {m_Digest m} else {})"

definition put_args_ok :: "string \<Rightarrow> string \<Rightarrow> Manifest \<Rightarrow> bool" where
  "put_args_ok repo reference m \<longleftrightarrow> repo_ok repo \<and> (\<forall>r \<in> put_refs reference m. safe_comp r)"

lemma PutManifest_cases:
  assumes "PutManifest e repo reference m s = (r, s')" and "put_args_ok repo reference m"
  obtains t where "writeManifestFile e (s_disk s) (manifest_file (s_basePath s) repo reference)
        (MarshalManifest m) = (r, t)"
      and "s' = s\<lparr>s_disk := t\<rparr>"
      and "isOk r \<Longrightarrow> put_refs reference m = {reference}"
  | t t' where "writeManifestFile e (s_disk s) (manifest_file (s_basePath s) repo reference)
        (MarshalManifest m) = (Ok (), t)"
      and "writeManifestFile e t (manifest_file (s_basePath s) repo (m_Digest m))
        (MarshalManifest m) = (r, t')"
      and "put_refs reference m = {reference, m_Digest m}" and "\<not> is_digest_ref reference"
      and "s' = s\<lparr>s_disk := t'\<rparr>"
proof -
  have ok: "repo_ok repo" "safe_comp reference"
    "\<not> is_digest_ref reference \<and> m_Digest m \<noteq> [] \<Longrightarrow> safe_comp (m_Digest m)"
    using assms(2) by (auto simp: put_args_ok_def put_refs_def)
  note run = assms(1) [unfolded PutManifest_def Let_def manifestPath_safe [OF ok(1,2)]]
  obtain r1 t where w: "writeManifestFile e (s_disk s) (manifest_file (s_basePath s) repo reference)
        (MarshalManifest m) = (r1, t)" by fastforce
  show thesis
  proof (cases "isOk r1 \<and> \<not> is_digest_ref reference \<and> m_Digest m \<noteq> []")
    case True
    then have path: "manifestPath s repo (m_Digest m) = manifest_file (s_basePath s) repo (m_Digest m)"
      using ok manifestPath_safe by blast
    from True have r1: "r1 = Ok ()" by (auto simp: isOk_iff)
    obtain r2 t' where "writeManifestFile e t (manifest_file (s_basePath s) repo (m_Digest m))
        (MarshalManifest m) = (r2, t')" by fastforce
    with run w True r1 path show thesis
      by (intro that(2) [where t = t and t' = t']) (auto simp: put_refs_def)
  next
    case False
    then show thesis using run w
      by (intro that(1) [where t = t]) (auto simp: put_refs_def split: sum.splits if_splits)
  qed
qed

lemma PutManifest_frame:
  assumes "PutManifest e repo reference m s = (r, s')" and "put_args_ok repo reference m"
    and "\<And>x. x \<in> put_refs reference m \<Longrightarrow> q \<noteq> manifest_file (s_basePath s) repo x \<and>
      q \<noteq> manifest_file (s_basePath s) repo (x @ ''.tmp'')"
  shows "content (fs_get (s_disk s') q) = content (fs_get (s_disk s) q)"
  using assms(1,2)
proof (cases rule: PutManifest_cases)
  case (1 t)
  have "reference \<in> put_refs reference m" by (simp add: put_refs_def)
  from assms(3) [OF this] show ?thesis
    using 1(2) writeManifestFile_frame [OF 1(1)] by (simp add: tmp_manifest_file)
next
  case (2 t t')
  then have refs: "reference \<in> put_refs reference m" "m_Digest m \<in> put_refs reference m" by auto
  from assms(3) [OF refs(1)] assms(3) [OF refs(2)] show ?thesis
    using 2(5) writeManifestFile_frame [OF 2(1)] writeManifestFile_frame [OF 2(2)]
    by (simp add: tmp_manifest_file)
qed

lemma PutManifest_state:
  assumes "PutManifest e repo reference m s = (r, s')"
  shows "s_basePath s' = s_basePath s \<and> s_uploads s' = s_uploads s \<and>
    (wf_fs (s_disk s) \<longrightarrow> wf_fs (s_disk s'))"
  using assms writeManifestFile_wf unfolding PutManifest_def Let_def
  by (auto split: prod.splits sum.splits if_splits)

text \<open>After a successful put the manifest is at every one of its references.\<close>

lemma PutManifest_stored:
  assumes "PutManifest e repo reference m s = (Ok u, s')" and "put_args_ok repo reference m"
    and "\<And>x. x \<in> put_refs reference m \<Longrightarrow> x \<noteq> reference \<Longrightarrow> is_digest_ref x"
    and "ref \<in> put_refs reference m"
  shows "fs_get (s_disk s') (manifest_file (s_basePath s) repo ref) = Some (File (MarshalManifest m))"
  using assms(1,2)
proof (cases rule: PutManifest_cases)
  case (1 t)
  then show ?thesis using assms(4) writeManifestFile_Ok [OF 1(1)] by simp
next
  case (2 t t')
  show ?thesis
  proof (cases "ref = m_Digest m")
    case True
    then show ?thesis using 2 writeManifestFile_Ok [OF 2(2)] by simp
  next
    case False
    then have ref: "ref = reference" using assms(4) 2(3) by simp
    then have "is_digest_ref (m_Digest m)" using False assms(3) 2(3) by blast
    then have "reference \<noteq> m_Digest m @ ''.tmp''"
      using 2(4) by (auto simp: is_digest_ref_def HasPrefix_iff)
    then have "content (fs_get t' (manifest_file (s_basePath s) repo reference)) =
        content (fs_get t (manifest_file (s_basePath s) repo reference))"
      using False ref by (intro writeManifestFile_frame [OF 2(2)]) (auto simp: tmp_manifest_file)
    then show ?thesis using writeManifestFile_Ok [OF 2(1)] 2(5) ref by (simp add: content_Some)
  qed
qed

lemma DeleteManifest_frame:
  assumes "DeleteManifest e repo reference s = (r, s')" and "q \<noteq> manifestPath s repo reference"
  shows "fs_get (s_disk s') q = fs_get (s_disk s) q"
  using assms os_Remove_same
  by (force simp: DeleteManifest_def remove_existing_def same_except_def split: sum.splits if_splits)

lemma DeleteManifest_state:
  assumes "DeleteManifest e repo reference s = (r, s')"
  shows "s_basePath s' = s_basePath s \<and> s_uploads s' = s_uploads s \<and>
    (wf_fs (s_disk s) \<longrightarrow> wf_fs (s_disk s'))"
  using assms os_Remove_wf
  by (fastforce simp: DeleteManifest_def remove_existing_def split: sum.splits if_splits)

lemma DeleteManifest_gone:
  assumes "DeleteManifest e repo reference s = (Ok u, s')" and "wf_fs (s_disk s)"
  shows "fs_get (s_disk s') (manifestPath s repo reference) = None"
  using assms os_Remove_ENOENT os_Remove_gone
  by (fastforce simp: DeleteManifest_def remove_existing_def split: sum.splits if_splits)

subsection \<open>Manifests and the blob invariant\<close>

lemma manifest_frame_keeps:
  assumes "s_basePath s' = s_basePath s \<and> s_uploads s' = s_uploads s \<and>
      (wf_fs (s_disk s) \<longrightarrow> wf_fs (s_disk s'))"
    and "\<And>q. (\<forall>x. q \<noteq> manifest_file (s_basePath s) repo x) \<Longrightarrow>
      content (fs_get (s_disk s') q) = content (fs_get (s_disk s) q)"
    and "fs_safe e s"
  shows "fs_safe e s'" and "fs_blobs s' = fs_blobs s" and "fs_sess s' = fs_sess s"
    and "upload_files s' = upload_files s"
proof -
  have blobs: "fs_blobs s' = fs_blobs s"
    by (rule fs_blobs_cong) (use assms(1,2) manifest_file_not_blob in metis)+
  then show "fs_blobs s' = fs_blobs s" .
  show "fs_safe e s'" using assms(1,3) addressed_cong [OF blobs] by (simp add: fs_safe_def)
  have "content (fs_get (s_disk s') (u_tempFile u)) = content (fs_get (s_disk s) (u_tempFile u))"
    if "s_uploads s i = Some u" for i u
  proof -
    have "u_tempFile u = upload_file (s_basePath s) i"
      using assms(3) that uploads_okD(2) by (auto simp: fs_safe_def)
    then show ?thesis using assms(2) manifest_file_not_upload by metis
  qed
  with assms(1) show "fs_sess s' = fs_sess s" and "upload_files s' = upload_files s"
    using fs_sess_cong [of s' s] by blast+
qed

lemma PutManifest_keeps:
  assumes "fs_safe e s" and "PutManifest e' repo reference m s = (r, s')" and "put_args_ok repo reference m"
  shows "fs_safe e s'" and "fs_blobs s' = fs_blobs s" and "fs_sess s' = fs_sess s"
    and "upload_files s' = upload_files s"
  using manifest_frame_keeps [OF PutManifest_state [OF assms(2)] _ assms(1), of repo]
    PutManifest_frame [OF assms(2,3)] by auto

lemma DeleteManifest_keeps:
  assumes "fs_safe e s" and "DeleteManifest e' repo reference s = (r, s')"
    and "repo_ok repo" and "safe_comp reference"
  shows "fs_safe e s'" and "fs_blobs s' = fs_blobs s" and "fs_sess s' = fs_sess s"
    and "upload_files s' = upload_files s"
  using manifest_frame_keeps [OF DeleteManifest_state [OF assms(2)] _ assms(1), of repo]
    DeleteManifest_frame [OF assms(2)] manifestPath_safe [OF assms(3,4)] by auto

subsection \<open>Reading manifests\<close>

lemma GetManifest_state: "GetManifest e repo reference s = (r, s') \<Longrightarrow> s' = s"
  by (auto simp: GetManifest_def Let_def split: sum.splits option.splits)

definition with_ref :: "string \<Rightarrow> string \<Rightarrow> Manifest \<Rightarrow> Manifest" where
  "with_ref repo reference m =
     (let m1 = m\<lparr>m_Repository := repo\<rparr> in
      if is_digest_ref reference then m1 else m1\<lparr>m_Tag := reference\<rparr>)"

lemma GetManifest_file:
  assumes "wf_fs (s_disk s)" and "fs_get (s_disk s) (manifestPath s repo reference) = Some (File b)"
    and "ParseManifest b = Some m"
    and "\<not> sys_fault e (SysOpen (manifestPath s repo reference))"
    and "\<not> sys_fault e (SysRead (manifestPath s repo reference))"
  shows "GetManifest e repo reference s = (Ok (with_ref repo reference m), s)"
  using assms by (simp add: GetManifest_def os_ReadFile_def lookup_get with_ref_def Let_def)

text \<open>What comes back when a put manifest is read: its encoded fields, the size of its encoding
  and where it was found; the digest is not restored.\<close>

definition read_back :: "string \<Rightarrow> string \<Rightarrow> Manifest \<Rightarrow> Manifest" where
  "read_back repo reference m =
     with_ref repo reference ((stored_Manifest m)\<lparr>m_Size := int (length (MarshalManifest m))\<rparr>)"

lemma GetManifest_put:
  assumes "fs_safe e s" and "PutManifest e repo reference m s = (Ok u, s')"
    and "put_args_ok repo reference m"
    and "\<And>x. x \<in> put_refs reference m \<Longrightarrow> x \<noteq> reference \<Longrightarrow> is_digest_ref x"
    and "ref \<in> put_refs reference m"
    and "Manifest_ok m" and "ascii_manifest m"
    and "\<not> sys_fault e (SysOpen (manifestPath s repo ref))"
    and "\<not> sys_fault e (SysRead (manifestPath s repo ref))"
  shows "GetManifest e repo ref s' = (Ok (read_back repo ref m), s')"
proof -
  have base: "s_basePath s' = s_basePath s" and wf: "wf_fs (s_disk s')"
    using PutManifest_state [OF assms(2)] assms(1) by (auto simp: fs_safe_def)
  have path: "manifestPath s' repo ref = manifest_file (s_basePath s) repo ref"
    "manifestPath s repo ref = manifestPath s' repo ref"
    using manifestPath_safe [of repo ref] assms(3,5) base by (auto simp: put_args_ok_def)
  show ?thesis unfolding read_back_def
    by (rule GetManifest_file [OF wf _ ParseManifest_Marshal [OF assms(6,7)]])
      (use PutManifest_stored [OF assms(2-5)] path assms(8,9) in auto)
qed

lemma GetManifest_missing:
  assumes "wf_fs (s_disk s)" and "fs_get (s_disk s) (manifestPath s repo reference) = None"
    and "walk_err (s_disk s) (manifestPath s repo reference) \<noteq> Some ENOTDIR"
    and "\<not> sys_fault e (SysOpen (manifestPath s repo reference))"
  shows "GetManifest e repo reference s = (Err ErrManifestNotFound, s)"
proof -
  have bad: "first_bad t qs = Some er \<Longrightarrow> er = ENOENT \<or> er = ENOTDIR" for t qs er
    by (induction qs) (auto split: option.splits node.splits)
  have "lookup (s_disk s) (manifestPath s repo reference) = Err ENOENT"
    using assms(2,3) bad by (auto simp: lookup_def walk_err_def split: option.splits)
  with assms(4) show ?thesis by (simp add: GetManifest_def os_ReadFile_def)
qed

lemma GetManifest_no_digest: "GetManifest e repo reference s = (Ok m, s') \<Longrightarrow> m_Digest m = []"
  by (auto simp: GetManifest_def Let_def split: sum.splits option.splits if_splits
      dest: ParseManifest_Digest)

subsection \<open>Listing\<close>

lemma os_ReadDir_entries:
  assumes "os_ReadDir e t p = Ok es"
  shows "map fst es = child_names t p" and "(c, n) \<in> set es \<longleftrightarrow> fs_get t (p @ [c]) = Some n"
proof -
  have es: "es = map (\<lambda>c. (c, the (fs_get t (p @ [c])))) (child_names t p)"
    using assms by (auto simp: os_ReadDir_def split: if_splits sum.splits node.splits)
  then show "map fst es = child_names t p" by (simp add: comp_def)
  show "(c, n) \<in> set es \<longleftrightarrow> fs_get t (p @ [c]) = Some n"
    using set_child_names [of t p] by (auto simp: es)
qed

definition tag_names :: "Store \<Rightarrow> string \<Rightarrow> string set" where
  "tag_names s repo =
     {c. is_file (fs_get (s_disk s) (repoPath s repo @ [c])) \<and> \<not> HasPrefix c ''sha256:''}"

lemma is_file_iff: "is_file m \<longleftrightarrow> (\<exists>n. m = Some n \<and> n \<noteq> Dir)"
  by (auto simp: is_file_def split: option.splits node.splits)

lemma ListTags_Ok:
  assumes "ListTags e repo s = (Ok tags, s')" and "wf_fs (s_disk s)"
  shows "set (case tags of None \<Rightarrow> [] | Some ts \<Rightarrow> ts) = tag_names s repo"
    and "sorted (case tags of None \<Rightarrow> [] | Some ts \<Rightarrow> ts)"
    and "distinct (case tags of None \<Rightarrow> [] | Some ts \<Rightarrow> ts)"
proof -
  let ?ts = "case tags of None \<Rightarrow> [] | Some ts \<Rightarrow> ts"
  have "set ?ts = tag_names s repo \<and> sorted ?ts \<and> distinct ?ts"
  proof (cases "os_ReadDir e (s_disk s) (repoPath s repo)")
    case (Inl er)
    with assms(1) have er: "er = ENOENT" "?ts = []"
      by (auto simp: ListTags_def split: if_splits)
    have "fs_get (s_disk s) (repoPath s repo) = None"
      using Inl er(1) lookup_Err_wf [OF assms(2)]
      by (auto simp: os_ReadDir_def split: if_splits sum.splits node.splits)
    then have "fs_get (s_disk s) (repoPath s repo @ [c]) = None" for c
      using assms(2) unfolding wf_fs_def by (metis butlast_snoc not_Some_eq snoc_eq_iff_butlast)
    then show ?thesis using er by (simp add: tag_names_def is_file_def)
  next
    case (Inr es)
    note entries = os_ReadDir_entries [OF Inr]
    have ts: "?ts = map fst (filter (\<lambda>(c, n). n \<noteq> Dir \<and> \<not> HasPrefix c ''sha256:'') es)"
      using assms(1) Inr by (auto simp: ListTags_def appended_def)
    have "c \<in> set ?ts \<longleftrightarrow> c \<in> tag_names s repo" for c
    proof -
      have "c \<in> set ?ts \<longleftrightarrow> (\<exists>n. (c, n) \<in> set es \<and> n \<noteq> Dir) \<and> \<not> HasPrefix c ''sha256:''"
        unfolding ts by force
      also have "(\<exists>n. (c, n) \<in> set es \<and> n \<noteq> Dir) \<longleftrightarrow>
          is_file (fs_get (s_disk s) (repoPath s repo @ [c]))"
        unfolding entries(2) is_file_iff ..
      finally show ?thesis by (simp add: tag_names_def)
    qed
    then have "set ?ts = tag_names s repo" by blast
    moreover have "sorted ?ts"
      unfolding ts by (rule sorted_filter) (simp add: entries(1))
    moreover have "distinct ?ts"
      unfolding ts by (rule distinct_map_filter) (simp add: entries(1))
    ultimately show ?thesis by blast
  qed
  then show "set ?ts = tag_names s repo" and "sorted ?ts" and "distinct ?ts" by blast+
qed

text \<open>What the referrers listing returns.\<close>

definition refers :: "bytes \<Rightarrow> string \<Rightarrow> Manifest option" where
  "refers b d = (case ParseManifest b of
       None \<Rightarrow> None
     | Some m \<Rightarrow> (case m_Subject m of
         None \<Rightarrow> None | Some subj \<Rightarrow> if d_Digest subj = d then Some m else None))"

lemma refers_iff: "refers b d = Some m \<longleftrightarrow>
    ParseManifest b = Some m \<and> (\<exists>subj. m_Subject m = Some subj \<and> d_Digest subj = d)"
  by (auto simp: refers_def split: option.splits if_splits)

lemma map_filter_set: "y \<in> set (List.map_filter f xs) \<longleftrightarrow> (\<exists>x \<in> set xs. f x = Some y)"
  by (induction xs) (auto simp: List.map_filter_simps split: option.splits)

text \<open>The names in a repository directory are plain components.\<close>

definition names_ok :: "Store \<Rightarrow> string \<Rightarrow> bool" where
  "names_ok s repo \<longleftrightarrow> (\<forall>c. fs_get (s_disk s) (repoPath s repo @ [c]) \<noteq> None \<longrightarrow> safe_comp c)"

lemma referrer_of_iff:
  assumes "wf_fs t" and "fs_get t (p @ [c]) = Some n" and "safe_comp c"
    and "\<And>q. \<not> sys_fault e (SysOpen q) \<and> \<not> sys_fault e (SysRead q)"
  shows "referrer_of e t p d (c, n) = Some x \<longleftrightarrow>
    (\<exists>b m. n = File b \<and> refers b d = Some m \<and> x = referrer_descriptor m)"
  using assms
  by (cases n) (auto simp: referrer_of_def os_ReadFile_def lookup_get refers_def split: option.splits)

lemma GetReferrers_Ok:
  assumes "GetReferrers e repo d s = (Ok res, s')" and "wf_fs (s_disk s)" and "names_ok s repo"
    and "\<And>q. \<not> sys_fault e (SysOpen q) \<and> \<not> sys_fault e (SysRead q)"
  shows "x \<in> set (case res of None \<Rightarrow> [] | Some xs \<Rightarrow> xs) \<longleftrightarrow>
    (\<exists>c b m. fs_get (s_disk s) (repoPath s repo @ [c]) = Some (File b) \<and> refers b d = Some m \<and>
       x = referrer_descriptor m)"
proof (cases "os_Stat e (s_disk s) (repoPath s repo) = Err ENOENT")
  case True
  then have "fs_get (s_disk s) (repoPath s repo) = None"
    using lookup_Err_wf [OF assms(2)] by (auto simp: os_Stat_def split: if_splits)
  then have "fs_get (s_disk s) (repoPath s repo @ [c]) = None" for c
    using assms(2) unfolding wf_fs_def by (metis butlast_snoc not_Some_eq snoc_eq_iff_butlast)
  then show ?thesis using assms(1) True by (auto simp: GetReferrers_def)
next
  case False
  with assms(1) obtain es where es: "os_ReadDir e (s_disk s) (repoPath s repo) = Ok es"
    and res: "res = appended (List.map_filter (referrer_of e (s_disk s) (repoPath s repo) d) es)"
    by (auto simp: GetReferrers_def split: sum.splits)
  note entries = os_ReadDir_entries(2) [OF es]
  have one: "referrer_of e (s_disk s) (repoPath s repo) d (c, n) = Some x \<longleftrightarrow>
      (\<exists>b m. n = File b \<and> refers b d = Some m \<and> x = referrer_descriptor m)"
    if "(c, n) \<in> set es" for c n
    using that entries assms(3)
    by (intro referrer_of_iff [OF assms(2) _ _ assms(4)]) (auto simp: names_ok_def)
  have "x \<in> set (case res of None \<Rightarrow> [] | Some xs \<Rightarrow> xs) \<longleftrightarrow>
      (\<exists>y \<in> set es. referrer_of e (s_disk s) (repoPath s repo) d y = Some x)"
    unfolding res map_filter_set [symmetric] by (simp add: appended_def)
  also have "\<dots> \<longleftrightarrow> (\<exists>c n. (c, n) \<in> set es \<and>
      (\<exists>b m. n = File b \<and> refers b d = Some m \<and> x = referrer_descriptor m))"
    using one by (metis surj_pair)
  finally show ?thesis unfolding entries by blast
qed

end
