(* ===== verification/FsTrace.thy ===== *)
theory FsTrace
  imports FsManifests
begin

text \<open>
  Runs of the filesystem store: any sequence of its methods, each with any arguments and in an
  environment of its own (system calls that fail, readers that fail). Blob and upload methods
  take arbitrary strings; manifest methods take a repository name and references that are plain
  path components. The states reached from an empty base directory keep the invariant, so what
  a run serves under a digest hashes to it.
\<close>

subsection \<open>An environment for concrete runs\<close>

text \<open>No call fails; \<open>go-digest\<close> accepts canonical SHA-256 digests.\<close>

definition calm :: env where
  "calm = \<lparr>sys_fault = (\<lambda>_. False), short_io = (\<lambda>_. 0), dir_size = 4096, now = 0,
     new_uuid = ''6ba7b810-9dad-41d1-80b4-00c04fd430c8'',
     digest_Parse = (\<lambda>d. if canonical_digest d then Some (''sha256'', drop 7 d) else None)\<rparr>"

lemma calm_sel [simp]:
  "sys_fault calm = (\<lambda>_. False)" "dir_size calm = 4096" "now calm = 0"
  "new_uuid calm = ''6ba7b810-9dad-41d1-80b4-00c04fd430c8''"
  by (simp_all add: calm_def)

lemma digest_ok_calm [simp]: "digest_ok calm"
  using canonical_drop by (auto simp: digest_ok_def calm_def)

lemma uuid_ok_calm [simp]: "uuid_ok calm"
  by (simp add: uuid_ok_def safe_comp_def)

text \<open>The store as \<open>New\<close> opens it on an empty disk.\<close>

definition fresh :: Store where
  "fresh = \<lparr>s_basePath = [''data''], s_uploads = (\<lambda>_. None),
     s_disk = [([''data''], Dir), ([''data'', ''blobs''], Dir), ([''data'', ''manifests''], Dir),
       ([''data'', ''uploads''], Dir)]\<rparr>"

lemma fresh_sel [simp]:
  "s_basePath fresh = [''data'']" "s_uploads fresh = (\<lambda>_. None)"
  by (simp_all add: fresh_def)

lemma fresh_get: "fs_get (s_disk fresh) q =
    (if q \<in> {[], [''data''], [''data'', ''blobs''], [''data'', ''manifests''], [''data'', ''uploads'']}
     then Some Dir else None)"
  by (simp add: fs_get_def fresh_def)

lemma New_fresh: "New calm [''data''] [] = Ok fresh"
proof -
  have "Join [''data''] [x] = [''data'', x]" if "safe_comp x" for x
    using that by simp
  moreover have "safe_comp ''blobs''" "safe_comp ''manifests''" "safe_comp ''uploads''"
    by (simp_all add: safe_comp_def)
  ultimately show ?thesis
    by (simp add: New_def fresh_def os_MkdirAll_def ancestors_def is_file_def fs_get_def fs_set_def
        mkdirs_def)
qed

lemma wf_fresh [simp]: "wf_fs (s_disk fresh)"
  unfolding wf_fs_def fresh_get by auto

lemma fresh_inv [simp]: "fs_inv calm fresh"
  by (simp add: fs_inv_def fs_safe_def addressed_def fs_blobs_def blob_file_def fresh_get
      uploads_ok_def upload_files_def)

subsection \<open>Calls and runs\<close>

datatype call =
    CPutBlob string reader
  | CDeleteBlob string
  | CCreateUpload string
  | CWriteUploadChunk string int reader
  | CCompleteUpload string string
  | CCancelUpload string
  | CPutManifest string string Manifest
  | CDeleteManifest string string

inductive fs_step :: "call \<Rightarrow> Store \<Rightarrow> Store \<Rightarrow> bool" where
  put_blob: "digest_ok e \<Longrightarrow> PutBlob e d rd s = (r, s') \<Longrightarrow> fs_step (CPutBlob d rd) s s'"
| delete_blob: "digest_ok e \<Longrightarrow> DeleteBlob e d s = (r, s') \<Longrightarrow> fs_step (CDeleteBlob d) s s'"
| create_upload: "digest_ok e \<Longrightarrow> uuid_ok e \<Longrightarrow> CreateUpload e repo s = (rc, s') \<Longrightarrow>
    fs_step (CCreateUpload repo) s s'"
| write_chunk: "digest_ok e \<Longrightarrow> WriteUploadChunk e i off rd s = (r, s') \<Longrightarrow>
    fs_step (CWriteUploadChunk i off rd) s s'"
| complete_upload: "digest_ok e \<Longrightarrow> CompleteUpload e i d s = (r, s') \<Longrightarrow>
    fs_step (CCompleteUpload i d) s s'"
| cancel_upload: "digest_ok e \<Longrightarrow> CancelUpload e i s = (r, s') \<Longrightarrow> fs_step (CCancelUpload i) s s'"
| put_manifest: "digest_ok e \<Longrightarrow> put_args_ok repo ref m \<Longrightarrow> PutManifest e repo ref m s = (r, s') \<Longrightarrow>
    fs_step (CPutManifest repo ref m) s s'"
| delete_manifest: "digest_ok e \<Longrightarrow> repo_ok repo \<Longrightarrow> safe_comp ref \<Longrightarrow>
    DeleteManifest e repo ref s = (r, s') \<Longrightarrow> fs_step (CDeleteManifest repo ref) s s'"

inductive_cases fs_step_putE: "fs_step (CPutBlob d rd) s s'"
inductive_cases fs_step_deleteE: "fs_step (CDeleteBlob d) s s'"
inductive_cases fs_step_completeE: "fs_step (CCompleteUpload i d) s s'"
inductive_simps fs_step_put_iff: "fs_step (CPutBlob d rd) s s'"
inductive_simps fs_step_write_iff: "fs_step (CWriteUploadChunk i off rd) s s'"

text \<open>The methods that only read are no steps: they return the state they were given.\<close>

lemma reads_keep_state:
  "GetBlob e d s = (rg, s1) \<Longrightarrow> s1 = s" "BlobExists e d s = (rx, s2) \<Longrightarrow> s2 = s"
  "GetBlobSize e d s = (rz, s3) \<Longrightarrow> s3 = s" "GetManifest e repo ref s = (rm, s4) \<Longrightarrow> s4 = s"
  "ListTags e repo s = (rt, s5) \<Longrightarrow> s5 = s" "ManifestExists e repo ref s = (rx, s6) \<Longrightarrow> s6 = s"
  "GetReferrers e repo d s = (rr, s7) \<Longrightarrow> s7 = s" "GetUpload i s = (ru, s8) \<Longrightarrow> s8 = s"
  "GetUploadStatus i s = (ro, s9) \<Longrightarrow> s9 = s"
  by (auto simp: GetBlob_state BlobExists_state GetBlobSize_state GetManifest_state ListTags_def
      ManifestExists_def GetReferrers_def GetUpload_def GetUploadStatus_def
      split: sum.splits option.splits if_splits)

text \<open>What a run keeps, whatever the environments of its calls.\<close>

definition store_ok :: "Store \<Rightarrow> bool" where
  "store_ok s \<longleftrightarrow> wf_fs (s_disk s) \<and> addressed s \<and> uploads_ok (s_basePath s) (s_uploads s)"

lemma fs_safe_store_ok: "fs_safe e s \<longleftrightarrow> digest_ok e \<and> store_ok s"
  by (auto simp: fs_safe_def store_ok_def)

lemma fs_step_ok:
  assumes "fs_step c s s'" and "store_ok s"
  shows "store_ok s'"
  using assms(1)
proof cases
  case (put_blob e d rd r)
  then show ?thesis using PutBlob_safe [of e s] assms(2) by (simp add: fs_safe_store_ok)
next
  case (delete_blob e d r)
  then show ?thesis using DeleteBlob_safe [of e s] assms(2) by (simp add: fs_safe_store_ok)
next
  case (create_upload e repo rc)
  then show ?thesis using CreateUpload_effect(1) [of e s] assms(2) by (simp add: fs_safe_store_ok)
next
  case (write_chunk e i off rd r)
  then show ?thesis
    using WriteUploadChunk_effect(1) [of e s] no_upload(1) [of s i e off rd] assms(2)
    by (cases "s_uploads s i") (auto simp: fs_safe_store_ok)
next
  case (complete_upload e i d r)
  then show ?thesis
    using CompleteUpload_effect(1) [of e s] no_upload(2) [of s i e d] assms(2)
    by (cases "s_uploads s i") (auto simp: fs_safe_store_ok)
next
  case (cancel_upload e i r)
  show ?thesis
  proof (cases "s_uploads s i")
    case None
    then show ?thesis using cancel_upload no_upload(3) [of s i e] assms(2) by simp
  next
    case (Some u)
    then have "s' = drop_upload e i s"
      using cancel_upload CancelUpload_Some assms(2) by (auto simp: store_ok_def)
    then show ?thesis
      using drop_upload_effect(1) [of e s i] cancel_upload assms(2) by (simp add: fs_safe_store_ok)
  qed
next
  case (put_manifest e repo ref m r)
  then show ?thesis using PutManifest_keeps(1) [of e s] assms(2) by (simp add: fs_safe_store_ok)
next
  case (delete_manifest e repo ref r)
  then show ?thesis using DeleteManifest_keeps(1) [of e s] assms(2) by (simp add: fs_safe_store_ok)
qed

inductive reachable :: "path \<Rightarrow> fs \<Rightarrow> Store \<Rightarrow> bool" for base t where
  start: "New e base t = Ok s \<Longrightarrow> reachable base t s"
| step: "reachable base t s \<Longrightarrow> fs_step c s s' \<Longrightarrow> reachable base t s'"

text \<open>The disk the store is opened on: a tree whose blob files hash to their names (the empty
  directory, or what an earlier run left).\<close>

definition disk_ok :: "path \<Rightarrow> fs \<Rightarrow> bool" where
  "disk_ok base t \<longleftrightarrow> wf_fs t \<and>
     (\<forall>d b. canonical_digest d \<longrightarrow> fs_get t (blob_file base (drop 7 d)) = Some (File b) \<longrightarrow>
        sha256_digest b = d)"

lemma New_Ok:
  assumes "New e base t = Ok s" and "wf_fs t"
  shows "s_basePath s = base \<and> s_uploads s = (\<lambda>_. None) \<and> grows t (s_disk s) \<and> wf_fs (s_disk s)"
proof -
  from assms(1) obtain t1 t2 t3 where mk: "os_MkdirAll e t (Join base [''blobs'']) = Ok t1"
    "os_MkdirAll e t1 (Join base [''manifests'']) = Ok t2"
    "os_MkdirAll e t2 (Join base [''uploads'']) = Ok t3"
    and s: "s = \<lparr>s_basePath = base, s_uploads = (\<lambda>_. None), s_disk = t3\<rparr>"
    by (auto simp: New_def Let_def split: sum.splits)
  have "grows t t3"
    by (rule grows_trans [OF os_MkdirAll_grows [OF mk(1)]
        grows_trans [OF os_MkdirAll_grows [OF mk(2)] os_MkdirAll_grows [OF mk(3)]]])
  moreover have "wf_fs t3"
    using os_MkdirAll_wf(1) [OF mk(3) os_MkdirAll_wf(1) [OF mk(2) os_MkdirAll_wf(1) [OF mk(1) assms(2)]]] .
  ultimately show ?thesis by (simp add: s)
qed

lemma New_store_ok:
  assumes "New e base t = Ok s" and "disk_ok base t"
  shows "store_ok s"
proof -
  have wf: "wf_fs t" using assms(2) by (simp add: disk_ok_def)
  note new = New_Ok [OF assms(1) wf]
  have "sha256_digest b = d" if "fs_blobs s d = Some b" for d b
  proof -
    have "canonical_digest d" using that by (auto simp: fs_blobs_def split: if_splits)
    moreover have "fs_get t (blob_file base (drop 7 d)) = Some (File b)"
      using that new grows_content [of t "s_disk s"]
      by (simp add: fs_blobs_def content_Some split: if_splits)
    ultimately show ?thesis using assms(2) by (simp add: disk_ok_def)
  qed
  then show ?thesis using new by (simp add: store_ok_def addressed_def uploads_ok_def)
qed

lemma reachable_store_ok:
  assumes "reachable base t s" and "disk_ok base t"
  shows "store_ok s"
  using assms by (induction rule: reachable.induct) (auto intro: New_store_ok fs_step_ok)

lemma uploads_base:
  "CreateUpload e repo s = (rc, s') \<Longrightarrow> s_basePath s' = s_basePath s"
  "WriteUploadChunk e i off rd s = (rw, s') \<Longrightarrow> s_basePath s' = s_basePath s"
  "CancelUpload e i s = (rx, s') \<Longrightarrow> s_basePath s' = s_basePath s"
  by (auto simp: CreateUpload_def WriteUploadChunk_def CancelUpload_def GetUpload_def Let_def
      split: sum.splits option.splits prod.splits if_splits)

lemma complete_base: "CompleteUpload e i d s = (r, s') \<Longrightarrow> s_basePath s' = s_basePath s"
  using PutBlob_state
  by (fastforce simp: CompleteUpload_def GetUpload_def Let_def split: sum.splits option.splits prod.splits if_splits)

lemma fs_step_base: "fs_step c s s' \<Longrightarrow> s_basePath s' = s_basePath s"
  by (erule fs_step.cases)
    (auto dest: PutBlob_state DeleteBlob_keeps PutManifest_state DeleteManifest_state uploads_base complete_base)

text \<open>A restart finds a disk of the same kind.\<close>

lemma reachable_base:
  assumes "reachable base t s" and "disk_ok base t"
  shows "s_basePath s = base \<and> disk_ok base (s_disk s)"
proof -
  have base: "s_basePath s = base"
    using assms by (induction rule: reachable.induct) (auto simp: New_Ok disk_ok_def fs_step_base)
  have "store_ok s" by (rule reachable_store_ok [OF assms])
  then show ?thesis using base by (auto simp: store_ok_def disk_ok_def addressed_def fs_blobs_def)
qed

end
