(* ===== verification/FsSpec.thy ===== *)
theory FsSpec
  imports FsTrace
begin

text \<open>
  The abstract store: a map from digests to bytes and a map from upload ids to an offset and the
  bytes received. A call either leaves both alone or does the one thing its name says; the
  filesystem store implements it (\<open>fs_step_simulates\<close>), whatever fails on the way.
\<close>

type_synonym abs_store = "(string \<Rightarrow> bytes option) \<times> (string \<Rightarrow> (int \<times> bytes) option)"

definition alpha :: "Store \<Rightarrow> abs_store" where
  "alpha s = (fs_blobs s, fs_sess s)"

inductive abs_step :: "call \<Rightarrow> abs_store \<Rightarrow> abs_store \<Rightarrow> bool" where
  no_effect: "abs_step c a a"
| put: "sha256_digest (rdata rd) = d \<Longrightarrow> abs_step (CPutBlob d rd) (B, S) (B(d \<mapsto> rdata rd), S)"
| delete: "abs_step (CDeleteBlob d) (B, S) (B(d := None), S)"
| create: "abs_step (CCreateUpload repo) (B, S) (B, S(i \<mapsto> (0, [])))"
| chunk: "S i = Some (n, c) \<Longrightarrow> 0 \<le> off \<Longrightarrow> \<not> rfail rd \<Longrightarrow>
    abs_step (CWriteUploadChunk i off rd) (B, S)
      (B, S(i \<mapsto> (int64 (off + int (length (rdata rd))), write_at c (nat off) (rdata rd))))"
| chunk_part: "S i = Some (n, c) \<Longrightarrow>
    abs_step (CWriteUploadChunk i off rd) (B, S)
      (B, S(i \<mapsto> (n, write_at c (nat off) (take k (rdata rd)))))"
| complete: "S i = Some (n, c) \<Longrightarrow> sha256_digest c = d \<Longrightarrow>
    abs_step (CCompleteUpload i d) (B, S) (B(d \<mapsto> c), S(i := None))"
| cancel: "abs_step (CCancelUpload i) (B, S) (B, S(i := None))"

text \<open>The calls of a client that deletes blobs by canonical digests only.\<close>

fun canonical_call :: "call \<Rightarrow> bool" where
  "canonical_call (CDeleteBlob d) = canonical_digest d"
| "canonical_call _ = True"

lemma fs_inv_store_ok: "digest_ok e \<Longrightarrow> uuid_ok e \<Longrightarrow> fs_inv e s \<longleftrightarrow> store_ok s \<and> upload_files s"
  by (auto simp: fs_inv_def fs_safe_store_ok)

lemma simulate_write:
  assumes "fs_safe e s" and "WriteUploadChunk e i off rd s = (r, s')"
  shows "abs_step (CWriteUploadChunk i off rd) (alpha s) (alpha s')"
proof (cases "s_uploads s i")
  case None
  then show ?thesis using assms(2) no_upload(1) [of s i e off rd] by (simp add: abs_step.no_effect)
next
  case (Some u)
  note effect = WriteUploadChunk_effect [OF assms Some]
  have sess: "fs_sess s i = Some (u_offset u, file_at (s_disk s) (u_tempFile u))"
    using Some by (simp add: fs_sess_def)
  show ?thesis
  proof (cases r)
    case (Inl er)
    with effect(2,4) obtain k where "fs_sess s' = (fs_sess s)(i \<mapsto> (u_offset u,
        write_at (file_at (s_disk s) (u_tempFile u)) (nat off) (take k (rdata rd))))"
      and "fs_blobs s' = fs_blobs s" by blast
    then show ?thesis unfolding alpha_def by (simp only:) (rule abs_step.chunk_part, rule sess)
  next
    case (Inr v)
    with effect(2,5) have new: "fs_sess s' = (fs_sess s)(i \<mapsto> (int64 (off + int (length (rdata rd))),
        write_at (file_at (s_disk s) (u_tempFile u)) (nat off) (rdata rd)))"
      "fs_blobs s' = fs_blobs s" and ok: "0 \<le> off" "\<not> rfail rd" by blast+
    show ?thesis unfolding alpha_def new by (rule abs_step.chunk, rule sess, rule ok, rule ok)
  qed
qed

lemma simulate_complete:
  assumes "fs_safe e s" and "CompleteUpload e i d s = (r, s')"
  shows "abs_step (CCompleteUpload i d) (alpha s) (alpha s')"
proof (cases "s_uploads s i")
  case None
  then show ?thesis using assms(2) no_upload(2) [of s i e d] by (simp add: abs_step.no_effect)
next
  case (Some u)
  note effect = CompleteUpload_effect [OF assms Some]
  have "u_tempFile u = upload_file (s_basePath s) i"
    using assms(1) Some uploads_okD(2) by (auto simp: fs_safe_def)
  then have sess: "fs_sess s i = Some (u_offset u, file_at (s_disk s) (upload_file (s_basePath s) i))"
    using Some by (simp add: fs_sess_def)
  show ?thesis
  proof (cases r)
    case (Inl er)
    with effect(3) have "alpha s' = alpha s" by (simp add: alpha_def)
    then show ?thesis by (simp add: abs_step.no_effect)
  next
    case (Inr v)
    with effect(4) have new: "fs_sess s' = (fs_sess s)(i := None)"
      "fs_blobs s' = (fs_blobs s)(d \<mapsto> file_at (s_disk s) (upload_file (s_basePath s) i))"
      and d: "sha256_digest (file_at (s_disk s) (upload_file (s_basePath s) i)) = d" by blast+
    show ?thesis unfolding alpha_def new by (rule abs_step.complete, rule sess, rule d)
  qed
qed

lemma fs_step_abs:
  assumes "fs_step c s s'" and "store_ok s" and "canonical_call c"
  shows "abs_step c (alpha s) (alpha s')"
  using assms(1)
proof cases
  case (put_blob e d rd r)
  have "fs_safe e s" using put_blob assms(2) by (simp add: fs_safe_store_ok)
  then have "alpha s' = (if isOk r then (fs_blobs s)(d \<mapsto> rdata rd) else fs_blobs s, fs_sess s)"
    using PutBlob_blobs put_blob(2,3) PutBlob_uploads(1) by (simp add: alpha_def)
  moreover have "isOk r \<Longrightarrow> sha256_digest (rdata rd) = d"
    using PutBlob_success [of e d rd s _ s'] put_blob(3) by (auto simp: isOk_iff)
  ultimately show ?thesis
    by (cases "isOk r") (simp_all add: alpha_def put_blob abs_step.put abs_step.no_effect)
next
  case (delete_blob e d r)
  have safe: "fs_safe e s" using delete_blob assms(2) by (simp add: fs_safe_store_ok)
  have can: "canonical_digest d" using assms(3) delete_blob by simp
  note sess = DeleteBlob_uploads(1) [OF safe delete_blob(3) can]
  show ?thesis
  proof (cases r)
    case (Inl er)
    then show ?thesis using DeleteBlob_Err [of e d s er s'] delete_blob by (simp add: abs_step.no_effect)
  next
    case (Inr u)
    then show ?thesis
      using DeleteBlob_blobs [OF safe can] delete_blob sess by (simp add: alpha_def abs_step.delete)
  qed
next
  case (create_upload e repo rc)
  have safe: "fs_safe e s" using create_upload assms(2) by (simp add: fs_safe_store_ok)
  note effect = CreateUpload_effect(2,3) [OF safe create_upload(3,4)]
  show ?thesis
  proof (cases "isOk rc")
    case True
    then show ?thesis using effect by (simp add: alpha_def create_upload(1) abs_step.create)
  next
    case False
    then obtain er where er: "rc = Err er" by (auto simp: not_isOk_iff)
    have "fs_sess s' = fs_sess s"
      using create_upload(4) unfolding er
    proof (cases rule: CreateUpload_cases)
      case (2 er' t1)
      then show ?thesis using fs_sess_cong(1) [of s' s] grows_content [OF os_MkdirAll_grows [OF 2(3)]] by simp
    qed simp_all
    then show ?thesis using effect by (simp add: alpha_def abs_step.no_effect)
  qed
next
  case (write_chunk e i off rd r)
  then show ?thesis using simulate_write [of e s] assms(2) by (simp add: fs_safe_store_ok)
next
  case (complete_upload e i d r)
  then show ?thesis using simulate_complete [of e s] assms(2) by (simp add: fs_safe_store_ok)
next
  case (cancel_upload e i r)
  show ?thesis
  proof (cases "s_uploads s i")
    case None
    then show ?thesis using cancel_upload no_upload(3) [of s i e] by (simp add: abs_step.no_effect)
  next
    case (Some u)
    then have "s' = drop_upload e i s"
      using cancel_upload CancelUpload_Some assms(2) by (auto simp: store_ok_def)
    then show ?thesis
      using drop_upload_effect(2,3) [of e s i] cancel_upload assms(2)
      by (simp add: fs_safe_store_ok alpha_def abs_step.cancel)
  qed
next
  case (put_manifest e repo ref m r)
  then show ?thesis
    using PutManifest_keeps(2,3) [of e s] assms(2) by (simp add: fs_safe_store_ok alpha_def abs_step.no_effect)
next
  case (delete_manifest e repo ref r)
  then show ?thesis
    using DeleteManifest_keeps(2,3) [of e s] assms(2) by (simp add: fs_safe_store_ok alpha_def abs_step.no_effect)
qed

text \<open>Over a whole run.\<close>

inductive abs_reachable :: "abs_store \<Rightarrow> abs_store \<Rightarrow> bool" for a where
  abs_start: "abs_reachable a a"
| abs_step: "abs_reachable a b \<Longrightarrow> abs_step c b b' \<Longrightarrow> abs_reachable a b'"

text \<open>What the abstract store never loses: its content is addressed by digest.\<close>

lemma abs_step_addressed:
  "abs_step c a a' \<Longrightarrow> (\<forall>d b. fst a d = Some b \<longrightarrow> sha256_digest b = d) \<Longrightarrow>
     (\<forall>d b. fst a' d = Some b \<longrightarrow> sha256_digest b = d)"
  by (induction rule: abs_step.induct) (auto split: if_splits)

end
