(* ===== verification/FsProperties.thy ===== *)
theory FsProperties
  imports FsSpec
begin

text \<open>
  What the filesystem store promises: content addressing over every run, puts that are atomic
  and complete, the refinement of its blobs and upload sessions to two maps, and the behaviour
  of manifests, tags and referrers. Each property stands beside a concrete run that meets its
  hypotheses.
\<close>

subsection \<open>Puts that succeed\<close>

definition quiet :: "env \<Rightarrow> bool" where
  "quiet e \<longleftrightarrow> (\<forall>c. \<not> sys_fault e c)"

lemma quiet_calm [simp]: "quiet calm"
  by (simp add: quiet_def)

lemma mkdirs_other: "q \<notin> set qs \<Longrightarrow> fs_get (mkdirs t qs) q = fs_get t q"
  by (induction qs arbitrary: t) (auto simp: mkdirs_def)

lemma ancestors_length: "q \<in> set (ancestors p) \<Longrightarrow> length q < length p"
  by (auto simp: ancestors_def)

lemma os_MkdirAll_longer:
  assumes "os_MkdirAll e t p = Ok t'" and "length p < length q"
  shows "fs_get t' q = fs_get t q"
proof -
  have "q \<notin> set (ancestors p @ [p])" using assms(2) ancestors_length [of q p] by auto
  then show ?thesis using assms(1) mkdirs_other by (auto simp: os_MkdirAll_def split: if_splits)
qed

lemma walk_child:
  assumes "wf_fs t" and "fs_get t p = Some Dir"
  shows "walk_err t (p @ [c]) = None"
  using wf_fs_walk [OF assms] assms(2) by (simp add: walk_err_def ancestors_snoc first_bad_None)

lemma os_Create_Ok:
  assumes "\<not> sys_fault e (SysCreate p)" and "walk_err t p = None" and "fs_get t p \<noteq> Some Dir"
  shows "os_Create e t p = Ok (fs_set p (File []) t)"
  using assms by (simp add: os_Create_def)

lemma os_Rename_Ok:
  assumes "\<not> sys_fault e (SysRename a b)" and "lookup t a = Ok (File c)" and "walk_err t b = None"
    and "fs_get t b \<noteq> Some Dir"
  shows "\<exists>t'. os_Rename e t a b = Ok t'"
  using assms by (simp add: os_Rename_def)

text \<open>Writing a temporary file and renaming it, the way blobs and manifests are stored.\<close>

definition path_free :: "fs \<Rightarrow> path \<Rightarrow> string \<Rightarrow> bool" where
  "path_free t dir c \<longleftrightarrow> (\<forall>q \<in> set (ancestors dir @ [dir]). \<not> is_file (fs_get t q)) \<and>
     fs_get t (dir @ [c]) \<noteq> Some Dir \<and> fs_get t (dir @ [c @ ''.tmp'']) \<noteq> Some Dir"

lemma write_rename_succeeds:
  assumes "quiet e" and "wf_fs t" and "path_free t dir c" and "\<not> rfail rd"
  obtains t1 t2 n t3 t4 where "os_MkdirAll e t dir = Ok t1"
    and "os_Create e t1 (dir @ [c @ ''.tmp'']) = Ok t2"
    and "io_Copy e t2 (dir @ [c @ ''.tmp'']) 0 rd = (n, True, t3)"
    and "os_Rename e t3 (dir @ [c @ ''.tmp'']) (dir @ [c]) = Ok t4"
proof -
  let ?tmp = "dir @ [c @ ''.tmp'']"
  have no: "\<not> sys_fault e x" for x using assms(1) by (simp add: quiet_def)
  obtain t1 where mk: "os_MkdirAll e t dir = Ok t1"
    using os_MkdirAll_Ok [of e dir t] no assms(3) by (auto simp: path_free_def)
  note wf1 = os_MkdirAll_wf [OF mk assms(2)]
  have same: "fs_get t1 (dir @ [x]) = fs_get t (dir @ [x])" for x
    by (rule os_MkdirAll_longer [OF mk]) simp
  let ?t2 = "fs_set ?tmp (File []) t1"
  have cr: "os_Create e t1 ?tmp = Ok ?t2"
    by (rule os_Create_Ok [OF no walk_child [OF wf1]]) (use assms(3) same in \<open>simp add: path_free_def\<close>)
  obtain n ok t3 where cp: "io_Copy e ?t2 ?tmp 0 rd = (n, ok, t3)"
    by (cases "io_Copy e ?t2 ?tmp 0 rd")
  then have ok using no assms(4) by (auto simp: io_Copy_def Let_def)
  with cp have cp: "io_Copy e ?t2 ?tmp 0 rd = (n, True, t3)" by simp
  note wf3 = io_Copy_wf(1) [OF cp os_Create_wf [OF cr wf1(1)] os_Create_file [OF cr]]
  have file3: "fs_get t3 ?tmp = Some (File (rdata rd))"
    using io_Copy_ok(3) [OF cp os_Create_file [OF cr]] by simp
  have other3: "fs_get t3 q = fs_get t1 q" if "q \<noteq> ?tmp" for q
    using that os_Create_same [OF cr] io_Copy_same [OF cp] by (simp add: same_except_def)
  have "fs_get t3 dir = Some Dir" using other3 [of dir] wf1(2) by simp
  then have "walk_err t3 (dir @ [c]) = None" by (rule walk_child [OF wf3])
  moreover have "fs_get t3 (dir @ [c]) \<noteq> Some Dir"
    using other3 [of "dir @ [c]"] same [of c] assms(3) by (simp add: path_free_def)
  ultimately obtain t4 where "os_Rename e t3 ?tmp (dir @ [c]) = Ok t4"
    using os_Rename_Ok [OF no lookup_get [OF wf3 file3], of "dir @ [c]"] by blast
  with mk cr cp show thesis by (rule that)
qed

text \<open>The place of a blob.\<close>

definition blob_dir :: "path \<Rightarrow> string \<Rightarrow> path" where
  "blob_dir base h = base @ [''blobs'', ''sha256'', take 2 h, take 2 (drop 2 h)]"

lemma blob_file_dir: "blob_file base h = blob_dir base h @ [h]"
  by (simp add: blob_file_def blob_dir_def)

definition slot_free :: "Store \<Rightarrow> string \<Rightarrow> bool" where
  "slot_free s d \<longleftrightarrow> path_free (s_disk s) (blob_dir (s_basePath s) (drop 7 d)) (drop 7 d)"

lemma PutBlob_succeeds:
  assumes "quiet e" and "digest_ok e" and "wf_fs (s_disk s)" and "slot_free s d"
    and "sha256_digest (rdata rd) = d" and "\<not> rfail rd"
  shows "\<exists>s'. PutBlob e d rd s = (Ok (), s')"
proof -
  let ?h = "drop 7 d"
  let ?dir = "blob_dir (s_basePath s) ?h"
  have can: "canonical_digest d" using assms(5) canonical_sha256_digest by metis
  have p: "blobPath e s d = ?dir @ [?h]"
    using blobPath_blob_file [OF assms(2) can] by (simp add: blob_file_dir)
  have dir: "filepath_Dir (?dir @ [?h]) = ?dir" unfolding filepath_Dir_def by (rule butlast_snoc)
  obtain t1 t2 n t3 t4 where steps: "os_MkdirAll e (s_disk s) ?dir = Ok t1"
    "os_Create e t1 (?dir @ [?h @ ''.tmp'']) = Ok t2"
    "io_Copy e t2 (?dir @ [?h @ ''.tmp'']) 0 rd = (n, True, t3)"
    "os_Rename e t3 (?dir @ [?h @ ''.tmp'']) (?dir @ [?h]) = Ok t4"
    by (rule write_rename_succeeds [OF assms(1,3) assms(4) [unfolded slot_free_def] assms(6)])
  have "\<not> sys_fault e c" for c using assms(1) by (simp add: quiet_def)
  with steps assms(5) show ?thesis
    unfolding PutBlob_def Let_def p dir tmp_of_append_one by simp
qed

lemma GetBlob_present:
  assumes "quiet e" and "wf_fs (s_disk s)" and "content (fs_get (s_disk s) (blobPath e s d)) = Some b"
  shows "GetBlob e d s = (Ok (bytes_reader b), s)" "BlobExists e d s = (Ok True, s)"
    "GetBlobSize e d s = (Ok (int (length b)), s)"
proof -
  have "lookup (s_disk s) (blobPath e s d) = Ok (File b)"
    using assms(2,3) by (simp add: content_Some lookup_get)
  with assms(1) show "GetBlob e d s = (Ok (bytes_reader b), s)" "BlobExists e d s = (Ok True, s)"
    "GetBlobSize e d s = (Ok (int (length b)), s)"
    by (simp_all add: quiet_def GetBlob_def os_Open_def Let_def BlobExists_def stat_exists_def
        os_Stat_def GetBlobSize_def node_size_def)
qed

lemma slot_free_fresh [simp]: "slot_free fresh d"
  by (simp add: slot_free_def path_free_def blob_dir_def fresh_get is_file_def)

text \<open>A blob put into the fresh store, for the concrete runs.\<close>

lemma fresh_put: "\<exists>s'. PutBlob calm (sha256_digest b) (bytes_reader b) fresh = (Ok (), s')"
  by (rule PutBlob_succeeds) simp_all

lemma fresh_disk_ok [simp]: "disk_ok [''data''] []"
  by (simp add: disk_ok_def fs_get_def blob_file_def)

lemma reachable_fresh: "reachable [''data''] [] fresh"
  by (rule reachable.start [OF New_fresh])

text \<open>The place of a manifest.\<close>

definition manifest_dir :: "path \<Rightarrow> string \<Rightarrow> path" where
  "manifest_dir base repo = base @ [''manifests'', clean_repo repo]"

lemma manifest_file_dir: "manifest_file base repo reference = manifest_dir base repo @ [reference]"
  by (simp add: manifest_file_def manifest_dir_def)

lemma writeManifestFile_succeeds:
  assumes "quiet e" and "wf_fs t" and "path_free t (manifest_dir base repo) reference"
  shows "\<exists>t'. writeManifestFile e t (manifest_file base repo reference) data = (Ok (), t')"
proof -
  let ?dir = "manifest_dir base repo"
  obtain t1 t2 n t3 t4 where steps: "os_MkdirAll e t ?dir = Ok t1"
    "os_Create e t1 (?dir @ [reference @ ''.tmp'']) = Ok t2"
    "io_Copy e t2 (?dir @ [reference @ ''.tmp'']) 0 (bytes_reader data) = (n, True, t3)"
    "os_Rename e t3 (?dir @ [reference @ ''.tmp'']) (?dir @ [reference]) = Ok t4"
    by (rule write_rename_succeeds [OF assms, of "bytes_reader data"]) simp
  have dir: "filepath_Dir (?dir @ [reference]) = ?dir" unfolding filepath_Dir_def by (rule butlast_snoc)
  show ?thesis
    using steps unfolding writeManifestFile_def Let_def manifest_file_dir dir tmp_of_append_one os_WriteFile_def
    by simp
qed

text \<open>Storing a manifest leaves the place of another reference in its repository free.\<close>

lemma writeManifestFile_free:
  assumes "writeManifestFile e t (manifest_file base repo x) data = (Ok u, t')" and "wf_fs t"
    and "path_free t (manifest_dir base repo) y"
  shows "path_free t' (manifest_dir base repo) y"
proof -
  let ?dir = "manifest_dir base repo"
  from assms(1) obtain t1 t2 t3 n where mk: "os_MkdirAll e t (filepath_Dir (manifest_file base repo x)) = Ok t1"
    and cr: "os_Create e t1 (tmp_of (manifest_file base repo x)) = Ok t2"
    and cp: "io_Copy e t2 (tmp_of (manifest_file base repo x)) 0 (bytes_reader data) = (n, True, t3)"
    and rn: "os_Rename e t3 (tmp_of (manifest_file base repo x)) (manifest_file base repo x) = Ok t'"
    by (cases rule: writeManifestFile_cases) auto
  have dir: "filepath_Dir (manifest_file base repo x) = ?dir"
    unfolding filepath_Dir_def manifest_file_dir by (rule butlast_snoc)
  have same: "fs_get t' q = fs_get t1 q"
    if "q \<noteq> ?dir @ [x]" "q \<noteq> ?dir @ [x @ ''.tmp'']" for q
    using that os_Create_same [OF cr] io_Copy_same [OF cp] os_Rename_same [OF rn]
    by (simp add: same_except_def manifest_file_dir tmp_of_append_one)
  have grown: "content (fs_get t1 q) = content (fs_get t q)" for q
    using grows_content [OF os_MkdirAll_grows [OF mk]] .
  have files: "\<not> is_file (fs_get t' q)" if "q \<in> set (ancestors ?dir @ [?dir])" for q
  proof -
    have "length q \<le> length ?dir" using that ancestors_length [of q ?dir] by auto
    then have "q \<noteq> ?dir @ [x]" "q \<noteq> ?dir @ [x @ ''.tmp'']" by auto
    then show ?thesis using same grown assms(3) that by (auto simp: path_free_def is_file_content)
  qed
  have leaf: "fs_get t' (?dir @ [z]) \<noteq> Some Dir" if "fs_get t (?dir @ [z]) \<noteq> Some Dir" for z
  proof (cases "z = x \<or> z = x @ ''.tmp''")
    case True
    then show ?thesis
      using writeManifestFile_Ok [OF assms(1)] by (auto simp: manifest_file_dir tmp_of_append_one)
  next
    case False
    then have "fs_get t' (?dir @ [z]) = fs_get t1 (?dir @ [z])" by (intro same) auto
    also have "\<dots> = fs_get t (?dir @ [z])" by (rule os_MkdirAll_longer [OF mk]) (simp add: dir)
    finally show ?thesis using that by simp
  qed
  show ?thesis using files leaf assms(3) by (simp add: path_free_def)
qed

lemma PutManifest_succeeds:
  assumes "quiet e" and "wf_fs (s_disk s)" and "put_args_ok repo reference m"
    and "\<forall>x \<in> put_refs reference m. path_free (s_disk s) (manifest_dir (s_basePath s) repo) x"
  shows "\<exists>s'. PutManifest e repo reference m s = (Ok (), s')"
proof -
  let ?data = "MarshalManifest m"
  have ok: "repo_ok repo" "safe_comp reference" "path_free (s_disk s) (manifest_dir (s_basePath s) repo) reference"
    using assms(3,4) by (auto simp: put_args_ok_def put_refs_def)
  obtain t where w: "writeManifestFile e (s_disk s) (manifest_file (s_basePath s) repo reference) ?data = (Ok (), t)"
    using writeManifestFile_succeeds [OF assms(1,2) ok(3)] by blast
  note run = PutManifest_def Let_def manifestPath_safe [OF ok(1,2)] w
  show ?thesis
  proof (cases "\<not> is_digest_ref reference \<and> m_Digest m \<noteq> []")
    case True
    then have d: "safe_comp (m_Digest m)" "path_free (s_disk s) (manifest_dir (s_basePath s) repo) (m_Digest m)"
      using assms(3,4) by (auto simp: put_args_ok_def put_refs_def)
    obtain t' where "writeManifestFile e t (manifest_file (s_basePath s) repo (m_Digest m)) ?data = (Ok (), t')"
      using writeManifestFile_succeeds [OF assms(1) writeManifestFile_wf [OF w assms(2)]
          writeManifestFile_free [OF w assms(2) d(2)]] by blast
    with True show ?thesis by (simp add: run manifestPath_safe [OF ok(1) d(1)])
  next
    case False
    then show ?thesis by (auto simp: run)
  qed
qed

lemma path_free_fresh [simp]: "path_free (s_disk fresh) (manifest_dir [''data''] repo) x"
  by (simp add: path_free_def manifest_dir_def fresh_get is_file_def)

subsection \<open>Blobs\<close>

lemma store_ok_safe: "store_ok s \<Longrightarrow> digest_ok e \<Longrightarrow> fs_safe e s"
  by (simp add: fs_safe_store_ok)

lemma calm_put_reachable:
  assumes "reachable base t s" and "PutBlob calm d rd s = (r, s')"
  shows "reachable base t s'"
  using assms fs_step.put_blob [OF digest_ok_calm assms(2)] by (rule_tac reachable.step)

lemma put_present:
  assumes "PutBlob e d rd s = (Ok u, s')" and "fs_safe e s" and "digest_ok e'"
  shows "content (fs_get (s_disk s') (blobPath e' s' d)) = Some (rdata rd)" and "wf_fs (s_disk s')"
proof -
  have ok: "digest_ok e" "wf_fs (s_disk s)" using assms(2) by (auto simp: fs_safe_def)
  note can = PutBlob_canonical [OF assms(1)]
  have "blobPath e' s' d = blobPath e s d"
    using PutBlob_state [OF assms(1)] by (simp add: blobPath_blob_file ok(1) assms(3) can)
  then show "content (fs_get (s_disk s') (blobPath e' s' d)) = Some (rdata rd)"
    using PutBlob_success [OF assms(1)] by simp
  show "wf_fs (s_disk s')" by (rule PutBlob_wf [OF assms(1) ok(2)])
qed



text \<open>C19. A put completes: with no failing system call, nothing in the way of the blob's path
  and a reader that delivers the bytes the digest names, \<open>PutBlob\<close> succeeds, adds exactly that
  blob, and \<open>GetBlob\<close>, \<open>BlobExists\<close> and \<open>GetBlobSize\<close> then return the bytes, true and
  their number.\<close>

theorem put_blob_completes:
  assumes "quiet e" and "fs_safe e s" and "slot_free s d" and "sha256_digest (rdata rd) = d"
    and "\<not> rfail rd"
  shows "\<exists>s'. PutBlob e d rd s = (Ok (), s') \<and> fs_blobs s' = (fs_blobs s)(d \<mapsto> rdata rd) \<and>
    GetBlob e d s' = (Ok (bytes_reader (rdata rd)), s') \<and> BlobExists e d s' = (Ok True, s') \<and>
    GetBlobSize e d s' = (Ok (int (length (rdata rd))), s')"
proof -
  have ok: "digest_ok e" "wf_fs (s_disk s)" using assms(2) by (auto simp: fs_safe_def)
  obtain s' where put: "PutBlob e d rd s = (Ok (), s')"
    using PutBlob_succeeds [OF assms(1) ok assms(3-5)] by blast
  show ?thesis
    using put PutBlob_blobs [OF ok(1) put] put_present [OF put assms(2) ok(1)]
      GetBlob_present [OF assms(1)] by (intro exI [of _ s']) simp
qed

theorem put_blob_completes_witness:
  "\<exists>s'. PutBlob calm (sha256_digest [7]) (bytes_reader [7]) fresh = (Ok (), s') \<and>
     fs_blobs s' = (fs_blobs fresh)(sha256_digest [7] \<mapsto> [7]) \<and>
     GetBlob calm (sha256_digest [7]) s' = (Ok (bytes_reader [7]), s')"
  using put_blob_completes [of calm fresh "sha256_digest [7]" "bytes_reader [7]"] fresh_inv
  by (auto simp: fs_inv_def)

text \<open>C18. A put is atomic: when \<open>PutBlob\<close> returns an error, whatever the digest string, the
  reader and the failing system calls, every file whose name does not end in \<open>.tmp\<close> is as
  before, and so are the blobs the store serves, the upload sessions and the invariant.\<close>

theorem put_blob_atomic:
  assumes "fs_safe e s" and "PutBlob e d rd s = (Err er, s')"
  shows "(\<forall>q. is_tmp q \<or> content (fs_get (s_disk s') q) = content (fs_get (s_disk s) q)) \<and>
    fs_blobs s' = fs_blobs s \<and> fs_sess s' = fs_sess s \<and> fs_safe e s'"
proof (intro conjI allI)
  show "is_tmp q \<or> content (fs_get (s_disk s') q) = content (fs_get (s_disk s) q)" for q
    using PutBlob_content [OF assms(2), of q] by auto
  have "digest_ok e" using assms(1) by (simp add: fs_safe_def)
  from PutBlob_blobs [OF this assms(2)] show "fs_blobs s' = fs_blobs s" by simp
  show "fs_sess s' = fs_sess s" by (rule PutBlob_uploads(1) [OF assms])
  show "fs_safe e s'" by (rule PutBlob_safe [OF assms])
qed

theorem put_blob_atomic_witness:
  "\<exists>er s'. PutBlob calm ''sha256:zz'' (bytes_reader [7]) fresh = (Err er, s') \<and>
     fs_blobs s' = fs_blobs fresh"
proof -
  obtain r s' where put: "PutBlob calm ''sha256:zz'' (bytes_reader [7]) fresh = (r, s')" by fastforce
  have "\<not> canonical_digest ''sha256:zz''" by (simp add: canonical_digest_def canonical_hex_def)
  then obtain er where "r = Err er" using put PutBlob_canonical by (cases r) auto
  moreover have "fs_safe calm fresh" using fresh_inv by (simp add: fs_inv_def)
  ultimately show ?thesis using put put_blob_atomic by blast
qed



subsection \<open>Manifests\<close>

definition demo_manifest :: "string \<Rightarrow> Manifest" where
  "demo_manifest d = zero_Manifest\<lparr>m_MediaType := MT_ImageManifest, m_SchemaVersion := 2, m_Digest := d\<rparr>"

lemma demo_manifest_ok [simp]:
  "Manifest_ok (demo_manifest d)" "ascii_manifest (demo_manifest d)" "m_Digest (demo_manifest d) = d"
  by (simp_all add: demo_manifest_def Manifest_ok_def zero_Manifest_def Descriptor_ok_def
      zero_Descriptor_def omap_ok_def in_int64_def ascii_manifest_def manifest_json_def
      descriptor_json_def omit_str_def omit_list_def omit_map_def omit_bytes_def omit_ptr_def
      ascii_str_def MT_ImageManifest_def)

lemma safe_v1 [simp]: "safe_comp ''v1''" "\<not> is_digest_ref ''v1''" "repo_ok ''lib/app''" "repo_ok ''lib_app''"
  by (simp_all add: safe_comp_def is_digest_ref_def HasPrefix_def repo_ok_iff)

lemma demo_put_args [simp]:
  "put_args_ok ''lib/app'' ''v1'' (demo_manifest (sha256_digest b))"
  by (simp add: put_args_ok_def put_refs_def canonical_safe)

lemma fresh_put_manifest:
  "\<exists>s'. PutManifest calm ''lib/app'' ''v1'' (demo_manifest (sha256_digest b)) fresh = (Ok (), s')"
  by (rule PutManifest_succeeds) simp_all



text \<open>Two repository names that differ only in \<open>/\<close> against \<open>_\<close> share their files: a
  manifest put into \<open>a/b\<close> is served from \<open>a_b\<close> too.\<close>

theorem repositories_alias:
  assumes "fs_safe e s" and "put_args_ok repo reference m" and "m_Digest m = [] \<or> canonical_digest (m_Digest m)"
    and "Manifest_ok m" and "ascii_manifest m"
    and "PutManifest e repo reference m s = (Ok u, s')" and "quiet e'"
    and "repo_ok repo'" and "clean_repo repo' = clean_repo repo"
  shows "GetManifest e' repo' reference s' = (Ok (read_back repo' reference m), s')"
proof -
  have base: "s_basePath s' = s_basePath s" and wf: "wf_fs (s_disk s')"
    using PutManifest_state [OF assms(6)] assms(1) by (auto simp: fs_safe_def)
  have ref: "reference \<in> put_refs reference m" by (simp add: put_refs_def)
  have "is_digest_ref x" if "x \<in> put_refs reference m" "x \<noteq> reference" for x
    using that assms(3) canonical_is_digest_ref by (auto simp: put_refs_def split: if_splits)
  from PutManifest_stored [OF assms(6,2) this ref] base
  have "fs_get (s_disk s') (manifestPath s' repo' reference) = Some (File (MarshalManifest m))"
    using assms(2,8,9) by (simp add: manifestPath_safe put_args_ok_def put_refs_def manifest_file_def)
  then show ?thesis unfolding read_back_def
    by (rule GetManifest_file [OF wf _ ParseManifest_Marshal [OF assms(4,5)]])
      (use assms(7) in \<open>auto simp: quiet_def\<close>)
qed

theorem repositories_alias_witness:
  "\<exists>s'. PutManifest calm ''lib/app'' ''v1'' (demo_manifest (sha256_digest [9])) fresh = (Ok (), s') \<and>
     GetManifest calm ''lib_app'' ''v1'' s' =
       (Ok (read_back ''lib_app'' ''v1'' (demo_manifest (sha256_digest [9]))), s')"
proof -
  obtain s' where "PutManifest calm ''lib/app'' ''v1'' (demo_manifest (sha256_digest [9])) fresh = (Ok (), s')"
    using fresh_put_manifest by blast
  moreover from this have "GetManifest calm ''lib_app'' ''v1'' s' =
       (Ok (read_back ''lib_app'' ''v1'' (demo_manifest (sha256_digest [9]))), s')"
    by (rule repositories_alias [rotated 5])
      (use fresh_inv in \<open>auto simp: fs_inv_def clean_repo_def ReplaceChar_def\<close>)
  ultimately show ?thesis by blast
qed

text \<open>C28. The tag listing: \<open>ListTags\<close> returns the names of the files in the repository's
  directory that are not digest references, sorted and without repetitions.\<close>

theorem list_tags_sorted:
  assumes "ListTags e repo s = (Ok tags, s')" and "wf_fs (s_disk s)"
  shows "set (case tags of None \<Rightarrow> [] | Some ts \<Rightarrow> ts) =
      {c. is_file (fs_get (s_disk s) (repoPath s repo @ [c])) \<and> \<not> is_digest_ref c} \<and>
    sorted (case tags of None \<Rightarrow> [] | Some ts \<Rightarrow> ts) \<and> distinct (case tags of None \<Rightarrow> [] | Some ts \<Rightarrow> ts)"
  using ListTags_Ok [OF assms] by (simp add: tag_names_def is_digest_ref_def)

theorem list_tags_sorted_witness:
  "\<exists>tags. ListTags calm ''lib/app'' fresh = (Ok tags, fresh) \<and>
     set (case tags of None \<Rightarrow> [] | Some ts \<Rightarrow> ts) = {}"
proof -
  have "repoPath fresh ''lib/app'' = [''data'', ''manifests'', ''lib_app'']"
    by (simp add: repoPath_safe clean_repo_def ReplaceChar_def)
  then have list: "ListTags calm ''lib/app'' fresh = (Ok (Some []), fresh)"
    by (simp add: ListTags_def os_ReadDir_def lookup_def walk_err_def ancestors_def fresh_get)
  from list_tags_sorted [OF list wf_fresh] list show ?thesis by (intro exI [of _ "Some []"]) simp
qed



end
