(* ===== verification/ChunkedUpload.thy ===== *)
theory ChunkedUpload
  imports UploadHandler FsProperties
begin

text \<open>
  A client's chunked upload, end to end over the handlers: POST, one PATCH per chunk with the
  offset in \<open>Content-Range\<close>, PUT with the digest. On any store that meets the upload contract,
  if every answer is the success one, the store holds the concatenation of the parts under the
  digest; on the filesystem store with nothing failing every answer is.
\<close>

subsection \<open>The client\<close>

definition start_request :: "string \<Rightarrow> request" where
  "start_request repo = \<lparr>r_Method = ''POST'', r_Path = ''/v2/'' @ repo @ ''/blobs/uploads/'',
     r_Query = [(''route_name'', [repo])], r_Header = [], r_Body = bytes_reader [], r_ContentLength = 0\<rparr>"

definition chunk_request :: "string \<Rightarrow> string \<Rightarrow> int \<Rightarrow> bytes \<Rightarrow> request" where
  "chunk_request repo i off b = \<lparr>r_Method = ''PATCH'', r_Path = upload_location repo i,
     r_Query = [(''route_name'', [repo]), (''route_uuid'', [i])],
     r_Header = h_set ''Content-Range'' (content_range off (off + int (length b) - 1)) [],
     r_Body = bytes_reader b, r_ContentLength = int (length b)\<rparr>"

definition finish_request :: "string \<Rightarrow> string \<Rightarrow> string \<Rightarrow> request" where
  "finish_request repo i d = \<lparr>r_Method = ''PUT'', r_Path = upload_location repo i,
     r_Query = [(''digest'', [d]), (''route_name'', [repo]), (''route_uuid'', [i])],
     r_Header = [], r_Body = bytes_reader [], r_ContentLength = 0\<rparr>"

lemma request_params [simp]:
  "GetParam (start_request repo) ''name'' = repo" "q_get (r_Query (start_request repo)) ''digest'' = []"
  "q_get (r_Query (start_request repo)) ''mount'' = []"
  "GetParam (chunk_request repo i off b) ''uuid'' = i" "GetParam (chunk_request repo i off b) ''name'' = repo"
  "r_Body (chunk_request repo i off b) = bytes_reader b"
  "h_get (r_Header (chunk_request repo i off b)) ''Content-Range'' = content_range off (off + int (length b) - 1)"
  "GetParam (finish_request repo i d) ''uuid'' = i" "GetParam (finish_request repo i d) ''name'' = repo"
  "q_get (r_Query (finish_request repo i d)) ''digest'' = d" "r_ContentLength (finish_request repo i d) = 0"
  by (simp_all add: GetParam_def q_get_def start_request_def chunk_request_def finish_request_def)

fun patch_all :: "'s store_ops \<Rightarrow> string \<Rightarrow> string \<Rightarrow> int \<Rightarrow> bytes list \<Rightarrow> 's \<Rightarrow> bool \<times> 's" where
  "patch_all ops repo i off [] s = (True, s)"
| "patch_all ops repo i off (b # bs) s =
     (case PatchUpload ops (chunk_request repo i off b) new_rw s of (w, s') \<Rightarrow>
        if status w = 202 then patch_all ops repo i (off + int (length b)) bs s' else (False, s'))"

text \<open>The upload id is what follows the fixed part of the \<open>Location\<close> header.\<close>

definition chunked_upload ::
  "'s store_ops \<Rightarrow> string \<Rightarrow> bytes list \<Rightarrow> string \<Rightarrow> 's \<Rightarrow> bool \<times> 's" where
  "chunked_upload ops repo parts d s =
     (case StartUpload ops (start_request repo) new_rw s of (w, s1) \<Rightarrow>
        if status w \<noteq> 202 then (False, s1)
        else let i = drop (length (upload_location repo [])) (sent_header w ''Location'') in
          case patch_all ops repo i 0 parts s1 of (ok, s2) \<Rightarrow>
            if \<not> ok then (False, s2)
            else case PutUpload ops (finish_request repo i d) new_rw s2 of (w', s3) \<Rightarrow>
              (status w' = 201, s3))"

lemma drop_location [simp]: "drop (length (upload_location repo [])) (upload_location repo i) = i"
  by (simp add: upload_location_def)

lemma StartUpload_chunked:
  "StartUpload ops (start_request repo) new_rw s =
     (case op_CreateUpload ops repo s of
        (Err er, s1) \<Rightarrow> (internal_error er new_rw, s1)
      | (Ok up, s1) \<Rightarrow> (WriteHeader 202 (SetHeader ''Range'' ''0-0''
          (SetHeader ''Location'' (upload_location repo (u_ID up)) new_rw)), s1))"
  by (simp add: StartUpload_def Let_def)

subsection \<open>On any upload store\<close>

lemma in_int64_le: "in_int64 (int m) \<Longrightarrow> n \<le> m \<Longrightarrow> in_int64 (int n)"
  by (simp add: in_int64_def)

context upload_store
begin

lemma patch_all_appends:
  assumes "inv s" and "sess s i = Some (int (length c), c)"
    and "in_int64 (int (length (c @ concat parts)))"
    and "patch_all ops repo i (int (length c)) parts s = (True, s')"
  shows "inv s' \<and> blobs s' = blobs s \<and>
    sess s' i = Some (int (length (c @ concat parts)), c @ concat parts)"
  using assms
proof (induction parts arbitrary: c s)
  case Nil
  then show ?case by simp
next
  case (Cons b bs)
  obtain w s1 where p: "PatchUpload ops (chunk_request repo i (int (length c)) b) new_rw s = (w, s1)"
    by fastforce
  with Cons.prems(4) have ok: "status w = 202"
    and rest: "patch_all ops repo i (int (length (c @ b))) bs s1 = (True, s')"
    by (auto split: if_splits)
  have si: "sess s (GetParam (chunk_request repo i (int (length c)) b) ''uuid'') = Some (int (length c), c)"
    using Cons.prems(2) by simp
  note step = patch_session [OF Cons.prems(1) unsent_new si p]
  have "in_int64 (int (length (c @ b)))" by (rule in_int64_le [OF Cons.prems(3)]) simp
  then have "sess s1 i = Some (int (length (c @ b)), c @ b)"
    using step(3) [OF ok] by (simp add: write_at_end)
  from Cons.IH [OF step(1) this] Cons.prems(3) rest step(2) show ?case by simp
qed

lemma chunked_upload_stores:
  assumes "inv s" and "chunked_upload ops repo parts d s = (True, s')"
    and "in_int64 (int (length (concat parts)))"
  shows "inv s' \<and> sha256_digest (concat parts) = d \<and> blobs s' = (blobs s)(d \<mapsto> concat parts)"
proof -
  obtain x s1 where cr: "op_CreateUpload ops repo s = (x, s1)" by fastforce
  with assms(2) obtain up where x: "x = Ok up"
    by (cases x) (auto simp: chunked_upload_def StartUpload_chunked)
  let ?i = "u_ID up"
  note i1 = create_inv [OF assms(1) cr]
  have s1: "sess s1 ?i = Some (int (length ([] :: bytes)), [])"
    using create_Ok [OF assms(1) cr [unfolded x]] by simp
  obtain s2 where pa: "patch_all ops repo ?i (int (length ([] :: bytes))) parts s1 = (True, s2)"
    and rest: "(case PutUpload ops (finish_request repo ?i d) new_rw s2 of (w', s3) \<Rightarrow> (status w' = 201, s3)) = (True, s')"
    using assms(2) cr x
    by (auto simp: chunked_upload_def StartUpload_chunked Let_def split: prod.splits if_splits)
  note all = patch_all_appends [OF conjunct1 [OF i1] s1 _ pa]
  obtain w where put: "PutUpload ops (finish_request repo ?i d) new_rw s2 = (w, s')" and ok: "status w = 201"
    using rest by (auto split: prod.splits)
  have a: "inv s2" "blobs s2 = blobs s" "sess s2 (GetParam (finish_request repo ?i d) ''uuid'') =
      Some (int (length (concat parts)), concat parts)"
    using all assms(3) i1 by simp_all
  note fin = put_session [OF a(1) unsent_new a(3) put]
  from fin(1) fin(3) [OF ok] a(2) show ?thesis by simp
qed

end

subsection \<open>On the filesystem store, with nothing failing\<close>

text \<open>Nothing is in the way of the uploads directory and of the next session's file.\<close>

definition uploads_free :: "env \<Rightarrow> Store \<Rightarrow> bool" where
  "uploads_free e s \<longleftrightarrow> path_free (s_disk s) (s_basePath s @ [''uploads'']) (new_uuid e)"

lemma CreateUpload_succeeds:
  assumes "quiet e" and "uuid_ok e" and "wf_fs (s_disk s)" and "uploads_free e s"
  shows "\<exists>up s'. CreateUpload e repo s = (Ok up, s')"
proof -
  let ?dir = "s_basePath s @ [''uploads'']"
  have no: "\<not> sys_fault e x" for x using assms(1) by (simp add: quiet_def)
  obtain t1 where mk: "os_MkdirAll e (s_disk s) ?dir = Ok t1"
    using os_MkdirAll_Ok [of e ?dir "s_disk s"] no assms(4) by (auto simp: uploads_free_def path_free_def)
  note wf1 = os_MkdirAll_wf [OF mk assms(3)]
  have path: "uploadPath s (new_uuid e) = ?dir @ [new_uuid e]"
    using uploadPath_upload_file assms(2) by (simp add: uuid_ok_def upload_file_def)
  have "fs_get t1 (?dir @ [new_uuid e]) = fs_get (s_disk s) (?dir @ [new_uuid e])"
    by (rule os_MkdirAll_longer [OF mk]) simp
  then have "fs_get t1 (?dir @ [new_uuid e]) \<noteq> Some Dir"
    using assms(4) unfolding uploads_free_def path_free_def by simp
  then have "os_Create e t1 (?dir @ [new_uuid e]) = Ok (fs_set (?dir @ [new_uuid e]) (File []) t1)"
    using os_Create_Ok [OF no walk_child [OF wf1]] by blast
  then show ?thesis using mk path by (simp add: CreateUpload_def Let_def)
qed

lemma WriteUploadChunk_succeeds:
  assumes "quiet e" and "fs_inv e s" and "s_uploads s i = Some u" and "0 \<le> off" and "\<not> rfail rd"
  shows "\<exists>s'. WriteUploadChunk e i off rd s = (Ok (), s')"
proof -
  have no: "\<not> sys_fault e x" for x using assms(1) by (simp add: quiet_def)
  have "is_file (fs_get (s_disk s) (u_tempFile u))"
    using fs_invD(3) [OF assms(2)] assms(3) by (auto simp: upload_files_def)
  then obtain b where "fs_get (s_disk s) (u_tempFile u) = Some (File b)"
    by (auto simp: is_file_def split: option.splits node.splits)
  then have "os_OpenFile_W e (s_disk s) (u_tempFile u) = Ok b"
    using no lookup_get [OF fs_invD(5) [OF assms(2)]] by (simp add: os_OpenFile_W_def)
  then show ?thesis
    using assms(3-5) no
    by (simp add: WriteUploadChunk_def GetUpload_def GetTempFile_def io_Copy_def Let_def)
qed

lemma CompleteUpload_succeeds:
  assumes "quiet e" and "fs_inv e s" and "fs_sess s i = Some (n, c)" and "sha256_digest c = d"
    and "slot_free s d"
  shows "\<exists>s'. CompleteUpload e i d s = (Ok (), s')"
proof -
  have no: "\<not> sys_fault e x" for x using assms(1) by (simp add: quiet_def)
  obtain u where u: "s_uploads s i = Some u" "u_tempFile u = upload_file (s_basePath s) i"
    "c = file_at (s_disk s) (upload_file (s_basePath s) i)"
    using sess_upload [OF assms(2,3)] by blast
  have "is_file (fs_get (s_disk s) (u_tempFile u))"
    using fs_invD(3) [OF assms(2)] u(1) by (auto simp: upload_files_def)
  then have "fs_get (s_disk s) (u_tempFile u) = Some (File c)"
    using u(2,3) by (auto simp: is_file_def file_at_def split: option.splits node.splits)
  then have op: "os_Open e (s_disk s) (u_tempFile u) = Ok (bytes_reader c)"
    using no lookup_get [OF fs_invD(5) [OF assms(2)]] by (simp add: os_Open_def Let_def)
  obtain s1 where "PutBlob e d (bytes_reader c) s = (Ok (), s1)"
    using PutBlob_succeeds [OF assms(1) fs_invD(4,5) [OF assms(2)] assms(5), of "bytes_reader c"] assms(4)
    by auto
  with op u(1) show ?thesis
    by (simp add: CompleteUpload_def GetUpload_def GetTempFile_def Let_def)
qed

text \<open>Uploading leaves the places of the blobs free.\<close>

lemma blob_ancestor_not_upload:
  "q \<in> set (ancestors (blob_dir b h) @ [blob_dir b h]) \<Longrightarrow> q \<noteq> upload_file b i"
proof
  assume q: "q \<in> set (ancestors (blob_dir b h) @ [blob_dir b h])" and u: "q = upload_file b i"
  have "q = take (length q) (blob_dir b h)" using q by (auto simp: ancestors_def)
  then have "upload_file b i = take (length b + 2) (blob_dir b h)" using u by (simp add: upload_file_def)
  then show False by (simp add: upload_file_def blob_dir_def)
qed

lemma slot_free_frame:
  assumes "slot_free s d" and "s_basePath s' = s_basePath s"
    and "\<And>q. q \<noteq> upload_file (s_basePath s) i \<Longrightarrow>
      content (fs_get (s_disk s') q) = content (fs_get (s_disk s) q)"
    and "\<And>q. length (s_basePath s) + 2 < length q \<Longrightarrow> fs_get (s_disk s') q = fs_get (s_disk s) q"
  shows "slot_free s' d"
proof -
  let ?h = "drop 7 d"
  let ?dir = "blob_dir (s_basePath s) ?h"
  have "\<not> is_file (fs_get (s_disk s') q)" if "q \<in> set (ancestors ?dir @ [?dir])" for q
    using assms(1,3) blob_ancestor_not_upload [OF that, of i] that
    unfolding slot_free_def path_free_def is_file_content by metis
  moreover have "fs_get (s_disk s') (?dir @ [x]) = fs_get (s_disk s) (?dir @ [x])" for x
    by (rule assms(4)) (simp add: blob_dir_def)
  ultimately show ?thesis
    using assms(1,2) unfolding slot_free_def path_free_def by metis
qed

lemma CreateUpload_slot:
  assumes "CreateUpload e repo s = (Ok up, s')" and "uuid_ok e" and "slot_free s d"
  shows "slot_free s' d"
  using assms(1)
proof (cases rule: CreateUpload_cases)
  case (3 u t1 t2)
  have path: "uploadPath s (new_uuid e) = upload_file (s_basePath s) (new_uuid e)"
    using uploadPath_upload_file assms(2) by (simp add: uuid_ok_def)
  note cr = os_Create_same [OF 3(5)]
  show ?thesis
  proof (rule slot_free_frame [OF assms(3), where i = "new_uuid e"])
    show "content (fs_get (s_disk s') q) = content (fs_get (s_disk s) q)"
      if "q \<noteq> upload_file (s_basePath s) (new_uuid e)" for q
      using that cr grows_content [OF os_MkdirAll_grows [OF 3(4)]] 3(3) path by (simp add: same_except_def)
    show "fs_get (s_disk s') q = fs_get (s_disk s) q" if "length (s_basePath s) + 2 < length q" for q
    proof -
      have "q \<noteq> upload_file (s_basePath s) (new_uuid e)" using that by (auto simp: upload_file_def)
      then have "fs_get (s_disk s') q = fs_get t1 q" using cr 3(3) path by (simp add: same_except_def)
      also have "\<dots> = fs_get (s_disk s) q" by (rule os_MkdirAll_longer [OF 3(4)]) (use that in simp)
      finally show ?thesis .
    qed
  qed (use 3(3) in simp)
qed simp_all

lemma WriteUploadChunk_slot:
  assumes "WriteUploadChunk e i off rd s = (Ok v, s')" and "fs_inv e s" and "s_uploads s i = Some u"
    and "slot_free s d"
  shows "slot_free s' d"
proof -
  have tmp: "u_tempFile u = upload_file (s_basePath s) i"
    using uploads_okD(2) [OF fs_invD(7) [OF assms(2)] assms(3)] .
  show ?thesis using assms(1,3)
  proof (cases rule: WriteUploadChunk_cases)
    case (3 b n t1)
    have same: "fs_get (s_disk s') q = fs_get (s_disk s) q" if "q \<noteq> upload_file (s_basePath s) i" for q
      using that io_Copy_same [OF 3(4)] 3(5) tmp by (simp add: same_except_def)
    have short: "q \<noteq> upload_file (s_basePath s) i" if "length (s_basePath s) + 2 < length q" for q
      using that by (auto simp: upload_file_def)
    show ?thesis
    proof (rule slot_free_frame [OF assms(4), where i = i])
      show "s_basePath s' = s_basePath s" by (simp add: 3(5))
    qed (simp_all add: same short)
  qed simp_all
qed

lemma patch_succeeds:
  assumes "quiet e" and "fs_inv e s" and "fs_sess s i = Some (int (length c), c)" and "slot_free s d"
    and "b \<noteq> []" and "in_int64 (int (length (c @ b)))"
  shows "\<exists>w s'. PatchUpload (fs_ops e) (chunk_request repo i (int (length c)) b) new_rw s = (w, s') \<and>
    status w = 202 \<and> slot_free s' d"
proof -
  let ?r = "chunk_request repo i (int (length c)) b"
  obtain u where u: "s_uploads s i = Some u" "u_offset u = int (length c)"
    using sess_upload [OF assms(2,3)] by blast
  obtain s1 where wr: "WriteUploadChunk e i (int (length c)) (bytes_reader b) s = (Ok (), s1)"
    using WriteUploadChunk_succeeds [OF assms(1,2) u(1), of "int (length c)" "bytes_reader b"] by auto
  have bl: "0 < length b" using assms(5) by simp
  have pos: "0 \<le> int (length c) + int (length b) - 1" using bl by linarith
  have "in_int64 (int (length c))" by (rule in_int64_le [OF assms(6)]) simp
  then have parse: "parseContentRange (content_range (int (length c)) (int (length c) + int (length b) - 1)) =
      Ok (int (length c))"
    by (intro parse_content_range pos) simp_all
  have "s_uploads s1 i \<noteq> None"
    using wr u(1) by (cases rule: WriteUploadChunk_cases) auto
  then obtain n where st: "GetUploadStatus i s1 = (Ok n, s1)"
    by (auto simp: GetUploadStatus_def GetUpload_def)
  have "GetUploadStatus i s = (Ok (int (length c)), s)"
    using u by (simp add: GetUploadStatus_def GetUpload_def GetOffset_def)
  then have "PatchUpload (fs_ops e) ?r new_rw s =
      (WriteHeader 202 (SetHeader ''Range'' (range_of n)
        (SetHeader ''Location'' (upload_location repo i) new_rw)), s1)"
    using wr st parse by (simp add: PatchUpload_def Let_def)
  then show ?thesis using WriteUploadChunk_slot [OF wr assms(2) u(1) assms(4)] by simp
qed

lemma patch_all_succeeds:
  assumes "quiet e" and "fs_inv e s" and "fs_sess s i = Some (int (length c), c)" and "slot_free s d"
    and "[] \<notin> set parts" and "in_int64 (int (length (c @ concat parts)))"
  shows "\<exists>s'. patch_all (fs_ops e) repo i (int (length c)) parts s = (True, s') \<and> slot_free s' d"
  using assms(2-6)
proof (induction parts arbitrary: c s)
  case Nil
  then show ?case by simp
next
  case (Cons b bs)
  have len: "in_int64 (int (length (c @ b)))" by (rule in_int64_le [OF Cons.prems(5)]) simp
  have "b \<noteq> []" using Cons.prems(4) by auto
  from patch_succeeds [OF assms(1) Cons.prems(1-3) this len, of repo]
  obtain w s1 where p: "PatchUpload (fs_ops e) (chunk_request repo i (int (length c)) b) new_rw s = (w, s1)"
    and ok: "status w = 202" and slot: "slot_free s1 d" by blast
  have si: "fs_sess s (GetParam (chunk_request repo i (int (length c)) b) ''uuid'') = Some (int (length c), c)"
    using Cons.prems(2) by simp
  note step = fsu.patch_session [OF Cons.prems(1) unsent_new si p]
  have "fs_sess s1 i = Some (int (length (c @ b)), c @ b)"
    using step(3) [OF ok] len by (simp add: write_at_end)
  from Cons.IH [OF step(1) this slot] Cons.prems(4,5)
  obtain s' where "patch_all (fs_ops e) repo i (int (length (c @ b))) bs s1 = (True, s')" "slot_free s' d"
    by auto
  then show ?case using p ok by simp
qed

lemma chunked_upload_succeeds:
  assumes "quiet e" and "fs_inv e s" and "uploads_free e s" and "slot_free s (sha256_digest (concat parts))"
    and "[] \<notin> set parts" and "in_int64 (int (length (concat parts)))"
  shows "\<exists>s'. chunked_upload (fs_ops e) repo parts (sha256_digest (concat parts)) s = (True, s')"
proof -
  let ?d = "sha256_digest (concat parts)"
  note inv = fs_invD(2,5) [OF assms(2)]
  obtain up s1 where cr: "CreateUpload e repo s = (Ok up, s1)"
    using CreateUpload_succeeds [OF assms(1) inv assms(3)] by blast
  let ?i = "u_ID up"
  have cr': "op_CreateUpload (fs_ops e) repo s = (Ok up, s1)" using cr by simp
  have i1: "fs_inv e s1" using fsu.create_inv [OF assms(2) cr'] by simp
  have s1: "fs_sess s1 ?i = Some (int (length ([] :: bytes)), [])"
    using fsu.create_Ok [OF assms(2) cr'] by simp
  note slot1 = CreateUpload_slot [OF cr inv(1) assms(4)]
  obtain s2 where pa: "patch_all (fs_ops e) repo ?i (int (length ([] :: bytes))) parts s1 = (True, s2)"
    and slot2: "slot_free s2 ?d"
    using patch_all_succeeds [OF assms(1) i1 s1 slot1 assms(5)] assms(6) by auto
  have "in_int64 (int (length ([] @ concat parts)))" using assms(6) by simp
  note all = fsu.patch_all_appends [OF i1 s1 this pa]
  have i2: "fs_inv e s2" and s2: "fs_sess s2 ?i = Some (int (length (concat parts)), concat parts)"
    using all by simp_all
  obtain s3 where "CompleteUpload e ?i ?d s2 = (Ok (), s3)"
    using CompleteUpload_succeeds [OF assms(1) i2 s2 refl slot2] by blast
  moreover have "?d \<noteq> []" by (simp add: sha256_digest_def)
  ultimately show ?thesis
    using cr' pa
    by (simp add: chunked_upload_def StartUpload_chunked Let_def PutUpload_def put_final_chunk_def)
qed

end
