(* ===== verification/HandlerProperties.thy ===== *)
theory HandlerProperties
  imports ChunkedUpload
begin

text \<open>
  What a client of the blob and upload endpoints sees when the registry runs on the filesystem
  store: the handlers of \<open>blobs.go\<close> and \<open>uploads.go\<close> composed with \<open>filesystem.Store\<close>.
\<close>

subsection \<open>Reading blobs\<close>

definition get_blob_request :: "string \<Rightarrow> string \<Rightarrow> request" where
  "get_blob_request repo d = \<lparr>r_Method = ''GET'', r_Path = blob_location repo d,
     r_Query = [(''route_name'', [repo]), (''route_digest'', [d])],
     r_Header = [], r_Body = bytes_reader [], r_ContentLength = 0\<rparr>"

lemma get_blob_request_sel [simp]:
  "GetParam (get_blob_request repo d) ''digest'' = d" "h_get (r_Header (get_blob_request repo d)) k = []"
  by (simp_all add: GetParam_def q_get_def h_get_def get_blob_request_def)

text \<open>With nothing failing, the store's content of a digest is what GET answers with.\<close>

lemma GetBlob_handler_present:
  assumes "quiet e" and "digest_ok e" and "wf_fs (s_disk s)" and "fs_blobs s d = Some b"
  shows "\<exists>w. BlobHandler_GetBlob (fs_ops e) (get_blob_request repo d) new_rw s = (w, s) \<and>
    status w = 200 \<and> w_body w = b \<and> \<not> w_cut w \<and> sent_header w ''Content-Length'' = Itoa (int (length b))"
proof -
  have "canonical_digest d" using assms(4) by (auto simp: fs_blobs_def split: if_splits)
  then have "content (fs_get (s_disk s) (blobPath e s d)) = Some b"
    using assms(2,4) by (simp add: fs_blobs_path)
  note present = GetBlob_present [OF assms(1,3) this]
  then show ?thesis by (simp add: BlobHandler_GetBlob_def Let_def)
qed

text \<open>A GET of a blob answered with a success whose body is read to the end serves the bytes
  the digest names, with their number as \<open>Content-Length\<close>.\<close>

theorem get_blob_served:
  assumes "fs_inv e s" and "canonical_digest (GetParam r ''digest'')"
    and "BlobHandler_GetBlob (fs_ops e) r new_rw s = (w, s')" and "status w < 300" and "\<not> w_cut w"
  shows "sha256_digest (w_body w) = GetParam r ''digest'' \<and>
    sent_header w ''Content-Length'' = Itoa (int (length (w_body w)))"
  using fsb.get_handler_hash [OF assms(1,2) unsent_new assms(3-5)] by simp

theorem get_blob_served_witness:
  "\<exists>w s. BlobHandler_GetBlob (fs_ops calm) (get_blob_request ''lib/app'' (sha256_digest [1])) new_rw s = (w, s) \<and>
     w_body w = [1] \<and> sha256_digest (w_body w) = sha256_digest [1]"
proof -
  obtain s where put: "PutBlob calm (sha256_digest [1]) (bytes_reader [1]) fresh = (Ok (), s)"
    using fresh_put by blast
  have put': "op_PutBlob (fs_ops calm) (sha256_digest [1]) (bytes_reader [1]) fresh = (Ok (), s)" using put by simp
  have inv: "fs_inv calm s" by (rule fsb.put_inv [OF fresh_inv put'])
  have b: "fs_blobs s (sha256_digest [1]) = Some [1]" using fsb.put_Ok [OF fresh_inv put'] by simp
  obtain w where get: "BlobHandler_GetBlob (fs_ops calm) (get_blob_request ''lib/app'' (sha256_digest [1])) new_rw s = (w, s)"
    and w: "status w = 200" "w_body w = [1]" "\<not> w_cut w"
    using GetBlob_handler_present [OF quiet_calm digest_ok_calm fs_invD(5) [OF inv] b] by blast
  have "sha256_digest (w_body w) = GetParam (get_blob_request ''lib/app'' (sha256_digest [1])) ''digest''"
    using get_blob_served [OF inv _ get] w by simp
  with get w show ?thesis by auto
qed

subsection \<open>Chunked uploads\<close>

text \<open>C7. A chunked upload that is answered with success throughout has stored exactly the
  concatenation of its chunks, under the digest the client named, and that digest is theirs;
  whatever failed or succeeded inside the store, no other blob has changed.\<close>

theorem chunked_upload_content:
  assumes "fs_inv e s" and "chunked_upload (fs_ops e) repo parts d s = (True, s')"
    and "in_int64 (int (length (concat parts)))"
  shows "sha256_digest (concat parts) = d \<and> fs_blobs s' = (fs_blobs s)(d \<mapsto> concat parts) \<and> fs_inv e s'"
  using fsu.chunked_upload_stores [OF assms] by simp

theorem chunked_upload_content_witness:
  "\<exists>s'. chunked_upload (fs_ops calm) ''lib/app'' [[1, 2], [3]] (sha256_digest [1, 2, 3]) fresh = (True, s') \<and>
     fs_blobs s' (sha256_digest [1, 2, 3]) = Some [1, 2, 3]"
proof -
  have free: "uploads_free calm fresh"
    by (simp add: uploads_free_def path_free_def fresh_get is_file_def ancestors_def)
  have small: "in_int64 (int (length (concat [[1, 2], [3 :: 8 word]])))" by (simp add: in_int64_def)
  obtain s' where run: "chunked_upload (fs_ops calm) ''lib/app'' [[1, 2], [3]]
      (sha256_digest (concat [[1, 2], [3]])) fresh = (True, s')"
    using chunked_upload_succeeds [OF quiet_calm fresh_inv free slot_free_fresh _ small] by auto
  from chunked_upload_content [OF fresh_inv run small] run show ?thesis by auto
qed

text \<open>C8. A chunked upload completes: with no failing system call and nothing in the way of the
  session's and the blob's files, every request of an upload in any number of non-empty chunks is
  answered with success, and a GET of the blob then returns the concatenation of the chunks.\<close>

theorem chunked_upload_completes:
  assumes "quiet e" and "fs_inv e s" and "uploads_free e s" and "slot_free s (sha256_digest (concat parts))"
    and "[] \<notin> set parts" and "in_int64 (int (length (concat parts)))"
  shows "\<exists>s' w. chunked_upload (fs_ops e) repo parts (sha256_digest (concat parts)) s = (True, s') \<and>
    BlobHandler_GetBlob (fs_ops e) (get_blob_request repo (sha256_digest (concat parts))) new_rw s' = (w, s') \<and>
    status w = 200 \<and> w_body w = concat parts \<and> \<not> w_cut w"
proof -
  obtain s' where run: "chunked_upload (fs_ops e) repo parts (sha256_digest (concat parts)) s = (True, s')"
    using chunked_upload_succeeds [OF assms] by blast
  from fsu.chunked_upload_stores [OF assms(2) run assms(6)]
  have inv: "fs_inv e s'" and b: "fs_blobs s' (sha256_digest (concat parts)) = Some (concat parts)" by simp_all
  from GetBlob_handler_present [OF assms(1) fs_invD(4,5) [OF inv] b] run show ?thesis by blast
qed

theorem chunked_upload_completes_witness:
  "\<exists>s' w. chunked_upload (fs_ops calm) ''lib/app'' [[1], [2], [3]] (sha256_digest [1, 2, 3]) fresh = (True, s') \<and>
    BlobHandler_GetBlob (fs_ops calm) (get_blob_request ''lib/app'' (sha256_digest [1, 2, 3])) new_rw s' = (w, s') \<and>
    w_body w = [1, 2, 3]"
proof -
  have free: "uploads_free calm fresh"
    by (simp add: uploads_free_def path_free_def fresh_get is_file_def ancestors_def)
  have small: "in_int64 (int (length (concat [[1], [2], [3 :: 8 word]])))" by (simp add: in_int64_def)
  show ?thesis
    using chunked_upload_completes [OF quiet_calm fresh_inv free slot_free_fresh _ small, of "''lib/app''"] by auto
qed

text \<open>C24. Chunks are taken in order: a PATCH whose \<open>Content-Range\<close> starts elsewhere than at the
  session's offset is answered 416 with the range received so far, and one of an unknown session
  404; neither changes anything. A PATCH answered 202 wrote its body where the session stood.\<close>

theorem patch_in_order:
  assumes "fs_inv e s" and "PatchUpload (fs_ops e) r new_rw s = (w, s')"
  shows "case fs_sess s (GetParam r ''uuid'') of
      None \<Rightarrow> status w = 404 \<and> s' = s
    | Some (n, c) \<Rightarrow>
        (case parseContentRange (h_get (r_Header r) ''Content-Range'') of
           Err _ \<Rightarrow> status w = 400 \<and> s' = s
         | Ok off \<Rightarrow>
             if off \<noteq> n then status w = 416 \<and> sent_header w ''Range'' = range_of n \<and> s' = s
             else status w = 202 \<longrightarrow> fs_sess s' = (fs_sess s)(GetParam r ''uuid'' \<mapsto>
               (int64 (n + int (length (rdata (r_Body r)))), write_at c (nat n) (rdata (r_Body r)))))"
proof (cases "fs_sess s (GetParam r ''uuid'')")
  case None
  then show ?thesis using fsu.patch_unknown [OF assms(1) unsent_new None assms(2)] by simp
next
  case (Some x)
  obtain n c where x: "fs_sess s (GetParam r ''uuid'') = Some (n, c)" using Some by (cases x) simp
  show ?thesis
  proof (cases "parseContentRange (h_get (r_Header r) ''Content-Range'')")
    case (Inl er)
    have "status w = 400 \<and> s' = s"
      using assms(2) fsu.status_Some [OF assms(1) x] Inl by (auto simp: PatchUpload_def Let_def)
    with x Inl show ?thesis by simp
  next
    case (Inr off)
    note step = fsu.patch_session [OF assms(1) unsent_new x assms(2)]
    show ?thesis
    proof (cases "off = n")
      case True
      with x Inr step(3) show ?thesis by simp
    next
      case False
      from step(5) [OF Inr False] x Inr False show ?thesis by simp
    qed
  qed
qed

theorem patch_in_order_witness:
  "\<exists>w. PatchUpload (fs_ops calm) (chunk_request ''lib/app'' ''nope'' 0 [1]) new_rw fresh = (w, fresh) \<and>
     status w = 404"
proof -
  obtain w s' where run: "PatchUpload (fs_ops calm) (chunk_request ''lib/app'' ''nope'' 0 [1]) new_rw fresh = (w, s')"
    by fastforce
  have "fs_sess fresh ''nope'' = None" by (simp add: fs_sess_def)
  then show ?thesis using patch_in_order [OF fresh_inv run] run by simp
qed

text \<open>C31. A POST with a digest stores exactly the body, or nothing: it is answered 201 only if the
  body hashes to the digest, and on any other answer no blob has changed; no session is touched.\<close>

theorem monolithic_upload_exact:
  assumes "fs_inv e s" and "q_get (r_Query r) ''digest'' \<noteq> []"
    and "StartUpload (fs_ops e) r new_rw s = (w, s')"
  shows "fs_inv e s' \<and> fs_sess s' = fs_sess s \<and>
    fs_blobs s' = (if status w = 201 then (fs_blobs s)(q_get (r_Query r) ''digest'' \<mapsto> rdata (r_Body r))
                   else fs_blobs s) \<and>
    (status w = 201 \<longrightarrow> sha256_digest (rdata (r_Body r)) = q_get (r_Query r) ''digest'')"
  using fsu.monolithic [OF assms(1) unsent_new assms(2,3)] .

definition post_blob_request :: "string \<Rightarrow> string \<Rightarrow> bytes \<Rightarrow> request" where
  "post_blob_request repo d b = \<lparr>r_Method = ''POST'', r_Path = ''/v2/'' @ repo @ ''/blobs/uploads/'',
     r_Query = [(''digest'', [d]), (''route_name'', [repo])],
     r_Header = [], r_Body = bytes_reader b, r_ContentLength = int (length b)\<rparr>"

lemma post_blob_request_sel [simp]:
  "q_get (r_Query (post_blob_request repo d b)) ''digest'' = d" "r_Body (post_blob_request repo d b) = bytes_reader b"
  by (simp_all add: post_blob_request_def q_get_def)

theorem monolithic_upload_exact_witness:
  "\<exists>w s'. StartUpload (fs_ops calm) (post_blob_request ''lib/app'' (sha256_digest [5]) [5]) new_rw fresh = (w, s') \<and>
     status w = 201 \<and> fs_blobs s' = (fs_blobs fresh)(sha256_digest [5] \<mapsto> [5])"
proof -
  have ne: "sha256_digest [5] \<noteq> []" by (simp add: sha256_digest_def)
  obtain s' where put: "PutBlob calm (sha256_digest [5]) (bytes_reader [5]) fresh = (Ok (), s')"
    using fresh_put by blast
  obtain w where run: "StartUpload (fs_ops calm) (post_blob_request ''lib/app'' (sha256_digest [5]) [5]) new_rw fresh = (w, s')"
    and ok: "status w = 201"
    using put ne by (simp add: StartUpload_def handleMonolithicUpload_def Let_def)
  from monolithic_upload_exact [OF fresh_inv _ run] ne ok run show ?thesis by simp
qed

text \<open>A body that does not hash to the digest of a POST is answered 500 \<open>UNKNOWN\<close> on the
  filesystem store, not 400 \<open>DIGEST_INVALID\<close>: the handler tests for \<open>ErrDigestMismatch\<close>, and
  \<open>PutBlob\<close> reports the mismatch with an error of its own.\<close>

theorem digest_mismatch_is_500:
  assumes "q_get (r_Query r) ''digest'' \<noteq> []"
    and "sha256_digest (rdata (r_Body r)) \<noteq> q_get (r_Query r) ''digest''"
    and "StartUpload (fs_ops e) r new_rw s = (w, s')"
  shows "status w = 500"
proof -
  obtain x s1 where put: "PutBlob e (q_get (r_Query r) ''digest'') (r_Body r) s = (x, s1)" by fastforce
  have "\<exists>er. x = Err er \<and> er \<noteq> ErrDigestMismatch"
    using put assms(2) by (auto simp: PutBlob_def Let_def split: sum.splits prod.splits if_splits)
  then show ?thesis
    using assms(1,3) put by (auto simp: StartUpload_def handleMonolithicUpload_def Let_def)
qed

theorem digest_mismatch_is_500_witness:
  "\<exists>w s'. StartUpload (fs_ops calm) (post_blob_request ''lib/app'' ''sha256:ab'' [5]) new_rw fresh = (w, s') \<and>
     status w = 500"
proof -
  obtain w s' where run: "StartUpload (fs_ops calm) (post_blob_request ''lib/app'' ''sha256:ab'' [5]) new_rw fresh = (w, s')"
    by fastforce
  have "length (sha256_digest [5]) \<noteq> length ''sha256:ab''" by (simp add: sha256_digest_def)
  then have "sha256_digest [5] \<noteq> ''sha256:ab''" by metis
  then show ?thesis using digest_mismatch_is_500 [OF _ _ run] run by simp
qed

text \<open>C33. The offsets \<open>parseContentRange\<close> accepts are not negative and fit in 64 bits, and the
  header a client prints for a range is read back as its start.\<close>

theorem content_range_bounds:
  "(parseContentRange h = Ok i \<longrightarrow> 0 \<le> i \<and> in_int64 i) \<and>
   (0 \<le> a \<longrightarrow> 0 \<le> b \<longrightarrow> in_int64 a \<longrightarrow> parseContentRange (content_range a b) = Ok a)"
  using parseContentRange_bounds parse_content_range by blast

theorem content_range_bounds_witness:
  "parseContentRange (content_range 5 9) = Ok 5 \<and> 0 \<le> (5 :: int)"
  using content_range_bounds [of "content_range 5 9" 5 5 9] by (simp add: in_int64_def)

text \<open>A final PUT with a body and no \<open>Content-Range\<close> writes the body at offset 0, over what
  was received, not after it: answered 201, the blob stored is the session's bytes with their
  beginning overwritten by the body.\<close>

theorem put_without_range_overwrites:
  assumes "fs_inv e s" and "fs_sess s (GetParam r ''uuid'') = Some (n, c)"
    and "h_get (r_Header r) ''Content-Range'' = []" and "0 < r_ContentLength r"
    and "PutUpload (fs_ops e) r new_rw s = (w, s')" and "status w = 201"
  shows "fs_blobs s' (q_get (r_Query r) ''digest'') = Some (write_at c 0 (rdata (r_Body r)))"
proof -
  have "parseContentRange (h_get (r_Header r) ''Content-Range'') = Ok 0"
    using assms(3) by (simp add: parseContentRange_def)
  then show ?thesis
    using fsu.put_session(3) [OF assms(1) unsent_new assms(2,5,6)] assms(4) by auto
qed


definition put_body_request :: "string \<Rightarrow> string \<Rightarrow> string \<Rightarrow> bytes \<Rightarrow> request" where
  "put_body_request repo i d b = (finish_request repo i d)\<lparr>r_Body := bytes_reader b, r_ContentLength := int (length b)\<rparr>"

lemma put_body_request_sel [simp]:
  "GetParam (put_body_request repo i d b) x = GetParam (finish_request repo i d) x"
  "q_get (r_Query (put_body_request repo i d b)) ''digest'' = d" "h_get (r_Header (put_body_request repo i d b)) k = []"
  "r_Body (put_body_request repo i d b) = bytes_reader b" "r_ContentLength (put_body_request repo i d b) = int (length b)"
  by (simp_all add: put_body_request_def GetParam_def q_get_def h_get_def finish_request_def)

text \<open>A session on the fresh store that has received two bytes.\<close>

lemma fresh_session:
  "\<exists>i s. fs_inv calm s \<and> fs_sess s i = Some (2, [1, 2]) \<and> slot_free s d"
proof -
  have free: "uploads_free calm fresh"
    by (simp add: uploads_free_def path_free_def fresh_get is_file_def ancestors_def)
  obtain up s1 where cr: "CreateUpload calm ''lib/app'' fresh = (Ok up, s1)"
    using CreateUpload_succeeds [OF quiet_calm uuid_ok_calm wf_fresh free] by blast
  have cr': "op_CreateUpload (fs_ops calm) ''lib/app'' fresh = (Ok up, s1)" using cr by simp
  have i1: "fs_inv calm s1" using fsu.create_inv [OF fresh_inv cr'] by simp
  have c1: "fs_sess s1 (u_ID up) = Some (int (length ([] :: bytes)), [])"
    using fsu.create_Ok [OF fresh_inv cr'] by simp
  obtain u where u: "s_uploads s1 (u_ID up) = Some u" using sess_upload [OF i1 c1] by blast
  obtain s2 where wr: "WriteUploadChunk calm (u_ID up) 0 (bytes_reader [1, 2]) s1 = (Ok (), s2)"
    using WriteUploadChunk_succeeds [OF quiet_calm i1 u, of 0 "bytes_reader [1, 2]"] by auto
  have wr': "op_WriteUploadChunk (fs_ops calm) (u_ID up) (int (length ([] :: bytes))) (bytes_reader [1, 2]) s1 = (Ok (), s2)"
    using wr by simp
  have "in_int64 2" by (simp add: in_int64_def)
  then have "fs_sess s2 (u_ID up) = Some (2, [1, 2])"
    using fsu.write_append [OF i1 c1 wr'] by simp
  moreover have "fs_inv calm s2" using fsu.write_inv [OF i1 wr'] by simp
  moreover have "slot_free s2 d"
    by (rule WriteUploadChunk_slot [OF wr i1 u CreateUpload_slot [OF cr uuid_ok_calm slot_free_fresh]])
  ultimately show ?thesis by blast
qed

lemma PutUpload_body_succeeds:
  assumes "quiet e" and "fs_inv e s" and "fs_sess s i = Some (n, c)" and "b \<noteq> []"
    and "slot_free s (sha256_digest (write_at c 0 b))"
  shows "\<exists>w s'. PutUpload (fs_ops e) (put_body_request repo i (sha256_digest (write_at c 0 b)) b) new_rw s = (w, s') \<and>
    status w = 201"
proof -
  let ?d = "sha256_digest (write_at c 0 b)"
  obtain u where u: "s_uploads s i = Some u" using sess_upload [OF assms(2,3)] by blast
  obtain s1 where wr: "WriteUploadChunk e i 0 (bytes_reader b) s = (Ok (), s1)"
    using WriteUploadChunk_succeeds [OF assms(1,2) u, of 0 "bytes_reader b"] by auto
  have wr': "op_WriteUploadChunk (fs_ops e) i 0 (bytes_reader b) s = (Ok (), s1)" using wr by simp
  have i1: "fs_inv e s1" using fsu.write_inv [OF assms(2) wr'] by simp
  have c1: "fs_sess s1 i = Some (int64 (int (length b)), write_at c 0 b)"
    using fsu.write_Ok [OF assms(2,3) wr'] by simp
  obtain s2 where "CompleteUpload e i ?d s1 = (Ok (), s2)"
    using CompleteUpload_succeeds [OF assms(1) i1 c1 refl WriteUploadChunk_slot [OF wr assms(2) u assms(5)]]
    by blast
  moreover have "?d \<noteq> []" by (simp add: sha256_digest_def)
  ultimately show ?thesis
    using wr assms(4) by (simp add: PutUpload_def put_final_chunk_def parseContentRange_def Let_def)
qed

theorem put_without_range_overwrites_witness:
  "\<exists>i s w s'. fs_sess s i = Some (2, [1, 2]) \<and>
     PutUpload (fs_ops calm) (put_body_request ''lib/app'' i (sha256_digest [9, 2]) [9]) new_rw s = (w, s') \<and>
     fs_blobs s' (sha256_digest [9, 2]) = Some [9, 2]"
proof -
  have wa: "write_at [1, 2] 0 [9] = [9, 2 :: 8 word]" by (simp add: write_at_def)
  obtain i s where inv: "fs_inv calm s" and sess: "fs_sess s i = Some (2, [1, 2])"
    and slot: "slot_free s (sha256_digest (write_at [1, 2] 0 [9]))"
    using fresh_session by blast
  obtain w s' where run: "PutUpload (fs_ops calm) (put_body_request ''lib/app'' i
      (sha256_digest (write_at [1, 2] 0 [9])) [9]) new_rw s = (w, s')" and ok: "status w = 201"
    using PutUpload_body_succeeds [OF quiet_calm inv sess _ slot] by blast
  have "fs_blobs s' (sha256_digest [9, 2]) = Some [9, 2]"
    using put_without_range_overwrites [OF inv _ _ _ run ok] sess wa by simp
  with run sess wa show ?thesis by auto
qed

end
