(* ===== verification/ManifestStore.thy ===== *)
theory ManifestStore
  imports FsManifests
begin

text \<open>
  The manifest part of the storage interface as a contract: \<open>man s repo ref\<close> is the encoded
  manifest the store holds under a reference of a repository. The filesystem store meets it.
\<close>

text \<open>The arguments the contract covers: names and references that are plain path components,
  and a recorded digest that is empty or canonical.\<close>

definition man_args :: "string \<Rightarrow> string \<Rightarrow> Manifest \<Rightarrow> bool" where
  "man_args repo reference m \<longleftrightarrow>
     repo_ok repo \<and> safe_comp reference \<and> (m_Digest m = [] \<or> canonical_digest (m_Digest m))"

lemma man_args_put: "man_args repo reference m \<Longrightarrow> put_args_ok repo reference m"
  using canonical_safe by (auto simp: man_args_def put_args_ok_def put_refs_def)

lemma man_args_refs:
  assumes "man_args repo reference m" and "x \<in> put_refs reference m"
  shows "safe_comp x" and "x \<noteq> reference \<Longrightarrow> is_digest_ref x"
  using assms canonical_safe canonical_is_digest_ref by (auto simp: man_args_def put_refs_def split: if_splits)

locale manifest_store = blob_store ops inv blobs
  for ops :: "'s store_ops" and inv blobs +
  fixes man :: "'s \<Rightarrow> string \<Rightarrow> string \<Rightarrow> bytes option"
  assumes man_put_inv: "inv s \<Longrightarrow> man_args repo ref m \<Longrightarrow> op_PutManifest ops repo ref m s = (r, s') \<Longrightarrow>
      inv s' \<and> blobs s' = blobs s"
    and man_put_Ok: "inv s \<Longrightarrow> man_args repo ref m \<Longrightarrow> op_PutManifest ops repo ref m s = (Ok u, s') \<Longrightarrow>
      x \<in> put_refs ref m \<Longrightarrow> man s' repo x = Some (MarshalManifest m)"
    and man_get: "inv s \<Longrightarrow> op_GetManifest ops repo ref s = (rm, s') \<Longrightarrow>
      inv s' \<and> blobs s' = blobs s \<and> man s' = man s"
    and man_get_Ok: "inv s \<Longrightarrow> repo_ok repo \<Longrightarrow> safe_comp ref \<Longrightarrow>
      op_GetManifest ops repo ref s = (Ok m, s') \<Longrightarrow>
      \<exists>b m'. man s repo ref = Some b \<and> ParseManifest b = Some m' \<and> m = with_ref repo ref m'"
    and man_get_unknown: "inv s \<Longrightarrow> repo_ok repo \<Longrightarrow> safe_comp ref \<Longrightarrow>
      op_GetManifest ops repo ref s = (Err ErrManifestNotFound, s') \<Longrightarrow> man s repo ref = None"
    and man_exists: "inv s \<Longrightarrow> op_ManifestExists ops repo ref s = (rx, s') \<Longrightarrow>
      inv s' \<and> blobs s' = blobs s \<and> man s' = man s"
    and man_exists_False: "inv s \<Longrightarrow> repo_ok repo \<Longrightarrow> safe_comp ref \<Longrightarrow>
      op_ManifestExists ops repo ref s = (Ok False, s') \<Longrightarrow> man s repo ref = None"
    and man_delete_inv: "inv s \<Longrightarrow> repo_ok repo \<Longrightarrow> safe_comp ref \<Longrightarrow>
      op_DeleteManifest ops repo ref s = (rd, s') \<Longrightarrow> inv s' \<and> blobs s' = blobs s"
    and man_delete_Ok: "inv s \<Longrightarrow> repo_ok repo \<Longrightarrow> safe_comp ref \<Longrightarrow>
      op_DeleteManifest ops repo ref s = (Ok u, s') \<Longrightarrow> man s' repo ref = None"

subsection \<open>On the filesystem\<close>

definition fs_man :: "Store \<Rightarrow> string \<Rightarrow> string \<Rightarrow> bytes option" where
  "fs_man s repo reference = content (fs_get (s_disk s) (manifest_file (s_basePath s) repo reference))"

lemma GetManifest_data:
  assumes "GetManifest e repo reference s = (r, s')" and "wf_fs (s_disk s)"
    and "repo_ok repo" and "safe_comp reference"
  shows "r = Ok m \<Longrightarrow> \<exists>b m'. fs_man s repo reference = Some b \<and> ParseManifest b = Some m' \<and> m = with_ref repo reference m'"
    and "r = Err ErrManifestNotFound \<Longrightarrow> fs_man s repo reference = None"
proof -
  let ?p = "manifest_file (s_basePath s) repo reference"
  note run = assms(1) [unfolded GetManifest_def Let_def manifestPath_safe [OF assms(3,4)]]
  show "\<exists>b m'. fs_man s repo reference = Some b \<and> ParseManifest b = Some m' \<and> m = with_ref repo reference m'"
    if r: "r = Ok m"
  proof -
    from run r obtain b m' where b: "os_ReadFile e (s_disk s) ?p = Ok b" and m': "ParseManifest b = Some m'"
      and m: "m = with_ref repo reference m'"
      by (auto simp: with_ref_def split: sum.splits option.splits)
    from b have "lookup (s_disk s) ?p = Ok (File b)"
      by (auto simp: os_ReadFile_def split: if_splits sum.splits node.splits)
    then have "fs_man s repo reference = Some b"
      using assms(2) by (simp add: lookup_Ok_iff fs_man_def content_Some)
    with m' m show ?thesis by blast
  qed
  show "fs_man s repo reference = None" if r: "r = Err ErrManifestNotFound"
  proof -
    from run r obtain st where "os_ReadFile e (s_disk s) ?p = Err (st, ENOENT)"
      by (auto split: sum.splits option.splits if_splits)
    then have "lookup (s_disk s) ?p = Err ENOENT"
      by (auto simp: os_ReadFile_def split: if_splits sum.splits node.splits)
    then show ?thesis using lookup_Err_wf [OF assms(2)] by (simp add: fs_man_def)
  qed
qed

interpretation fsm: manifest_store "fs_ops e" "fs_inv e" fs_blobs fs_man for e
proof (unfold_locales, simp_all only: fs_ops_sel)
  fix s s' repo ref m x u and r rd :: "error + unit" and rm rx
  note D = fs_invD
  show "fs_inv e s' \<and> fs_blobs s' = fs_blobs s"
    if "fs_inv e s" "man_args repo ref m" "PutManifest e repo ref m s = (r, s')"
    using PutManifest_keeps [OF D(1) [OF that(1)] that(3) man_args_put [OF that(2)]] that(1)
    by (simp add: fs_inv_def)
  show "fs_man s' repo x = Some (MarshalManifest m)"
    if "fs_inv e s" "man_args repo ref m" "PutManifest e repo ref m s = (Ok u, s')" "x \<in> put_refs ref m"
    using PutManifest_stored [OF that(3) man_args_put [OF that(2)] man_args_refs(2) [OF that(2)] that(4)]
      PutManifest_state [OF that(3)] by (simp add: fs_man_def content_Some)
  show "fs_inv e s' \<and> fs_blobs s' = fs_blobs s \<and> fs_man s' = fs_man s"
    if "fs_inv e s" "GetManifest e repo ref s = (rm, s')"
    using GetManifest_state [OF that(2)] that(1) by simp
  show "\<exists>b m'. fs_man s repo ref = Some b \<and> ParseManifest b = Some m' \<and> m = with_ref repo ref m'"
    if "fs_inv e s" "repo_ok repo" "safe_comp ref" "GetManifest e repo ref s = (Ok m, s')"
    using GetManifest_data(1) [OF that(4) D(5) [OF that(1)] that(2,3) refl] .
  show "fs_man s repo ref = None"
    if "fs_inv e s" "repo_ok repo" "safe_comp ref" "GetManifest e repo ref s = (Err ErrManifestNotFound, s')"
    using GetManifest_data(2) [OF that(4) D(5) [OF that(1)] that(2,3) refl] .
  show "fs_inv e s' \<and> fs_blobs s' = fs_blobs s \<and> fs_man s' = fs_man s"
    if "fs_inv e s" "ManifestExists e repo ref s = (rx, s')"
    using that by (simp add: ManifestExists_def)
  show "fs_man s repo ref = None"
    if "fs_inv e s" "repo_ok repo" "safe_comp ref" "ManifestExists e repo ref s = (Ok False, s')"
  proof -
    have "lookup (s_disk s) (manifest_file (s_basePath s) repo ref) = Err ENOENT"
      using that(4) manifestPath_safe [OF that(2,3)]
      by (auto simp: ManifestExists_def stat_exists_def os_Stat_def split: sum.splits if_splits)
    then show ?thesis using lookup_Err_wf [OF D(5) [OF that(1)]] by (simp add: fs_man_def)
  qed
  show "fs_inv e s' \<and> fs_blobs s' = fs_blobs s"
    if "fs_inv e s" "repo_ok repo" "safe_comp ref" "DeleteManifest e repo ref s = (rd, s')"
    using DeleteManifest_keeps [OF D(1) [OF that(1)] that(4,2,3)] that(1) by (simp add: fs_inv_def)
  show "fs_man s' repo ref = None"
    if "fs_inv e s" "repo_ok repo" "safe_comp ref" "DeleteManifest e repo ref s = (Ok u, s')"
    using DeleteManifest_gone [OF that(4) D(5) [OF that(1)]] manifestPath_safe [OF that(2,3)]
      DeleteManifest_state [OF that(4)] by (simp add: fs_man_def)
qed

end
