(* ===== verification/ManifestHandler.thy ===== *)
theory ManifestHandler
  imports HandlerProperties ManifestStore
begin

text \<open>
  \<open>internal/api/handlers/manifests.go\<close> and \<open>referrers.go\<close>: manifests, the tag listing with its
  pagination, and the referrers listing, over any store.
\<close>

subsection \<open>Helpers\<close>

definition isAcceptableMediaType :: "string \<Rightarrow> string \<Rightarrow> bool" where
  "isAcceptableMediaType accept mediaType \<longleftrightarrow> Contains accept mediaType \<or> Contains accept ''*/*''"

definition filterTagsAfter :: "string list option \<Rightarrow> string \<Rightarrow> string list option" where
  "filterTagsAfter tags after = appended (filter (\<lambda>tag. after < tag) (case tags of None \<Rightarrow> [] | Some ts \<Rightarrow> ts))"

definition calculateDigest :: "bytes \<Rightarrow> string" where
  "calculateDigest data = sha256_digest data"

text \<open>The content type of a manifest that is served.\<close>

definition manifest_type :: "Manifest \<Rightarrow> string" where
  "manifest_type m = (if m_MediaType m = [] then MT_ImageManifest else m_MediaType m)"

fun verify_layers :: "'s store_ops \<Rightarrow> Descriptor list \<Rightarrow> 's \<Rightarrow> OCIError option \<times> 's" where
  "verify_layers ops [] s = (None, s)"
| "verify_layers ops (layer # layers) s =
     (if d_Digest layer \<noteq> [] then
        (case op_BlobExists ops (d_Digest layer) s of
           (Err er, s1) \<Rightarrow> (Some (NewOCIError ''UNKNOWN'' ''internal server error'' (Error er)), s1)
         | (Ok False, s1) \<Rightarrow> (Some (ManifestBlobUnknown (d_Digest layer)), s1)
         | (Ok True, s1) \<Rightarrow> verify_layers ops layers s1)
      else verify_layers ops layers s)"

definition verifyManifestBlobs :: "'s store_ops \<Rightarrow> Manifest \<Rightarrow> 's \<Rightarrow> OCIError option \<times> 's" where
  "verifyManifestBlobs ops m s =
     (let layers = (case m_Layers m of None \<Rightarrow> [] | Some l \<Rightarrow> l); config = d_Digest (m_Config m) in
      if config \<noteq> [] then
        (case op_BlobExists ops config s of
           (Err er, s1) \<Rightarrow> (Some (NewOCIError ''UNKNOWN'' ''internal server error'' (Error er)), s1)
         | (Ok False, s1) \<Rightarrow> (Some (ManifestBlobUnknown config), s1)
         | (Ok True, s1) \<Rightarrow> verify_layers ops layers s1)
      else verify_layers ops layers s)"

subsection \<open>Manifests\<close>

definition ManifestHandler_GetManifest :: "'s store_ops \<Rightarrow> request \<Rightarrow> rw \<Rightarrow> 's \<Rightarrow> rw \<times> 's" where
  "ManifestHandler_GetManifest ops r w s =
     (let repo = GetParam r ''name''; reference = GetParam r ''reference'' in
      case op_GetManifest ops repo reference s of
        (Err er, s1) \<Rightarrow>
          (if er = ErrManifestNotFound then WriteErrorResponse 404 [ManifestUnknown reference] w
           else internal_error er w, s1)
      | (Ok m, s1) \<Rightarrow>
          (let contentType = manifest_type m; accept = h_get (r_Header r) ''Accept'' in
           if accept \<noteq> [] \<and> \<not> isAcceptableMediaType accept contentType then
             (WriteErrorResponse 406 [ManifestInvalid ''unsupported media type''] w, s1)
           else
             (let data = MarshalManifest m in
              (WriteBody data (WriteHeader 200
                 (SetHeader ''Docker-Content-Digest'' (m_Digest m)
                   (SetHeader ''Content-Length'' (Itoa (int (length data)))
                     (SetHeader ''Content-Type'' contentType w)))), s1))))"

definition ManifestHandler_HeadManifest :: "'s store_ops \<Rightarrow> request \<Rightarrow> rw \<Rightarrow> 's \<Rightarrow> rw \<times> 's" where
  "ManifestHandler_HeadManifest ops r w s =
     (let repo = GetParam r ''name''; reference = GetParam r ''reference'' in
      case op_ManifestExists ops repo reference s of
        (Err er, s1) \<Rightarrow> (internal_error er w, s1)
      | (Ok False, s1) \<Rightarrow> (WriteErrorResponse 404 [ManifestUnknown reference] w, s1)
      | (Ok True, s1) \<Rightarrow>
        (case op_GetManifest ops repo reference s1 of
           (Err er, s2) \<Rightarrow> (internal_error er w, s2)
         | (Ok m, s2) \<Rightarrow>
             (WriteHeader 200
                (SetHeader ''Docker-Content-Digest'' (m_Digest m)
                  (SetHeader ''Content-Length'' (Itoa (m_Size m))
                    (SetHeader ''Content-Type'' (manifest_type m) w))), s2)))"

text \<open>The manifest a PUT stores: the parsed body, its media type filled in from the request when
  it has none, and the digest of the bytes received.\<close>

definition put_manifest_of :: "request \<Rightarrow> Manifest \<Rightarrow> bytes \<Rightarrow> Manifest" where
  "put_manifest_of r m data =
     (let contentType = h_get (r_Header r) ''Content-Type'';
          m1 = (if m_MediaType m = [] then
                  m\<lparr>m_MediaType := (if contentType \<noteq> [] then contentType else MT_ImageManifest)\<rparr>
                else m)
      in m1\<lparr>m_Digest := calculateDigest data\<rparr>)"

definition ManifestHandler_PutManifest :: "'s store_ops \<Rightarrow> request \<Rightarrow> rw \<Rightarrow> 's \<Rightarrow> rw \<times> 's" where
  "ManifestHandler_PutManifest ops r w s =
     (let repo = GetParam r ''name''; reference = GetParam r ''reference'';
          contentType = h_get (r_Header r) ''Content-Type''; data = rdata (r_Body r) in
      if rfail (r_Body r) then (WriteErrorResponse 400 [ManifestInvalid ''failed to read manifest''] w, s)
      else
        (case ParseManifest data of
           None \<Rightarrow> (WriteErrorResponse 400 [ManifestInvalid ''invalid manifest format''] w, s)
         | Some m0 \<Rightarrow>
           if contentType \<noteq> [] \<and> m_MediaType m0 \<noteq> [] \<and> contentType \<noteq> m_MediaType m0 then
             (WriteErrorResponse 400 [ManifestInvalid ''content type mismatch''] w, s)
           else
             (let m = put_manifest_of r m0 data in
              case verifyManifestBlobs ops m s of
                (Some er, s1) \<Rightarrow> (WriteErrorResponse 400 [er] w, s1)
              | (None, s1) \<Rightarrow>
                (case op_PutManifest ops repo reference m s1 of
                   (Err er, s2) \<Rightarrow> (internal_error er w, s2)
                 | (Ok _, s2) \<Rightarrow>
                   (let w1 = SetHeader ''Docker-Content-Digest'' (m_Digest m)
                               (SetHeader ''Location'' (r_Path r) w);
                        w2 = (case m_Subject m of
                                None \<Rightarrow> w1
                              | Some subj \<Rightarrow> if d_Digest subj \<noteq> [] then SetHeader ''OCI-Subject'' (d_Digest subj) w1
                                          else w1)
                    in (WriteHeader 201 w2, s2))))))"

definition ManifestHandler_DeleteManifest :: "'s store_ops \<Rightarrow> request \<Rightarrow> rw \<Rightarrow> 's \<Rightarrow> rw \<times> 's" where
  "ManifestHandler_DeleteManifest ops r w s =
     (let repo = GetParam r ''name''; reference = GetParam r ''reference'' in
      case op_ManifestExists ops repo reference s of
        (Err er, s1) \<Rightarrow> (internal_error er w, s1)
      | (Ok False, s1) \<Rightarrow> (WriteErrorResponse 404 [ManifestUnknown reference] w, s1)
      | (Ok True, s1) \<Rightarrow>
        (case op_DeleteManifest ops repo reference s1 of
           (Err er, s2) \<Rightarrow> (internal_error er w, s2)
         | (Ok _, s2) \<Rightarrow> (WriteHeader 202 w, s2)))"

subsection \<open>Tags\<close>

text \<open>The tags of one page and, when there are more, the tag the next page starts after.\<close>

definition tags_page :: "string \<Rightarrow> string \<Rightarrow> string list option \<Rightarrow> string list option \<times> string option" where
  "tags_page nStr lastTag allTags =
     (let tags = (if lastTag \<noteq> [] then filterTagsAfter allTags lastTag else allTags);
          ts = (case tags of None \<Rightarrow> [] | Some ts \<Rightarrow> ts)
      in case (if nStr \<noteq> [] then ParseInt nStr else None) of
           None \<Rightarrow> (tags, None)
         | Some n \<Rightarrow>
             if 0 < n \<and> n < int (length ts) then
               (Some (take (nat n) ts), Some (last (take (nat n) ts)))
             else (tags, None))"

text \<open>\<open>linkURL.String()\<close> of the request's URL with its query re-encoded.\<close>

definition next_link :: "request \<Rightarrow> string \<Rightarrow> string" where
  "next_link r nextLast =
     ''<'' @ PathEscape (r_Path r) @ ''?'' @ q_encode (q_set ''last'' nextLast (r_Query r)) @ ''>; rel=\"next\"''"

definition ManifestHandler_ListTags :: "'s store_ops \<Rightarrow> request \<Rightarrow> rw \<Rightarrow> 's \<Rightarrow> rw \<times> 's" where
  "ManifestHandler_ListTags ops r w s =
     (let repo = GetParam r ''name''; nStr = q_get (r_Query r) ''n''; lastTag = q_get (r_Query r) ''last'' in
      case op_ListTags ops repo s of
        (Err er, s1) \<Rightarrow> (internal_error er w, s1)
      | (Ok allTags, s1) \<Rightarrow>
        (case tags_page nStr lastTag allTags of (tags, next) \<Rightarrow>
          (let w1 = (case next of None \<Rightarrow> w | Some l \<Rightarrow> SetHeader ''Link'' (next_link r l) w) in
           (Encode (JObj [(''name'', JStr repo), (''tags'', slice_json JStr tags)])
              (WriteHeader 200 (SetHeader ''Content-Type'' ''application/json'' w1)), s1))))"

subsection \<open>Referrers\<close>

definition isValidDigest :: "string \<Rightarrow> bool" where
  "isValidDigest digest =
     (case SplitN2 CHR '':'' digest of
        [algorithm, encoded] \<Rightarrow>
          if algorithm = [] \<or> encoded = [] then False
          else if length encoded < 32 then False
          else True
      | _ \<Rightarrow> False)"

definition filterByArtifactType :: "Descriptor list option \<Rightarrow> string \<Rightarrow> Descriptor list option" where
  "filterByArtifactType referrers artifactType =
     appended (filter (\<lambda>ref. d_ArtifactType ref = artifactType)
       (case referrers of None \<Rightarrow> [] | Some ds \<Rightarrow> ds))"

definition ReferrersHandler_GetReferrers :: "'s store_ops \<Rightarrow> request \<Rightarrow> rw \<Rightarrow> 's \<Rightarrow> rw \<times> 's" where
  "ReferrersHandler_GetReferrers ops r w s =
     (let repo = GetParam r ''name''; digest = GetParam r ''digest'' in
      if \<not> isValidDigest digest then
        (WriteErrorResponse 400 [NewOCIError ''DIGEST_INVALID'' ''invalid digest'' digest] w, s)
      else
        (let artifactType = q_get (r_Query r) ''artifactType'' in
         case op_GetReferrers ops repo digest s of
           (Err er, s1) \<Rightarrow> (internal_error er w, s1)
         | (Ok referrers, s1) \<Rightarrow>
             (let filtered = (if artifactType \<noteq> [] then filterByArtifactType referrers artifactType else referrers);
                  w1 = (if artifactType \<noteq> [] then SetHeader ''OCI-Filters-Applied'' ''artifactType'' w else w);
                  response = \<lparr>ix_SchemaVersion = 2, ix_MediaType = MT_ImageIndex, ix_Manifests = filtered,
                    ix_Annotations = None\<rparr>
              in (WriteBody (Marshal (index_json response))
                    (WriteHeader 200 (SetHeader ''Content-Type'' MT_ImageIndex w1)), s1))))"

subsection \<open>The blobs a manifest refers to\<close>

definition manifest_blobs :: "Manifest \<Rightarrow> string list" where
  "manifest_blobs m = filter (\<lambda>d. d \<noteq> [])
     (d_Digest (m_Config m) # map d_Digest (case m_Layers m of None \<Rightarrow> [] | Some l \<Rightarrow> l))"

text \<open>On a store whose existence check leaves its state alone, verification succeeds exactly when
  every referenced blob is reported present, and otherwise names the first that is not.\<close>

lemma verify_layers_read:
  assumes "\<And>d. snd (op_BlobExists ops d s) = s"
  shows "verify_layers ops ls s = (fst (verify_layers ops ls s), s)"
    and "fst (verify_layers ops ls s) = None \<longleftrightarrow>
      (\<forall>d \<in> set (map d_Digest ls). d \<noteq> [] \<longrightarrow> fst (op_BlobExists ops d s) = Ok True)"
proof -
  have ex: "op_BlobExists ops d s = (fst (op_BlobExists ops d s), s)" for d
    using assms [of d] by (metis prod.collapse)
  have "verify_layers ops ls s = (fst (verify_layers ops ls s), s) \<and>
    (fst (verify_layers ops ls s) = None \<longleftrightarrow>
      (\<forall>d \<in> set (map d_Digest ls). d \<noteq> [] \<longrightarrow> fst (op_BlobExists ops d s) = Ok True))"
  proof (induction ls)
    case Nil
    then show ?case by simp
  next
    case (Cons l ls)
    show ?case
    proof (cases "d_Digest l = []")
      case True
      with Cons show ?thesis by simp
    next
      case False
      obtain x where x: "op_BlobExists ops (d_Digest l) s = (x, s)" using ex by blast
      show ?thesis
      proof (cases "x = Ok True")
        case True
        with False x Cons show ?thesis by simp
      next
        case bad: False
        then have "\<exists>er. verify_layers ops (l # ls) s = (Some er, s)"
          using False x by (cases x) (auto split: bool.splits)
        then show ?thesis using bad False x by auto
      qed
    qed
  qed
  then show "verify_layers ops ls s = (fst (verify_layers ops ls s), s)"
    and "fst (verify_layers ops ls s) = None \<longleftrightarrow>
      (\<forall>d \<in> set (map d_Digest ls). d \<noteq> [] \<longrightarrow> fst (op_BlobExists ops d s) = Ok True)" by blast+
qed

lemma verifyManifestBlobs_read:
  assumes "\<And>d. snd (op_BlobExists ops d s) = s"
  shows "snd (verifyManifestBlobs ops m s) = s"
    and "fst (verifyManifestBlobs ops m s) = None \<longleftrightarrow>
      (\<forall>d \<in> set (manifest_blobs m). fst (op_BlobExists ops d s) = Ok True)"
proof -
  let ?c = "d_Digest (m_Config m)" and ?ls = "case m_Layers m of None \<Rightarrow> [] | Some l \<Rightarrow> l"
  obtain x where x: "op_BlobExists ops ?c s = (x, s)" using assms [of ?c] by (metis prod.collapse)
  note ls = verify_layers_read [OF assms, of ?ls]
  have ls': "snd (verify_layers ops ?ls s) = s" using ls(1) by (metis snd_conv)
  have "snd (verifyManifestBlobs ops m s) = s \<and>
    (fst (verifyManifestBlobs ops m s) = None \<longleftrightarrow>
      (\<forall>d \<in> set (manifest_blobs m). fst (op_BlobExists ops d s) = Ok True))"
  proof (cases "?c = []")
    case True
    then show ?thesis using ls(2) ls' by (auto simp: verifyManifestBlobs_def manifest_blobs_def)
  next
    case False
    show ?thesis
    proof (cases "x = Ok True")
      case True
      then show ?thesis using False x ls(2) ls'
        by (auto simp: verifyManifestBlobs_def manifest_blobs_def Let_def)
    next
      case bad: False
      then have "\<exists>er. verifyManifestBlobs ops m s = (Some er, s)"
        using False x by (cases x) (auto simp: verifyManifestBlobs_def Let_def split: bool.splits)
      then show ?thesis using bad False x by (auto simp: manifest_blobs_def)
    qed
  qed
  then show "snd (verifyManifestBlobs ops m s) = s"
    and "fst (verifyManifestBlobs ops m s) = None \<longleftrightarrow>
      (\<forall>d \<in> set (manifest_blobs m). fst (op_BlobExists ops d s) = Ok True)" by blast+
qed

lemma put_manifest_of_blobs [simp]:
  "manifest_blobs (put_manifest_of r m b) = manifest_blobs m"
  "m_Digest (put_manifest_of r m b) = sha256_digest b"
  by (simp_all add: put_manifest_of_def manifest_blobs_def Let_def calculateDigest_def)

end
