(* ===== verification/ManifestProperties.thy ===== *)
theory ManifestProperties
  imports ManifestHandler
begin

text \<open>
  What a client of the manifest, tag and referrer endpoints sees: pushing a manifest and pulling
  it back, the blobs a stored manifest needs, the pages of a tag listing and the referrers index.
\<close>

subsection \<open>Marshalling ignores what is not encoded\<close>

lemma omit_list_nonempty: "omit_list k f (nonempty xs) = omit_list k f xs"
  by (auto simp: omit_list_def nonempty_def split: option.splits list.splits)

lemma omit_map_nonempty: "omit_map k (nonempty xs) = omit_map k xs"
  by (auto simp: omit_map_def nonempty_def split: option.splits list.splits)

lemma omit_bytes_nonempty: "omit_bytes k (nonempty xs) = omit_bytes k xs"
  by (auto simp: omit_bytes_def nonempty_def split: option.splits list.splits)

lemma platform_json_stored [simp]: "platform_json (stored_Platform p) = platform_json p"
  by (simp add: platform_json_def stored_Platform_def omit_list_nonempty)

lemma omit_ptr_map: "(\<And>x. f (g x) = f x) \<Longrightarrow> omit_ptr k f (map_option g x) = omit_ptr k f x"
  by (cases x) (simp_all add: omit_ptr_def)

lemma descriptor_json_stored [simp]: "descriptor_json (stored_Descriptor d) = descriptor_json d"
  by (simp add: descriptor_json_def stored_Descriptor_def omit_list_nonempty omit_map_nonempty
      omit_bytes_nonempty omit_ptr_map)

lemma omit_list_stored:
  "omit_list k descriptor_json (nonempty (map_option (map stored_Descriptor) xs)) = omit_list k descriptor_json xs"
  by (cases xs; cases "the xs") (simp_all add: omit_list_def nonempty_def comp_def)

lemma manifest_json_stored [simp]: "manifest_json (stored_Manifest m) = manifest_json m"
  by (simp add: manifest_json_def stored_Manifest_def omit_list_stored omit_map_nonempty omit_ptr_map)

lemma manifest_json_internal [simp]:
  "manifest_json (m\<lparr>m_Digest := d\<rparr>) = manifest_json m" "manifest_json (m\<lparr>m_Size := n\<rparr>) = manifest_json m"
  "manifest_json (with_ref repo reference m) = manifest_json m"
  by (simp_all add: manifest_json_def with_ref_def Let_def)

lemma MarshalManifest_json: "manifest_json m = manifest_json m' \<Longrightarrow> MarshalManifest m = MarshalManifest m'"
  by (simp add: MarshalManifest_def)

subsection \<open>The handlers over the manifest contract\<close>

lemma PutManifest_handler_cases:
  assumes "ManifestHandler_PutManifest ops r w s = (w', s')" and "unsent w"
  obtains "status w' = 400" and "s' = s"
  | m0 er where "ParseManifest (rdata (r_Body r)) = Some m0"
      and "verifyManifestBlobs ops (put_manifest_of r m0 (rdata (r_Body r))) s = (Some er, s')"
      and "status w' = 400"
  | m0 er s1 where "ParseManifest (rdata (r_Body r)) = Some m0"
      and "verifyManifestBlobs ops (put_manifest_of r m0 (rdata (r_Body r))) s = (None, s1)"
      and "op_PutManifest ops (GetParam r ''name'') (GetParam r ''reference'')
             (put_manifest_of r m0 (rdata (r_Body r))) s1 = (Err er, s')"
      and "status w' = 500"
  | m0 s1 where "ParseManifest (rdata (r_Body r)) = Some m0" and "\<not> rfail (r_Body r)"
      and "verifyManifestBlobs ops (put_manifest_of r m0 (rdata (r_Body r))) s = (None, s1)"
      and "op_PutManifest ops (GetParam r ''name'') (GetParam r ''reference'')
             (put_manifest_of r m0 (rdata (r_Body r))) s1 = (Ok (), s')"
      and "status w' = 201"
      and "sent_header w' ''Docker-Content-Digest'' = sha256_digest (rdata (r_Body r))"
proof -
  have oci: "canon_key ''OCI-Subject'' = ''Oci-Subject''" by code_simp
  show thesis
  proof (cases "rfail (r_Body r) \<or> ParseManifest (rdata (r_Body r)) = None")
    case True
    then show thesis using assms
      by (intro that(1)) (auto simp: ManifestHandler_PutManifest_def Let_def split: if_splits option.splits)
  next
    case False
    then obtain m0 where m0: "ParseManifest (rdata (r_Body r)) = Some m0" and rd: "\<not> rfail (r_Body r)" by auto
    let ?m = "put_manifest_of r m0 (rdata (r_Body r))"
    show thesis
    proof (cases "h_get (r_Header r) ''Content-Type'' \<noteq> [] \<and> m_MediaType m0 \<noteq> [] \<and>
        h_get (r_Header r) ''Content-Type'' \<noteq> m_MediaType m0")
      case True
      then show thesis using assms m0 rd by (intro that(1)) (auto simp: ManifestHandler_PutManifest_def Let_def)
    next
      case ct: False
      obtain v s1 where v: "verifyManifestBlobs ops ?m s = (v, s1)" by fastforce
      obtain x s2 where p: "op_PutManifest ops (GetParam r ''name'') (GetParam r ''reference'') ?m s1 = (x, s2)"
        by fastforce
      show thesis
      proof (cases v)
        case (Some er)
        then show thesis using assms m0 rd ct v
          by (intro that(2) [OF m0]) (auto simp: ManifestHandler_PutManifest_def Let_def)
      next
        case None
        show thesis
        proof (cases x)
          case (Inl er)
          then show thesis using assms m0 rd ct v p None
            by (intro that(3) [OF m0]) (auto simp: ManifestHandler_PutManifest_def Let_def)
        next
          case (Inr u)
          then show thesis using assms m0 rd ct v p None oci
            by (intro that(4) [OF m0 rd])
              (auto simp: ManifestHandler_PutManifest_def Let_def split: option.splits)
        qed
      qed
    qed
  qed
qed

context manifest_store
begin

lemma verify_layers_inv:
  assumes "inv s" and "verify_layers ops ls s = (x, s')"
  shows "inv s' \<and> blobs s \<subseteq>\<^sub>m blobs s'"
  using assms
proof (induction ls arbitrary: s)
  case Nil
  then show ?case by simp
next
  case (Cons l ls)
  obtain y s1 where ex: "op_BlobExists ops (d_Digest l) s = (y, s1)" by fastforce
  note i1 = exists_inv [OF Cons.prems(1) ex]
  show ?case
  proof (cases "d_Digest l = []")
    case True
    with Cons show ?thesis by simp
  next
    case False
    show ?thesis
    proof (cases "y = Ok True")
      case True
      with False Cons.prems(2) ex have "verify_layers ops ls s1 = (x, s')" by simp
      with Cons.IH [of s1] i1 show ?thesis using map_le_trans by blast
    next
      case bad: False
      then have "s' = s1" using False Cons.prems(2) ex by (cases y) (auto split: bool.splits)
      with i1 show ?thesis by simp
    qed
  qed
qed

lemma verify_inv:
  assumes "inv s" and "verifyManifestBlobs ops m s = (x, s')"
  shows "inv s' \<and> blobs s \<subseteq>\<^sub>m blobs s'"
proof -
  let ?c = "d_Digest (m_Config m)" and ?ls = "case m_Layers m of None \<Rightarrow> [] | Some l \<Rightarrow> l"
  obtain y s1 where ex: "op_BlobExists ops ?c s = (y, s1)" by fastforce
  note i1 = exists_inv [OF assms(1) ex]
  consider "?c = []" | "?c \<noteq> []" "y = Ok True" | "?c \<noteq> []" "y \<noteq> Ok True" by blast
  then show ?thesis
  proof cases
    case 1
    then have "verify_layers ops ?ls s = (x, s')" using assms(2) by (simp add: verifyManifestBlobs_def)
    then show ?thesis by (rule verify_layers_inv [OF assms(1)])
  next
    case 2
    then have "verify_layers ops ?ls s1 = (x, s')" using assms(2) ex by (simp add: verifyManifestBlobs_def Let_def)
    with verify_layers_inv [of s1] i1 show ?thesis using map_le_trans by blast
  next
    case 3
    then have "s' = s1"
      using assms(2) ex by (cases y) (auto simp: verifyManifestBlobs_def Let_def split: bool.splits)
    with i1 show ?thesis by simp
  qed
qed

text \<open>A PUT answered 201 has the manifest under the reference and, for a tag, under the digest of
  the bytes received; no other answer of the handler before the store is written changes a blob.\<close>

lemma put_handler:
  assumes "inv s" and "unsent w" and "repo_ok (GetParam r ''name'')" and "safe_comp (GetParam r ''reference'')"
    and "ManifestHandler_PutManifest ops r w s = (w', s')"
  shows "inv s'" and "blobs s \<subseteq>\<^sub>m blobs s'"
    and "status w' = 201 \<Longrightarrow> \<exists>m0. ParseManifest (rdata (r_Body r)) = Some m0 \<and>
      (\<forall>x \<in> put_refs (GetParam r ''reference'') (put_manifest_of r m0 (rdata (r_Body r))).
         man s' (GetParam r ''name'') x = Some (MarshalManifest (put_manifest_of r m0 (rdata (r_Body r)))))"
proof -
  have args: "man_args (GetParam r ''name'') (GetParam r ''reference'') (put_manifest_of r m0 (rdata (r_Body r)))"
    for m0 using assms(3,4) by (simp add: man_args_def)
  have "inv s' \<and> blobs s \<subseteq>\<^sub>m blobs s' \<and>
    (status w' = 201 \<longrightarrow> (\<exists>m0. ParseManifest (rdata (r_Body r)) = Some m0 \<and>
      (\<forall>x \<in> put_refs (GetParam r ''reference'') (put_manifest_of r m0 (rdata (r_Body r))).
         man s' (GetParam r ''name'') x = Some (MarshalManifest (put_manifest_of r m0 (rdata (r_Body r)))))))"
    using assms(5,2)
  proof (cases rule: PutManifest_handler_cases)
    case 1
    then show ?thesis using assms(1) by simp
  next
    case (2 m0 er)
    then show ?thesis using verify_inv [OF assms(1) 2(2)] by simp
  next
    case (3 m0 er s1)
    note v = verify_inv [OF assms(1) 3(2)]
    from man_put_inv [OF conjunct1 [OF v] args 3(3)] v 3 show ?thesis by simp
  next
    case (4 m0 s1)
    note v = verify_inv [OF assms(1) 4(3)]
    from man_put_inv [OF conjunct1 [OF v] args 4(4)] man_put_Ok [OF conjunct1 [OF v] args 4(4)] v 4
    show ?thesis by auto
  qed
  then show "inv s'" and "blobs s \<subseteq>\<^sub>m blobs s'"
    and "status w' = 201 \<Longrightarrow> \<exists>m0. ParseManifest (rdata (r_Body r)) = Some m0 \<and>
      (\<forall>x \<in> put_refs (GetParam r ''reference'') (put_manifest_of r m0 (rdata (r_Body r))).
         man s' (GetParam r ''name'') x = Some (MarshalManifest (put_manifest_of r m0 (rdata (r_Body r)))))"
    by blast+
qed

text \<open>A GET answered 200 re-encodes what the store holds; the digest header is empty, because the
  digest of a manifest is not encoded and not restored.\<close>

lemma get_handler:
  assumes "inv s" and "unsent w" and "repo_ok (GetParam r ''name'')" and "safe_comp (GetParam r ''reference'')"
    and "ManifestHandler_GetManifest ops r w s = (w', s')" and "status w' = 200"
  shows "\<exists>b m. man s (GetParam r ''name'') (GetParam r ''reference'') = Some b \<and> ParseManifest b = Some m \<and>
    w_body w' = MarshalManifest m \<and> sent_header w' ''Content-Type'' = manifest_type m \<and>
    sent_header w' ''Docker-Content-Digest'' = []"
proof -
  let ?repo = "GetParam r ''name''" and ?ref = "GetParam r ''reference''"
  obtain x s1 where g: "op_GetManifest ops ?repo ?ref s = (x, s1)" by fastforce
  obtain m where x: "x = Ok m"
    using assms(2,5,6) g by (cases x) (auto simp: ManifestHandler_GetManifest_def Let_def split: if_splits)
  obtain b m' where b: "man s ?repo ?ref = Some b" "ParseManifest b = Some m'" "m = with_ref ?repo ?ref m'"
    using man_get_Ok [OF assms(1,3,4) g [unfolded x]] by blast
  have m: "manifest_type m = manifest_type m'" "m_Digest m = []"
    using b(2,3) ParseManifest_Digest by (auto simp: manifest_type_def with_ref_def Let_def)
  have marshal: "MarshalManifest m = MarshalManifest m'"
    by (rule MarshalManifest_json) (simp add: b(3))
  have "w_body w' = MarshalManifest m \<and> sent_header w' ''Content-Type'' = manifest_type m \<and>
      sent_header w' ''Docker-Content-Digest'' = m_Digest m"
    using assms(2,5,6) g x by (auto simp: ManifestHandler_GetManifest_def Let_def split: if_splits)
  with b m marshal show ?thesis by auto
qed

end

end
