(* ===== verification/ManifestClient.thy ===== *)
theory ManifestClient
  imports ManifestProperties
begin

text \<open>
  The manifest, tag and referrer endpoints on the filesystem store, as their clients see them.
\<close>

subsection \<open>Requests\<close>

definition manifest_request :: "string \<Rightarrow> string \<Rightarrow> string \<Rightarrow> bytes \<Rightarrow> request" where
  "manifest_request meth repo reference b = \<lparr>r_Method = meth,
     r_Path = ''/v2/'' @ repo @ ''/manifests/'' @ reference,
     r_Query = [(''route_name'', [repo]), (''route_reference'', [reference])],
     r_Header = [], r_Body = bytes_reader b, r_ContentLength = int (length b)\<rparr>"

lemma manifest_request_sel [simp]:
  "GetParam (manifest_request mt repo reference b) ''name'' = repo"
  "GetParam (manifest_request mt repo reference b) ''reference'' = reference"
  "h_get (r_Header (manifest_request mt repo reference b)) k = []"
  "r_Body (manifest_request mt repo reference b) = bytes_reader b"
  by (simp_all add: manifest_request_def GetParam_def q_get_def h_get_def)

subsection \<open>Pushing and pulling\<close>

lemma fs_verify:
  "verifyManifestBlobs (fs_ops e) m s = (fst (verifyManifestBlobs (fs_ops e) m s), s)"
  "fst (verifyManifestBlobs (fs_ops e) m s) = None \<longleftrightarrow>
     (\<forall>d \<in> set (manifest_blobs m). BlobExists e d s = (Ok True, s))"
proof -
  have read: "snd (op_BlobExists (fs_ops e) d s) = s" for d by (simp add: BlobExists_def)
  show "verifyManifestBlobs (fs_ops e) m s = (fst (verifyManifestBlobs (fs_ops e) m s), s)"
    using verifyManifestBlobs_read(1) [of "fs_ops e" s m, OF read] by (metis prod.collapse)
  have "BlobExists e d s = (Ok True, s) \<longleftrightarrow> fst (BlobExists e d s) = Ok True" for d
    by (simp add: BlobExists_def)
  then show "fst (verifyManifestBlobs (fs_ops e) m s) = None \<longleftrightarrow>
     (\<forall>d \<in> set (manifest_blobs m). BlobExists e d s = (Ok True, s))"
    using verifyManifestBlobs_read(2) [of "fs_ops e" s m, OF read] by simp
qed

text \<open>A blob reported present has something at its place: its file, or a directory.\<close>

lemma BlobExists_place:
  assumes "BlobExists e d s = (Ok True, s')" and "digest_ok e" and "wf_fs (s_disk s)" and "canonical_digest d"
  shows "fs_blobs s d \<noteq> None \<or> fs_get (s_disk s) (blobPath e s d) = Some Dir"
proof -
  obtain n where "lookup (s_disk s) (blobPath e s d) = Ok n"
    using assms(1) by (auto simp: BlobExists_def stat_exists_def os_Stat_def split: sum.splits if_splits)
  then have "fs_get (s_disk s) (blobPath e s d) = Some n" using assms(3) by (simp add: lookup_Ok_iff)
  then show ?thesis using assms(2,4) by (cases n) (auto simp: fs_blobs_path content_Some)
qed

text \<open>Putting a blob leaves the places of manifests free.\<close>

lemma blob_ancestor_not_manifest:
  "q \<in> set (ancestors (blob_dir b h) @ [blob_dir b h]) \<Longrightarrow> q \<noteq> manifest_dir b repo @ [x]"
proof
  assume q: "q \<in> set (ancestors (blob_dir b h) @ [blob_dir b h])" and m: "q = manifest_dir b repo @ [x]"
  have len: "length q = length b + 3" using m by (simp add: manifest_dir_def)
  have "q = take (length q) (blob_dir b h)" using q by (auto simp: ancestors_def)
  then have "manifest_dir b repo @ [x] = take (length b + 3) (blob_dir b h)" unfolding len using m by simp
  then show False by (simp add: manifest_dir_def blob_dir_def)
qed

lemma PutBlob_manifest_free:
  assumes "PutBlob e d rd s = (Ok u, s')" and "digest_ok e"
    and "path_free (s_disk s) (manifest_dir (s_basePath s) repo) x"
  shows "path_free (s_disk s') (manifest_dir (s_basePath s) repo) x"
proof -
  let ?b = "s_basePath s" and ?h = "drop 7 d"
  let ?p = "blob_file ?b ?h"
  have path: "blobPath e s d = ?p"
    using PutBlob_canonical [OF assms(1)] assms(2) by (simp add: blobPath_blob_file)
  from assms(1) obtain t1 t2 n t3 t4 where mk: "os_MkdirAll e (s_disk s) (filepath_Dir ?p) = Ok t1"
    and cr: "os_Create e t1 (tmp_of ?p) = Ok t2" and cp: "io_Copy e t2 (tmp_of ?p) 0 rd = (n, True, t3)"
    and rn: "os_Rename e t3 (tmp_of ?p) ?p = Ok t4" and s': "s_disk s' = remove_quietly e t4 (tmp_of ?p)"
    by (cases rule: PutBlob_cases) (auto simp: path)
  have dir: "filepath_Dir ?p = blob_dir ?b ?h"
    unfolding filepath_Dir_def blob_file_dir by (rule butlast_snoc)
  have rest: "fs_get (s_disk s') q = fs_get t1 q" if "q \<noteq> ?p" "q \<noteq> tmp_of ?p" for q
    using that os_Create_same [OF cr] io_Copy_same [OF cp] os_Rename_same [OF rn] os_Remove_same
    by (auto simp: s' remove_quietly_def same_except_def split: sum.splits)
  have lens: "length ?p = length ?b + 5" "length (tmp_of ?p) = length ?b + 5"
    unfolding blob_file_dir tmp_of_append_one by (simp_all add: blob_dir_def)
  have short: "fs_get (s_disk s') q = fs_get t1 q" if "length q < length ?b + 5" for q
    by (rule rest) (use that lens in auto)
  have "\<not> is_file (fs_get (s_disk s') q)"
    if q: "q \<in> set (ancestors (manifest_dir ?b repo) @ [manifest_dir ?b repo])" for q
  proof -
    have "length q \<le> length ?b + 2"
      using q ancestors_length [of q "manifest_dir ?b repo"] by (auto simp: manifest_dir_def)
    then have "fs_get (s_disk s') q = fs_get t1 q" by (intro short) simp
    then show ?thesis
      using q assms(3) grows_content [OF os_MkdirAll_grows [OF mk]] by (auto simp: path_free_def is_file_content)
  qed
  moreover have "fs_get (s_disk s') (manifest_dir ?b repo @ [y]) = fs_get (s_disk s) (manifest_dir ?b repo @ [y])" for y
  proof -
    have "length (manifest_dir ?b repo @ [y]) = length ?b + 3" by (simp add: manifest_dir_def)
    then have "fs_get (s_disk s') (manifest_dir ?b repo @ [y]) = fs_get t1 (manifest_dir ?b repo @ [y])"
      by (intro short) simp
    moreover have "manifest_dir ?b repo @ [y] \<notin> set (ancestors (blob_dir ?b ?h) @ [blob_dir ?b ?h])"
      using blob_ancestor_not_manifest by blast
    then have "fs_get t1 (manifest_dir ?b repo @ [y]) = fs_get (s_disk s) (manifest_dir ?b repo @ [y])"
      using mk mkdirs_other by (auto simp: os_MkdirAll_def dir split: if_splits)
    ultimately show ?thesis by simp
  qed
  ultimately show ?thesis using assms(3) by (simp add: path_free_def)
qed


text \<open>C30. A manifest whose upload is refused leaves the store exactly as it was: the handler
  answers 201, 400 or 500; on 400 nothing has been written, and a manifest that refers to a blob
  the store does not report is answered 400.\<close>

theorem refused_manifest_unchanged:
  assumes "ManifestHandler_PutManifest (fs_ops e) r new_rw s = (w, s')"
  shows "status w \<in> {201, 400, 500} \<and> (status w = 400 \<longrightarrow> s' = s) \<and>
    (\<forall>m d. ParseManifest (rdata (r_Body r)) = Some m \<longrightarrow> d \<in> set (manifest_blobs m) \<longrightarrow>
       fst (BlobExists e d s) \<noteq> Ok True \<longrightarrow> status w = 400)"
proof -
  have pure: "x = (fst x, s) \<Longrightarrow> x = (y, s1) \<Longrightarrow> s1 = s" for x :: "OCIError option \<times> Store" and y s1
    by simp
  show ?thesis using assms unsent_new
  proof (cases rule: PutManifest_handler_cases)
    case (2 m0 er)
    then show ?thesis using pure [OF fs_verify(1)] by auto
  next
    case (3 m0 er s1)
    have "fst (verifyManifestBlobs (fs_ops e) (put_manifest_of r m0 (rdata (r_Body r))) s) = None"
      using 3(2) by simp
    then have "\<forall>d \<in> set (manifest_blobs m0). BlobExists e d s = (Ok True, s)" by (simp add: fs_verify(2))
    then show ?thesis using 3(1,4) by auto
  next
    case (4 m0 s1)
    have "fst (verifyManifestBlobs (fs_ops e) (put_manifest_of r m0 (rdata (r_Body r))) s) = None"
      using 4(3) by simp
    then have "\<forall>d \<in> set (manifest_blobs m0). BlobExists e d s = (Ok True, s)" by (simp add: fs_verify(2))
    then show ?thesis using 4(1,5) by auto
  qed simp
qed

text \<open>What pushing the canonical encoding of a manifest stores: that encoding.\<close>

lemma put_manifest_of_Marshal:
  assumes "Manifest_ok m" and "ascii_manifest m" and "m_MediaType m \<noteq> []"
  obtains m0 where "ParseManifest (MarshalManifest m) = Some m0" and "m_MediaType m0 = m_MediaType m"
    and "m_Digest (put_manifest_of r m0 b) = sha256_digest b"
    and "MarshalManifest (put_manifest_of r m0 b) = MarshalManifest m"
    and "manifest_blobs m0 = manifest_blobs m"
proof -
  let ?m0 = "(stored_Manifest m)\<lparr>m_Size := int (length (MarshalManifest m))\<rparr>"
  have "m_MediaType ?m0 = m_MediaType m" by (simp add: stored_Manifest_def)
  then have "put_manifest_of r ?m0 b = ?m0\<lparr>m_Digest := calculateDigest b\<rparr>"
    using assms(3) by (simp only: put_manifest_of_def Let_def) simp
  then have "manifest_json (put_manifest_of r ?m0 b) = manifest_json m"
    by (simp only: manifest_json_internal manifest_json_stored)
  then have marshal: "MarshalManifest (put_manifest_of r ?m0 b) = MarshalManifest m" by (rule MarshalManifest_json)
  have "manifest_blobs ?m0 = manifest_blobs m"
    by (cases "m_Layers m"; cases "the (m_Layers m)")
      (simp_all add: manifest_blobs_def stored_Manifest_def stored_Descriptor_def nonempty_def comp_def)
  then show thesis
    by (rule that [OF ParseManifest_Marshal [OF assms(1,2)] \<open>m_MediaType ?m0 = m_MediaType m\<close>
          put_manifest_of_blobs(2) marshal])
qed

lemma PutManifest_handler_succeeds:
  assumes "quiet e" and "fs_inv e s" and "repo_ok repo" and "safe_comp tag" and "\<not> is_digest_ref tag"
    and "Manifest_ok m" and "ascii_manifest m" and "m_MediaType m \<noteq> []"
    and "\<forall>d \<in> set (manifest_blobs m). canonical_digest d \<and> fs_blobs s d \<noteq> None"
    and "\<forall>x \<in> {tag, sha256_digest (MarshalManifest m)}. path_free (s_disk s) (manifest_dir (s_basePath s) repo) x"
  obtains w s' m0 where "ManifestHandler_PutManifest (fs_ops e)
      (manifest_request ''PUT'' repo tag (MarshalManifest m)) new_rw s = (w, s')" and "status w = 201"
    and "sent_header w ''Docker-Content-Digest'' = sha256_digest (MarshalManifest m)"
    and "ParseManifest (MarshalManifest m) = Some m0" and "m_MediaType m0 = m_MediaType m"
    and "manifest_blobs m0 = manifest_blobs m"
    and "MarshalManifest m0 = MarshalManifest m" and "wf_fs (s_disk s')"
    and "\<And>x. x \<in> {tag, sha256_digest (MarshalManifest m)} \<Longrightarrow>
      fs_get (s_disk s') (manifestPath s' repo x) = Some (File (MarshalManifest m))"
proof -
  let ?b = "MarshalManifest m"
  let ?r = "manifest_request ''PUT'' repo tag ?b"
  obtain m0 where m0: "ParseManifest ?b = Some m0" and mt: "m_MediaType m0 = m_MediaType m"
    and dg: "m_Digest (put_manifest_of ?r m0 ?b) = sha256_digest ?b"
    and same: "MarshalManifest (put_manifest_of ?r m0 ?b) = ?b"
    and blobs: "manifest_blobs m0 = manifest_blobs m"
    using put_manifest_of_Marshal [OF assms(6-8)] by blast
  let ?m = "put_manifest_of ?r m0 ?b"
  have refs: "put_refs tag ?m = {tag, sha256_digest ?b}"
    using assms(5) by (auto simp: put_refs_def sha256_digest_def)
  have args: "man_args repo tag ?m" using assms(3,4) by (simp add: man_args_def)
  have "BlobExists e d s = (Ok True, s)" if "d \<in> set (manifest_blobs m)" for d
    using that assms(9) fs_blobs_path [of e d s] fs_invD(4) [OF assms(2)]
      GetBlob_present(2) [OF assms(1) fs_invD(5) [OF assms(2)]] by force
  then have "fst (verifyManifestBlobs (fs_ops e) ?m s) = None" by (simp add: fs_verify(2) blobs)
  then have v: "verifyManifestBlobs (fs_ops e) ?m s = (None, s)" using fs_verify(1) by metis
  obtain s' where put: "PutManifest e repo tag ?m s = (Ok (), s')"
    using PutManifest_succeeds [OF assms(1) fs_invD(5) [OF assms(2)] man_args_put [OF args]] assms(10) refs
    by auto
  obtain w where run: "ManifestHandler_PutManifest (fs_ops e) ?r new_rw s = (w, s')" and ok: "status w = 201"
    using m0 v put by (simp add: ManifestHandler_PutManifest_def Let_def split: option.splits)
  have sent: "sent_header w ''Docker-Content-Digest'' = sha256_digest ?b"
    using run unsent_new by (cases rule: PutManifest_handler_cases) (use ok in auto)
  have "manifest_json m0 = manifest_json ?m" using mt assms(8) by (simp add: put_manifest_of_def Let_def)
  then have body: "MarshalManifest m0 = ?b" using same MarshalManifest_json by metis
  note state = PutManifest_state [OF put]
  have wf: "wf_fs (s_disk s')" using state fs_invD(5) [OF assms(2)] by blast
  have stored: "fs_get (s_disk s') (manifestPath s' repo x) = Some (File ?b)" if "x \<in> {tag, sha256_digest ?b}" for x
  proof -
    have "safe_comp x" using that assms(4) canonical_safe by auto
    then show ?thesis
      using PutManifest_stored [OF put man_args_put [OF args] man_args_refs(2) [OF args], of x] refs that state
        manifestPath_safe [OF assms(3)] same by auto
  qed
  show thesis by (rule that [OF run ok sent m0 mt blobs body wf stored])
qed



text \<open>An image whose configuration is a one-byte blob.\<close>

definition demo_image :: "string \<Rightarrow> Manifest" where
  "demo_image d = (demo_manifest [])\<lparr>m_Config := zero_Descriptor\<lparr>d_Digest := d\<rparr>\<rparr>"

lemma ascii_digest: "ascii_str (sha256_digest b)"
proof -
  have "is_hex_lower c \<Longrightarrow> ord c < 128" for c by (auto simp: is_hex_lower_def)
  then show ?thesis using hex_encode_is_hex unfolding sha256_digest_def ascii_str_def by auto
qed

lemma demo_image_ok [simp]:
  "Manifest_ok (demo_image d)" "ascii_str d \<Longrightarrow> ascii_manifest (demo_image d)" "m_MediaType (demo_image d) \<noteq> []"
  "d \<noteq> [] \<Longrightarrow> manifest_blobs (demo_image d) = [d]"
  by (simp_all add: demo_image_def demo_manifest_def Manifest_ok_def zero_Manifest_def Descriptor_ok_def
      zero_Descriptor_def omap_ok_def in_int64_def ascii_manifest_def manifest_json_def manifest_blobs_def
      descriptor_json_def omit_str_def omit_list_def omit_map_def omit_bytes_def omit_ptr_def
      ascii_str_def MT_ImageManifest_def)


theorem refused_manifest_unchanged_witness:
  "\<exists>w. ManifestHandler_PutManifest (fs_ops calm)
      (manifest_request ''PUT'' ''lib/app'' ''v1'' (MarshalManifest (demo_image (sha256_digest [5])))) new_rw fresh = (w, fresh) \<and>
    status w = 400"
proof -
  let ?d = "sha256_digest [5]"
  let ?r = "manifest_request ''PUT'' ''lib/app'' ''v1'' (MarshalManifest (demo_image ?d))"
  obtain w s' where run: "ManifestHandler_PutManifest (fs_ops calm) ?r new_rw fresh = (w, s')" by fastforce
  obtain m0 where m0: "ParseManifest (MarshalManifest (demo_image ?d)) = Some m0"
      "manifest_blobs m0 = manifest_blobs (demo_image ?d)"
    using put_manifest_of_Marshal [OF demo_image_ok(1) demo_image_ok(2) [OF ascii_digest] demo_image_ok(3)] by blast
  have ne: "?d \<noteq> []" by (simp add: sha256_digest_def)
  have "fs_blobs fresh ?d = None" by (simp add: fs_blobs_def blob_file_def fresh_get)
  moreover have "fs_get (s_disk fresh) (blobPath calm fresh ?d) \<noteq> Some Dir"
    by (simp add: blobPath_blob_file blob_file_def fresh_get)
  ultimately have "BlobExists calm ?d fresh \<noteq> (Ok True, fresh)"
    using BlobExists_place [OF _ digest_ok_calm wf_fresh canonical_sha256_digest] by blast
  then have "fst (BlobExists calm ?d fresh) \<noteq> Ok True" by (simp add: BlobExists_def)
  moreover have "rdata (r_Body ?r) = MarshalManifest (demo_image ?d)" by simp
  ultimately have "status w = 400 \<and> s' = fresh"
    using refused_manifest_unchanged [OF run] m0 ne by auto
  with run show ?thesis by blast
qed

end
