(* ===== verification/ListingClient.thy ===== *)
theory ListingClient
  imports ManifestClient
begin

text \<open>
  The listings as a client reads them: the tags of a repository page by page, and the referrers
  index of a digest. The client parses the answers it gets.
\<close>

lemma Unmarshal_line:
  assumes "ascii_json j" and "json_depth j \<le> max_depth"
  shows "Unmarshal (Marshal j @ [10]) = Some j"
proof -
  have nl: "string_of [10] = [CHR 0x0A]" by code_simp
  have "scan_all Plain [CHR 0x0A] = Some []" by code_simp
  moreover have app: "string_of (a @ b) = string_of a @ string_of b" for a b by (simp add: string_of_def)
  moreover have "stop [CHR 0x0A]" by code_simp
  ultimately have "scan_all Plain (print_json j @ [CHR 0x0A]) = Some (toks j)"
    using scan_print [OF assms(1)] by simp
  moreover have "parse_all Value [] (toks j) = Some j"
    using parse_toks [of j "[]" Value "[]" "[]"] assms(2) by simp
  ultimately show ?thesis
    by (simp add: Unmarshal_def Marshal_def nl app parse_json_def)
qed

subsection \<open>Pages\<close>

definition items :: "'a list option \<Rightarrow> 'a list" where
  "items xs = (case xs of None \<Rightarrow> [] | Some ys \<Rightarrow> ys)"

lemma items_simps [simp]: "items None = []" "items (Some xs) = xs" "items (appended xs) = xs"
  by (simp_all add: items_def appended_def)

text \<open>The tags after the last one of a sorted prefix are those that follow it.\<close>

lemma filter_after_last:
  fixes xs :: "'a::linorder list"
  assumes "sorted (xs @ ys)" and "distinct (xs @ ys)" and "xs \<noteq> []"
  shows "filter (\<lambda>y. last xs < y) (xs @ ys) = ys"
proof -
  have "x \<le> last xs" if "x \<in> set xs" for x
  proof -
    have "sorted (butlast xs @ [last xs])" using assms(1,3) by (simp add: sorted_append)
    moreover have "set xs = insert (last xs) (set (butlast xs))"
      using assms(3) append_butlast_last_id [of xs] by (metis list.set(2) rotate1.simps(2) set_rotate1)
    ultimately show ?thesis using that by (auto simp: sorted_append)
  qed
  then have "filter (\<lambda>y. last xs < y) xs = []" by (auto simp: filter_empty_conv not_less)
  moreover have "last xs < y" if "y \<in> set ys" for y
  proof -
    have "last xs \<le> y" using assms(1,3) that by (simp add: sorted_append)
    moreover have "last xs \<noteq> y" using assms(2,3) that last_in_set by fastforce
    ultimately show ?thesis by simp
  qed
  then have "filter (\<lambda>y. last xs < y) ys = ys" by (simp add: filter_id_conv)
  ultimately show ?thesis by simp
qed

text \<open>A page asked for after a prefix of the tags: the next \<open>n\<close>, and where to go on.\<close>

lemma tags_page_step:
  assumes "sorted (pre @ ts)" and "distinct (pre @ ts)" and "[] \<notin> set (pre @ ts)"
    and "items all = pre @ ts" and "after = (if pre = [] then [] else last pre)"
    and "0 < n" and "in_int64 (int n)"
  shows "items (fst (tags_page (Itoa (int n)) after all)) = take n ts"
    and "snd (tags_page (Itoa (int n)) after all) = (if n < length ts then Some (last (take n ts)) else None)"
proof -
  have "last pre \<in> set (pre @ ts)" if "pre \<noteq> []" using that by simp
  then have after: "after = [] \<longleftrightarrow> pre = []" using assms(3,5) by metis
  have "items (if after \<noteq> [] then filterTagsAfter all after else all) = ts"
  proof (cases "pre = []")
    case True
    then show ?thesis using after assms(4) by simp
  next
    case False
    then have "items (filterTagsAfter all after) = filter (\<lambda>y. last pre < y) (pre @ ts)"
      using assms(4,5) by (simp add: filterTagsAfter_def flip: items_def)
    then show ?thesis using False after filter_after_last [OF assms(1,2)] by simp
  qed
  then obtain tags where tags: "(if after \<noteq> [] then filterTagsAfter all after else all) = tags" "items tags = ts"
    by blast
  have "Itoa (int n) \<noteq> []" by (simp add: Itoa_def)
  then have page: "tags_page (Itoa (int n)) after all =
      (if n < length ts then (Some (take n ts), Some (last (take n ts))) else (tags, None))"
    using tags assms(6) ParseInt_Itoa [OF assms(7)]
    by (simp add: tags_page_def Let_def flip: items_def)
  show "items (fst (tags_page (Itoa (int n)) after all)) = take n ts"
    using page tags(2) by simp
  show "snd (tags_page (Itoa (int n)) after all) = (if n < length ts then Some (last (take n ts)) else None)"
    using page by simp
qed

subsection \<open>The client\<close>

definition tags_request :: "string \<Rightarrow> string \<Rightarrow> string \<Rightarrow> request" where
  "tags_request repo n after = \<lparr>r_Method = ''GET'', r_Path = ''/v2/'' @ repo @ ''/tags/list'',
     r_Query = [(''n'', [n]), (''last'', [after]), (''route_name'', [repo])],
     r_Header = [], r_Body = bytes_reader [], r_ContentLength = 0\<rparr>"

lemma tags_request_sel [simp]:
  "GetParam (tags_request repo n after) ''name'' = repo" "q_get (r_Query (tags_request repo n after)) ''n'' = n"
  "q_get (r_Query (tags_request repo n after)) ''last'' = after"
  by (simp_all add: tags_request_def GetParam_def q_get_def)

definition str_of :: "json \<Rightarrow> string" where
  "str_of j = (case j of JStr s \<Rightarrow> s | _ \<Rightarrow> [])"

text \<open>The tags of an answer; \<open>null\<close> is no tags.\<close>

definition answer_tags :: "rw \<Rightarrow> string list" where
  "answer_tags w =
     (case Unmarshal (w_body w) of
        Some (JObj [_, (_, JArr ts)]) \<Rightarrow> map str_of ts
      | _ \<Rightarrow> [])"

text \<open>Asking for pages of \<open>n\<close> until an answer has no \<open>Link\<close>, going on after the last tag seen;
  \<open>None\<close> when the fuel runs out or an answer is not 200.\<close>

fun fetch_tags :: "nat \<Rightarrow> 's store_ops \<Rightarrow> string \<Rightarrow> string \<Rightarrow> string \<Rightarrow> 's \<Rightarrow> string list option" where
  "fetch_tags 0 ops repo n after s = None"
| "fetch_tags (Suc k) ops repo n after s =
     (case ManifestHandler_ListTags ops (tags_request repo n after) new_rw s of (w, s') \<Rightarrow>
        if status w \<noteq> 200 then None
        else if sent_header w ''Link'' = [] then Some (answer_tags w)
        else map_option (\<lambda>ts. answer_tags w @ ts)
               (fetch_tags k ops repo n (last (answer_tags w)) s'))"

lemma ListTags_handler:
  assumes "op_ListTags ops repo s = (Ok all, s)"
  obtains w where "ManifestHandler_ListTags ops (tags_request repo n after) new_rw s = (w, s)"
    and "status w = 200"
    and "sent_header w ''Link'' = [] \<longleftrightarrow> snd (tags_page n after all) = None"
    and "w_body w = Marshal (JObj [(''name'', JStr repo),
           (''tags'', slice_json JStr (fst (tags_page n after all)))]) @ [10]"
proof -
  obtain tags nx where page: "tags_page n after all = (tags, nx)" by fastforce
  have link: "next_link r l \<noteq> []" for r l by (simp add: next_link_def)
  have none: "h_get (w_header new_rw) ''Link'' = []" by (simp add: new_rw_def h_get_def)
  show thesis
    using assms page link none
    by (intro that [of "Encode (JObj [(''name'', JStr repo), (''tags'', slice_json JStr tags)])
          (WriteHeader 200 (SetHeader ''Content-Type'' ''application/json''
            (case nx of None \<Rightarrow> new_rw | Some l \<Rightarrow> SetHeader ''Link'' (next_link (tags_request repo n after) l) new_rw)))"])
      (cases nx; simp add: ManifestHandler_ListTags_def Let_def)+
qed

lemma answer_tags_page:
  assumes "w_body w = Marshal (JObj [(''name'', JStr repo), (''tags'', slice_json JStr tags)]) @ [10]"
    and "ascii_str repo" and "\<forall>t \<in> set (items tags). ascii_str t"
  shows "answer_tags w = items tags"
proof -
  let ?j = "JObj [(''name'', JStr repo), (''tags'', slice_json JStr tags)]"
  have keys: "ascii_str ''name''" "ascii_str ''tags''" by code_simp+
  have "ascii_json ?j"
    using assms(2,3) keys by (cases tags) (auto simp: slice_json_def)
  moreover have "json_depth ?j \<le> max_depth"
  proof -
    have "foldr max (map json_depth (map JStr ts)) 0 = 0" for ts by (induction ts) simp_all
    then have "json_depth (slice_json JStr tags) \<le> 1" by (cases tags) (simp_all add: slice_json_def)
    then show ?thesis by (simp add: max_depth_def)
  qed
  ultimately have "Unmarshal (w_body w) = Some ?j" using Unmarshal_line assms(1) by simp
  then show ?thesis
    by (cases tags) (simp_all add: answer_tags_def slice_json_def comp_def str_of_def)
qed

lemma fetch_tags_from:
  assumes "\<And>s'. s' = s \<Longrightarrow> op_ListTags ops repo s' = (Ok all, s')"
    and "sorted (items all)" and "distinct (items all)" and "[] \<notin> set (items all)"
    and "ascii_str repo" and "\<forall>t \<in> set (items all). ascii_str t"
    and "0 < n" and "in_int64 (int n)"
    and "items all = pre @ ts" and "after = (if pre = [] then [] else last pre)" and "length ts < fuel"
  shows "fetch_tags fuel ops repo (Itoa (int n)) after s = Some ts"
  using assms(9-)
proof (induction fuel arbitrary: pre ts after)
  case (Suc k)
  note page = tags_page_step [OF _ _ _ Suc.prems(1,2) assms(7,8)]
  have ok: "sorted (pre @ ts)" "distinct (pre @ ts)" "[] \<notin> set (pre @ ts)" using assms(2-4) Suc.prems(1) by simp_all
  obtain w where run: "ManifestHandler_ListTags ops (tags_request repo (Itoa (int n)) after) new_rw s = (w, s)"
    and w: "status w = 200" "sent_header w ''Link'' = [] \<longleftrightarrow> snd (tags_page (Itoa (int n)) after all) = None"
      "w_body w = Marshal (JObj [(''name'', JStr repo),
           (''tags'', slice_json JStr (fst (tags_page (Itoa (int n)) after all)))]) @ [10]"
    by (rule ListTags_handler [OF assms(1) [OF refl]])
  have "\<forall>t \<in> set (items (fst (tags_page (Itoa (int n)) after all))). ascii_str t"
    using page(1) [OF ok] assms(6) Suc.prems(1) by (auto dest: in_set_takeD)
  then have tags: "answer_tags w = take n ts"
    using answer_tags_page [OF w(3) assms(5)] page(1) [OF ok] by simp
  show ?case
  proof (cases "n < length ts")
    case False
    then show ?thesis using run w(1,2) tags page(2) [OF ok] by simp
  next
    case True
    then have "take n ts \<noteq> []" using assms(7) by auto
    then have "fetch_tags k ops repo (Itoa (int n)) (last (take n ts)) s = Some (drop n ts)"
      using Suc.prems True assms(7)
      by (intro Suc.IH [of "pre @ take n ts"]) auto
    then show ?thesis using True run w(1,2) tags page(2) [OF ok] by simp
  qed
qed simp

text \<open>C17. The pages of a tag listing are the listing: a client that asks for pages of any size
  \<open>n > 0\<close>, each after the last tag of the one before, until no \<open>Link\<close> is sent, ends after at
  most one request more than there are tags and has every tag of the repository, once, in order.\<close>

theorem tag_pages_complete:
  assumes "wf_fs (s_disk s)" and "ListTags e repo s = (Ok all, s)"
    and "ascii_str repo" and "\<forall>t \<in> set (items all). ascii_str t \<and> t \<noteq> []"
    and "0 < n" and "in_int64 (int n)"
  shows "fetch_tags (length (items all) + 1) (fs_ops e) repo (Itoa (int n)) [] s = Some (items all)"
proof -
  note listed = ListTags_Ok [OF assms(2,1), folded items_def]
  have "[] \<notin> set (items all)" using assms(4) by auto
  then show ?thesis
    by (intro fetch_tags_from [where pre = "[]"]) (use assms listed(2,3) in simp_all)
qed

text \<open>A repository of three tags.\<close>

definition tagged :: Store where
  "tagged = fresh\<lparr>s_disk := [([''data''], Dir), ([''data'', ''manifests''], Dir), ([''data'', ''manifests'', ''app''], Dir),
     ([''data'', ''manifests'', ''app'', ''v2''], File []), ([''data'', ''manifests'', ''app'', ''v1''], File []),
     ([''data'', ''manifests'', ''app'', ''v3''], File [])]\<rparr>"

theorem tag_pages_complete_witness:
  "fetch_tags 4 (fs_ops calm) ''app'' (Itoa 2) [] tagged = Some [''v1'', ''v2'', ''v3'']"
proof -
  have get: "fs_get (s_disk tagged) q = (if q \<in> {[], [''data''], [''data'', ''manifests''], [''data'', ''manifests'', ''app'']}
      then Some Dir else if q \<in> {[''data'', ''manifests'', ''app'', ''v1''], [''data'', ''manifests'', ''app'', ''v2''],
        [''data'', ''manifests'', ''app'', ''v3'']} then Some (File []) else None)" for q
    by (simp add: fs_get_def tagged_def)
  have wf: "wf_fs (s_disk tagged)" unfolding wf_fs_def get by auto
  have "child_names (s_disk tagged) [''data'', ''manifests'', ''app''] = [''v1'', ''v2'', ''v3'']" by code_simp
  moreover have "repoPath tagged ''app'' = [''data'', ''manifests'', ''app'']" by code_simp
  ultimately have list: "ListTags calm ''app'' tagged = (Ok (Some [''v1'', ''v2'', ''v3'']), tagged)"
    by (simp add: ListTags_def os_ReadDir_def lookup_def walk_err_def ancestors_def get appended_def HasPrefix_def)
  have ascii: "ascii_str ''app''" "\<forall>t \<in> set (items (Some [''v1'', ''v2'', ''v3''])). ascii_str t \<and> t \<noteq> []"
    by (simp_all add: ascii_str_def)
  show ?thesis
    using tag_pages_complete [OF wf list ascii, of 2] by (simp add: in_int64_def eval_nat_numeral)
qed

subsection \<open>Referrers\<close>

text \<open>The descriptors the referrers index of a digest lists.\<close>

definition refers_to :: "Store \<Rightarrow> string \<Rightarrow> string \<Rightarrow> string \<Rightarrow> Descriptor \<Rightarrow> bool" where
  "refers_to s repo d artifactType x \<longleftrightarrow>
     (\<exists>c b m subj. fs_get (s_disk s) (repoPath s repo @ [c]) = Some (File b) \<and> ParseManifest b = Some m \<and>
        m_Subject m = Some subj \<and> d_Digest subj = d \<and> x = referrer_descriptor m) \<and>
     (artifactType = [] \<or> d_ArtifactType x = artifactType)"

lemma filterByArtifactType_items: "items (filterByArtifactType ds t) = filter (\<lambda>x. d_ArtifactType x = t) (items ds)"
  by (simp add: filterByArtifactType_def flip: items_def)

lemma referrer_digest_empty: "ParseManifest b = Some m \<Longrightarrow> d_Digest (referrer_descriptor m) = []"
  using ParseManifest_Digest by (auto simp: referrer_descriptor_def)

text \<open>The referrers endpoint: a digest that is not of the form \<open>algorithm:encoded\<close> with at least 32
  encoded characters is answered 400; otherwise a 200 carries the image index of exactly the
  manifests of the repository whose subject has the digest, with the artifact type asked for, and
  the digest of every descriptor in it is empty.\<close>

theorem referrers_index:
  assumes "wf_fs (s_disk s)" and "names_ok s (GetParam r ''name'')" and "quiet e"
    and "ReferrersHandler_GetReferrers (fs_ops e) r new_rw s = (w, s')"
  shows "s' = s \<and> (\<not> isValidDigest (GetParam r ''digest'') \<longrightarrow> status w = 400) \<and>
    (status w = 200 \<longrightarrow> (\<exists>ds. w_body w = Marshal (index_json \<lparr>ix_SchemaVersion = 2, ix_MediaType = MT_ImageIndex,
         ix_Manifests = ds, ix_Annotations = None\<rparr>) \<and>
       (\<forall>x. x \<in> set (items ds) \<longleftrightarrow> refers_to s (GetParam r ''name'') (GetParam r ''digest'')
          (q_get (r_Query r) ''artifactType'') x) \<and>
       (\<forall>x \<in> set (items ds). d_Digest x = [])))"
proof -
  let ?repo = "GetParam r ''name''" and ?d = "GetParam r ''digest''" and ?t = "q_get (r_Query r) ''artifactType''"
  obtain res s1 where get: "GetReferrers e ?repo ?d s = (res, s1)" by fastforce
  have s1: "s1 = s" using reads_keep_state(7) [OF get] .
  show ?thesis
  proof (cases "isValidDigest ?d \<and> isOk res")
    case False
    then show ?thesis using assms(4) get s1
      by (cases res) (auto simp: ReferrersHandler_GetReferrers_def Let_def split: if_splits)
  next
    case True
    then obtain ds where res: "res = Ok ds" and valid: "isValidDigest ?d" by (auto simp: isOk_iff)
    let ?ds = "if ?t \<noteq> [] then filterByArtifactType ds ?t else ds"
    have "x \<in> set (items ds) \<longleftrightarrow> (\<exists>c b m subj. fs_get (s_disk s) (repoPath s ?repo @ [c]) = Some (File b) \<and>
        ParseManifest b = Some m \<and> m_Subject m = Some subj \<and> d_Digest subj = ?d \<and> x = referrer_descriptor m)" for x
      using GetReferrers_Ok [OF get [unfolded res] assms(1,2), folded items_def] assms(3)
      by (auto simp: refers_iff quiet_def)
    then have mem: "x \<in> set (items ?ds) \<longleftrightarrow> refers_to s ?repo ?d ?t x" for x
      by (auto simp: filterByArtifactType_items refers_to_def)
    then have "d_Digest x = []" if "x \<in> set (items ?ds)" for x
      using that referrer_digest_empty by (auto simp only: refers_to_def)
    moreover have "s' = s" "w_body w = Marshal (index_json \<lparr>ix_SchemaVersion = 2, ix_MediaType = MT_ImageIndex,
         ix_Manifests = ?ds, ix_Annotations = None\<rparr>)"
      using assms(4) get s1 res valid by (auto simp: ReferrersHandler_GetReferrers_def Let_def)
    ultimately show ?thesis using mem valid by blast
  qed
qed

definition referrers_request :: "string \<Rightarrow> string \<Rightarrow> request" where
  "referrers_request repo d = \<lparr>r_Method = ''GET'', r_Path = ''/v2/'' @ repo @ ''/referrers/'' @ d,
     r_Query = [(''route_name'', [repo]), (''route_digest'', [d])],
     r_Header = [], r_Body = bytes_reader [], r_ContentLength = 0\<rparr>"

theorem referrers_index_witness:
  "\<exists>w. ReferrersHandler_GetReferrers (fs_ops calm) (referrers_request ''app'' ''sha256:short'') new_rw fresh = (w, fresh) \<and>
     status w = 400"
proof -
  let ?r = "referrers_request ''app'' ''sha256:short''"
  have params: "GetParam ?r ''name'' = ''app''" "GetParam ?r ''digest'' = ''sha256:short''"
    by (simp_all add: referrers_request_def GetParam_def q_get_def)
  have "repoPath fresh ''app'' = [''data'', ''manifests'', ''app'']" by code_simp
  then have names: "names_ok fresh (GetParam ?r ''name'')" by (simp add: params names_ok_def fresh_get)
  obtain w s' where run: "ReferrersHandler_GetReferrers (fs_ops calm) ?r new_rw fresh = (w, s')" by fastforce
  have "\<not> isValidDigest ''sha256:short''" by code_simp
  then show ?thesis using referrers_index [OF wf_fresh names quiet_calm run] run params by simp
qed

end
