(* ===== verification/Endpoints.thy ===== *)
theory Endpoints
  imports ListingClient
begin

text \<open>
  The handlers of the registry behind one function, as \<open>cmd/octoserve/main.go\<close> registers them on
  its router: \<open>serve\<close> runs the handler of an endpoint on a store.
\<close>

datatype endpoint =
    CheckAPI
  | EpGetBlob | EpHeadBlob | EpDeleteBlob
  | EpStartUpload | EpPatchUpload | EpPutUpload | EpGetUpload | EpDeleteUpload
  | EpGetManifest | EpHeadManifest | EpPutManifest | EpDeleteManifest
  | EpListTags | EpGetReferrers

fun serve :: "endpoint \<Rightarrow> 's store_ops \<Rightarrow> request \<Rightarrow> rw \<Rightarrow> 's \<Rightarrow> rw \<times> 's" where
  "serve CheckAPI ops r w s = (RegistryHandler_CheckAPI r w, s)"
| "serve EpGetBlob ops r w s = BlobHandler_GetBlob ops r w s"
| "serve EpHeadBlob ops r w s = BlobHandler_HeadBlob ops r w s"
| "serve EpDeleteBlob ops r w s = BlobHandler_DeleteBlob ops r w s"
| "serve EpStartUpload ops r w s = StartUpload ops r w s"
| "serve EpPatchUpload ops r w s = PatchUpload ops r w s"
| "serve EpPutUpload ops r w s = PutUpload ops r w s"
| "serve EpGetUpload ops r w s = UploadHandler_GetUpload ops r w s"
| "serve EpDeleteUpload ops r w s = DeleteUpload ops r w s"
| "serve EpGetManifest ops r w s = ManifestHandler_GetManifest ops r w s"
| "serve EpHeadManifest ops r w s = ManifestHandler_HeadManifest ops r w s"
| "serve EpPutManifest ops r w s = ManifestHandler_PutManifest ops r w s"
| "serve EpDeleteManifest ops r w s = ManifestHandler_DeleteManifest ops r w s"
| "serve EpListTags ops r w s = ManifestHandler_ListTags ops r w s"
| "serve EpGetReferrers ops r w s = ReferrersHandler_GetReferrers ops r w s"

end
