(* ===== verification/Peers.thy ===== *)
theory Peers
  imports Endpoints
begin

text \<open>
  \<open>internal/storage/p2p.go\<close>: peers, their health, replication strategies and distributed errors;
  and what the distributed store sees of the network during one call (the interfaces
  \<open>Transport\<close> and \<open>P2PManager\<close>): every answer is an arbitrary value, so a theorem about the store
  holds for slow, failing and lying peers.
\<close>

subsection \<open>Peers\<close>

record PeerInfo =
  p_ID :: string
  p_Address :: string
  p_Port :: int
  p_Metadata :: "(string \<times> string) list"
  p_LastSeen :: int

definition PeerInfo_String :: "PeerInfo \<Rightarrow> string" where
  "PeerInfo_String p = p_ID p @ ''@'' @ p_Address p @ '':'' @ Itoa (p_Port p)"

definition PeerInfo_Addr :: "PeerInfo \<Rightarrow> string" where
  "PeerInfo_Addr p = p_Address p @ '':'' @ Itoa (p_Port p)"

datatype HealthStatus = HealthUnknown | HealthHealthy | HealthDegraded | HealthUnhealthy

fun HealthStatus_String :: "HealthStatus \<Rightarrow> string" where
  "HealthStatus_String HealthHealthy = ''healthy''"
| "HealthStatus_String HealthDegraded = ''degraded''"
| "HealthStatus_String HealthUnhealthy = ''unhealthy''"
| "HealthStatus_String HealthUnknown = ''unknown''"

record PeerHealth =
  ph_Status :: HealthStatus
  ph_Latency :: int
  ph_LastCheck :: int
  ph_Error :: string

datatype ReplicationStrategy = ReplicationEager | ReplicationLazy | ReplicationHybrid

fun ReplicationStrategy_String :: "ReplicationStrategy \<Rightarrow> string" where
  "ReplicationStrategy_String ReplicationEager = ''eager''"
| "ReplicationStrategy_String ReplicationLazy = ''lazy''"
| "ReplicationStrategy_String ReplicationHybrid = ''hybrid''"

record DistributedError =
  de_Op :: string
  de_PeerID :: string
  de_NodeID :: string
  de_Err :: "error option"
  de_Retryable :: bool

text \<open>\<open>e.Err.Error()\<close> of a nil \<open>Err\<close> panics, as it does for the package's own error values.\<close>

definition DistributedError_Error :: "DistributedError \<Rightarrow> string option" where
  "DistributedError_Error de =
     (case de_Err de of
        None \<Rightarrow> None
      | Some er \<Rightarrow>
          Some (if de_PeerID de \<noteq> [] then
                  ''p2p '' @ de_Op de @ '' failed on peer '' @ de_PeerID de @ '': '' @ Error er
                else ''p2p '' @ de_Op de @ '' failed: '' @ Error er))"

definition DistributedError_Unwrap :: "DistributedError \<Rightarrow> error option" where
  "DistributedError_Unwrap de = de_Err de"

definition IsRetryable :: "DistributedError \<Rightarrow> bool" where
  "IsRetryable de = de_Retryable de"

definition distributed_error :: "string \<Rightarrow> bool \<Rightarrow> DistributedError" where
  "distributed_error op retryable =
     \<lparr>de_Op = op, de_PeerID = [], de_NodeID = [], de_Err = None, de_Retryable = retryable\<rparr>"

definition ErrPeerUnreachable :: DistributedError where
  "ErrPeerUnreachable = distributed_error ''peer_connect'' True"

definition ErrBlobNotReplicated :: DistributedError where
  "ErrBlobNotReplicated = distributed_error ''blob_replicate'' True"

definition ErrConsensusFailure :: DistributedError where
  "ErrConsensusFailure = distributed_error ''consensus'' False"

definition ErrNetworkPartition :: DistributedError where
  "ErrNetworkPartition = distributed_error ''network'' True"

definition ErrNodeNotFound :: DistributedError where
  "ErrNodeNotFound = distributed_error ''node_lookup'' False"

definition ErrInvalidPeer :: DistributedError where
  "ErrInvalidPeer = distributed_error ''peer_validation'' False"

subsection \<open>The network during one call\<close>

text \<open>\<open>n_BlobAnswers ps d\<close> are the answers of the peers asked for a blob that arrive before the
  deadline, in the order of arrival (an answer with an error says \<open>false\<close>); likewise for
  manifests. Sending acknowledges or fails.\<close>

record net =
  n_NodeID :: string
  n_IsHealthy :: bool
  n_Peers :: "error + PeerInfo list"
  n_PeerHealth :: "string \<Rightarrow> PeerHealth option"
  n_FindPeersWithBlob :: "string \<Rightarrow> error + PeerInfo list"
  n_BlobAnswers :: "PeerInfo list \<Rightarrow> string \<Rightarrow> (PeerInfo \<times> bool) list"
  n_ManifestAnswers :: "PeerInfo list \<Rightarrow> string \<Rightarrow> string \<Rightarrow> (PeerInfo \<times> bool) list"
  n_RequestBlob :: "PeerInfo \<Rightarrow> string \<Rightarrow> error + reader"
  n_RequestManifest :: "PeerInfo \<Rightarrow> string \<Rightarrow> string \<Rightarrow> error + Manifest"
  n_SendBlob :: "PeerInfo \<Rightarrow> string \<Rightarrow> bytes \<Rightarrow> error + unit"
  n_SendManifest :: "PeerInfo \<Rightarrow> string \<Rightarrow> string \<Rightarrow> Manifest \<Rightarrow> error + unit"

text \<open>No peers: a node on its own.\<close>

definition alone :: net where
  "alone = \<lparr>n_NodeID = ''node-a'', n_IsHealthy = True, n_Peers = Ok [], n_PeerHealth = (\<lambda>_. None),
     n_FindPeersWithBlob = (\<lambda>_. Ok []), n_BlobAnswers = (\<lambda>_ _. []), n_ManifestAnswers = (\<lambda>_ _ _. []),
     n_RequestBlob = (\<lambda>_ _. Err (StatusError ''unavailable'')),
     n_RequestManifest = (\<lambda>_ _ _. Err (StatusError ''unavailable'')),
     n_SendBlob = (\<lambda>_ _ _. Err (StatusError ''unavailable'')),
     n_SendManifest = (\<lambda>_ _ _ _. Err (StatusError ''unavailable''))\<rparr>"

end
