(* ===== verification/Discovery.thy ===== *)
theory Discovery
  imports GoText Peers
begin

text \<open>
  \<open>internal/p2p/discovery/static.go\<close>: peers from a list of addresses, and the life of the
  discovery with its two channels.
\<close>

subsection \<open>Addresses\<close>

definition generatePeerIDFromAddress :: "string \<Rightarrow> string" where
  "generatePeerIDFromAddress addr = ReplaceChar CHR '':'' CHR ''_'' addr"

definition parsePeerAddress :: "int \<Rightarrow> string \<Rightarrow> error + PeerInfo" where
  "parsePeerAddress clock addr =
     (case (if CHR ''@'' \<in> set addr
            then (case SplitN2 CHR ''@'' addr of
                [peerID, hostPort] \<Rightarrow> Some (peerID, hostPort)
              | _ \<Rightarrow> None)
            else Some (generatePeerIDFromAddress addr, addr)) of
        None \<Rightarrow> Err (Errorf (''invalid peer address format: '' @ addr))
      | Some (peerID, hostPort) \<Rightarrow>
          (case SplitHostPort hostPort of
             None \<Rightarrow> Err (Errorf (''invalid host:port format: '' @ hostPort))
           | Some (host, portStr) \<Rightarrow>
               (case ParseInt portStr of
                  None \<Rightarrow> Err (Errorf (''invalid port: '' @ portStr))
                | Some port \<Rightarrow>
                    if port < 1 \<or> 65535 < port then Err (Errorf (''port out of range: '' @ Itoa port))
                    else Ok \<lparr>p_ID = peerID, p_Address = host, p_Port = port, p_Metadata = [], p_LastSeen = clock\<rparr>)))"

subsection \<open>The discovery\<close>

text \<open>\<open>sd_watchCh\<close> is the content of the buffered channel.\<close>

record StaticDiscovery =
  sd_peers :: "PeerInfo list"
  sd_nodeID :: string
  sd_watchCh :: "PeerInfo list list"
  sd_watchClosed :: bool
  sd_stopped :: bool
  sd_closed :: bool

definition bootstrap_peer :: "int \<Rightarrow> string \<Rightarrow> PeerInfo option" where
  "bootstrap_peer clock addr =
     (if addr = [] then None
      else case parsePeerAddress clock addr of Err _ \<Rightarrow> None | Ok p \<Rightarrow> Some p)"

definition NewStaticDiscovery :: "int \<Rightarrow> string list \<Rightarrow> string \<Rightarrow> StaticDiscovery" where
  "NewStaticDiscovery clock bootstrapPeers nodeID =
     \<lparr>sd_peers = List.map_filter (bootstrap_peer clock) bootstrapPeers, sd_nodeID = nodeID, sd_watchCh = [],
      sd_watchClosed = False, sd_stopped = False, sd_closed = False\<rparr>"

definition Discover :: "int \<Rightarrow> StaticDiscovery \<Rightarrow> error + PeerInfo list" where
  "Discover clock sd =
     (if sd_closed sd then Err (Errorf ''discovery is closed'')
      else Ok (map (\<lambda>p. p\<lparr>p_LastSeen := clock\<rparr>) (sd_peers sd)))"

definition Announce :: "PeerInfo \<Rightarrow> StaticDiscovery \<Rightarrow> (error + unit) \<times> StaticDiscovery" where
  "Announce info sd = (Ok (), sd)"

text \<open>The goroutine of \<open>Watch\<close>: it sends the peers unless the other side of the select is taken
  (\<open>sends\<close>), and closes the channel when it ends; sending on or closing a closed channel panics.\<close>

definition Watch :: "int \<Rightarrow> bool \<Rightarrow> StaticDiscovery \<Rightarrow> (error + unit) \<times> StaticDiscovery" where
  "Watch clock sends sd =
     (let closing = (\<lambda>sd. if sd_watchClosed sd then (Err (RuntimePanic ''close of closed channel''), sd)
                        else (Ok (), sd\<lparr>sd_watchClosed := True\<rparr>)) in
      case Discover clock sd of
        Err _ \<Rightarrow> closing sd
      | Ok peers \<Rightarrow>
          if \<not> sends then closing sd
          else if sd_watchClosed sd then (Err (RuntimePanic ''send on closed channel''), sd)
          else closing (sd\<lparr>sd_watchCh := sd_watchCh sd @ [peers]\<rparr>))"

definition discovery_Close :: "StaticDiscovery \<Rightarrow> (error + unit) \<times> StaticDiscovery" where
  "discovery_Close sd =
     (if sd_closed sd then (Ok (), sd) else (Ok (), sd\<lparr>sd_closed := True, sd_stopped := True\<rparr>))"

subsection \<open>Parsing\<close>

text \<open>The two ways an address gives an identity and a host with its port.\<close>

lemma parsePeerAddress_at:
  "CHR ''@'' \<notin> set i \<Longrightarrow> parsePeerAddress clock (i @ CHR ''@'' # hp) =
     (case SplitHostPort hp of
        None \<Rightarrow> Err (Errorf (''invalid host:port format: '' @ hp))
      | Some (host, portStr) \<Rightarrow>
          (case ParseInt portStr of
             None \<Rightarrow> Err (Errorf (''invalid port: '' @ portStr))
           | Some port \<Rightarrow>
               if port < 1 \<or> 65535 < port then Err (Errorf (''port out of range: '' @ Itoa port))
               else Ok \<lparr>p_ID = i, p_Address = host, p_Port = port, p_Metadata = [], p_LastSeen = clock\<rparr>))"
  by (simp add: parsePeerAddress_def SplitN2_append_sep)

lemma parsePeerAddress_id:
  assumes "parsePeerAddress clock addr = Ok p"
  shows "1 \<le> p_Port p \<and> p_Port p \<le> 65535 \<and> CHR ''@'' \<notin> set (p_ID p)"
proof (cases "CHR ''@'' \<in> set addr")
  case True
  then obtain i hp where addr: "addr = i @ CHR ''@'' # hp" and i: "CHR ''@'' \<notin> set i"
    by (meson split_list_first)
  show ?thesis using assms i unfolding addr parsePeerAddress_at [OF i]
    by (auto split: option.splits if_splits)
next
  case False
  then have "CHR ''@'' \<notin> set (generatePeerIDFromAddress addr)"
    by (auto simp: generatePeerIDFromAddress_def ReplaceChar_def)
  then show ?thesis using assms False
    by (auto simp: parsePeerAddress_def split: option.splits if_splits)
qed

lemma Itoa_chars: "0 \<le> n \<Longrightarrow> c \<in> set (Itoa n) \<Longrightarrow> \<exists>d < 10. c = digit d"
  by (auto simp: Itoa_def dest: nat_digits_digits)

lemma digit_plain: "d < 10 \<Longrightarrow> digit d \<notin> {CHR '':'', CHR ''['', CHR '']'', CHR ''@''}"
  by (drule less_10_cases) (auto simp: digit_def)

lemma Itoa_plain:
  assumes "0 \<le> n"
  shows "CHR '':'' \<notin> set (Itoa n) \<and> CHR ''['' \<notin> set (Itoa n) \<and> CHR '']'' \<notin> set (Itoa n)"
proof -
  have "c \<notin> {CHR '':'', CHR ''['', CHR '']'', CHR ''@''}" if c: "c \<in> set (Itoa n)" for c
  proof -
    obtain d where "d < 10" and "c = digit d" using Itoa_chars [OF assms c] by blast
    then show ?thesis using digit_plain by simp
  qed
  then show ?thesis by blast
qed

text \<open>A peer whose address is written without colons or brackets.\<close>

definition plain_peer :: "PeerInfo \<Rightarrow> bool" where
  "plain_peer p \<longleftrightarrow> CHR ''@'' \<notin> set (p_ID p) \<and>
     CHR '':'' \<notin> set (p_Address p) \<and> CHR ''['' \<notin> set (p_Address p) \<and> CHR '']'' \<notin> set (p_Address p) \<and>
     1 \<le> p_Port p \<and> p_Port p \<le> 65535"

lemma SplitHostPort_Addr:
  assumes "plain_peer p"
  shows "SplitHostPort (PeerInfo_Addr p) = Some (p_Address p, Itoa (p_Port p))"
  using assms SplitHostPort_plain [of "p_Address p" "Itoa (p_Port p)"] Itoa_plain [of "p_Port p"]
  by (simp add: plain_peer_def PeerInfo_Addr_def)

lemma ParseInt_port: "1 \<le> n \<Longrightarrow> n \<le> 65535 \<Longrightarrow> ParseInt (Itoa n) = Some n"
  by (rule ParseInt_Itoa) (simp add: in_int64_def)


definition local_peer :: PeerInfo where
  "local_peer = \<lparr>p_ID = ''n1'', p_Address = ''10.0.0.7'', p_Port = 6000, p_Metadata = [], p_LastSeen = 0\<rparr>"


text \<open>An IPv6 address loses its brackets on the way in and does not get them back: the address dialled
  for such a peer cannot be taken apart.\<close>

lemma ipv6_not_dialled:
  assumes "parsePeerAddress clock ''n6@[::1]:6000'' = Ok p"
  shows "p_Address p = ''::1'' \<and> SplitHostPort (PeerInfo_Addr p) = None"
proof -
  have "SplitHostPort ''[::1]:6000'' = Some (''::1'', ''6000'')"
    by (simp add: SplitHostPort_def last_index_of_def Let_def)
  moreover have "ParseInt ''6000'' = Some 6000"
    by (simp add: ParseInt_def parse_unsigned_def digit_val_def in_int64_def Let_def)
  ultimately have p: "p_Address p = ''::1'' \<and> p_Port p = 6000"
    using assms parsePeerAddress_at [of "''n6''" clock "''[::1]:6000''"] by auto
  have "CHR '':'' \<notin> set (Itoa 6000)" using Itoa_plain [of 6000] by simp
  then have "SplitHostPort (''::1'' @ CHR '':'' # Itoa 6000) = None" by (intro SplitHostPort_colon) simp_all
  with p show ?thesis by (simp add: PeerInfo_Addr_def)
qed

text \<open>Watching twice closes the channel twice.\<close>

lemma watch_twice_panics:
  assumes "Watch clock True (NewStaticDiscovery t ps n) = (r, sd)"
  shows "isOk r \<and> (\<exists>msg. fst (Watch clock' sends sd) = Err (RuntimePanic msg))"
  using assms by (auto simp: Watch_def Discover_def NewStaticDiscovery_def Let_def)

end
