(* ===== verification/Distributed.thy ===== *)
theory Distributed
  imports Peers
begin

text \<open>
  \<open>internal/storage/distributed/store.go\<close>: a store over a local one that asks peers for what it
  lacks and replicates what it is given. Its state is the local state, the background
  replications spawned and not yet run, and what has been sent to peers.
\<close>

record dconfig =
  dc_ReplicationFactor :: int
  dc_Strategy :: string
  dc_ConsistencyMode :: string
  dc_RequestTimeout :: int

datatype task = ReplicateBlobTask string | ReplicateManifestTask string string Manifest

datatype message = SentBlob PeerInfo string bytes | SentManifest PeerInfo string string Manifest

record 's dstate =
  d_local :: 's
  d_tasks :: "task list"
  d_sent :: "message list"

definition local_do :: "('s \<Rightarrow> 'r \<times> 's) \<Rightarrow> 's dstate \<Rightarrow> 'r \<times> 's dstate" where
  "local_do f st = (case f (d_local st) of (r, s1) \<Rightarrow> (r, st\<lparr>d_local := s1\<rparr>))"

definition spawn :: "task \<Rightarrow> 's dstate \<Rightarrow> 's dstate" where
  "spawn t st = st\<lparr>d_tasks := d_tasks st @ [t]\<rparr>"

text \<open>The log calls slice the digest, \<open>digest[:12]\<close>, which panics on a shorter string.\<close>

definition slice_panic :: "string \<Rightarrow> bool" where
  "slice_panic digest \<longleftrightarrow> length digest < 12"

abbreviation panic :: error where
  "panic \<equiv> RuntimePanic ''slice bounds out of range''"

definition deadline :: error where
  "deadline = Errorf ''context deadline exceeded''"

subsection \<open>Asking the peers\<close>

text \<open>The loop that collects one result per peer, until the deadline.\<close>

fun collect_results :: "nat \<Rightarrow> (PeerInfo \<times> bool) list \<Rightarrow> PeerInfo list \<Rightarrow> PeerInfo list \<times> error option" where
  "collect_results 0 results acc = (acc, None)"
| "collect_results (Suc n) [] acc = (acc, Some deadline)"
| "collect_results (Suc n) ((p, has) # results) acc =
     collect_results n results (if has then acc @ [p] else acc)"

definition findPeersWithBlobDirect :: "net \<Rightarrow> string \<Rightarrow> PeerInfo list \<times> error option" where
  "findPeersWithBlobDirect nt digest =
     (case n_Peers nt of
        Err er \<Rightarrow> ([], Some (Wrap ''failed to get peers'' er))
      | Ok allPeers \<Rightarrow>
          if allPeers = [] then ([], None)
          else collect_results (length allPeers) (n_BlobAnswers nt allPeers digest) [])"

definition findPeersWithManifest :: "net \<Rightarrow> string \<Rightarrow> string \<Rightarrow> PeerInfo list \<times> error option" where
  "findPeersWithManifest nt repo reference =
     (case n_Peers nt of
        Err er \<Rightarrow> ([], Some (Wrap ''failed to get peers'' er))
      | Ok allPeers \<Rightarrow>
          if allPeers = [] then ([], None)
          else collect_results (length allPeers) (n_ManifestAnswers nt allPeers repo reference) [])"

text \<open>Fetching from each peer until one succeeds; a blob counts when the local store accepts it.\<close>

fun fetch_blob :: "net \<Rightarrow> 's store_ops \<Rightarrow> string \<Rightarrow> PeerInfo list \<Rightarrow> 's \<Rightarrow> (error + reader) \<times> 's" where
  "fetch_blob nt ops digest [] s = (Err ErrBlobNotFound, s)"
| "fetch_blob nt ops digest (peer # peers) s =
     (case n_RequestBlob nt peer digest of
        Err _ \<Rightarrow> fetch_blob nt ops digest peers s
      | Ok rd \<Rightarrow>
          (case op_PutBlob ops digest rd s of
             (Err _, s1) \<Rightarrow> fetch_blob nt ops digest peers s1
           | (Ok _, s1) \<Rightarrow> op_GetBlob ops digest s1))"

definition getBlobFromPeers :: "net \<Rightarrow> 's store_ops \<Rightarrow> string \<Rightarrow> 's \<Rightarrow> (error + reader) \<times> 's" where
  "getBlobFromPeers nt ops digest s =
     (case findPeersWithBlobDirect nt digest of
        (peers, Some _) \<Rightarrow> (Err ErrBlobNotFound, s)
      | (peers, None) \<Rightarrow>
          if peers = [] then (Err ErrBlobNotFound, s) else fetch_blob nt ops digest peers s)"

definition checkBlobExistsOnPeers :: "net \<Rightarrow> string \<Rightarrow> error + bool" where
  "checkBlobExistsOnPeers nt digest =
     (case findPeersWithBlobDirect nt digest of
        (peers, Some _) \<Rightarrow> if slice_panic digest then Err panic else Ok False
      | (peers, None) \<Rightarrow> Ok (peers \<noteq> []))"

fun fetch_manifest :: "net \<Rightarrow> 's store_ops \<Rightarrow> string \<Rightarrow> string \<Rightarrow> PeerInfo list \<Rightarrow> 's \<Rightarrow> (error + Manifest) \<times> 's" where
  "fetch_manifest nt ops repo reference [] s = (Err ErrManifestNotFound, s)"
| "fetch_manifest nt ops repo reference (peer # peers) s =
     (case n_RequestManifest nt peer repo reference of
        Err _ \<Rightarrow> fetch_manifest nt ops repo reference peers s
      | Ok m \<Rightarrow> (case op_PutManifest ops repo reference m s of (_, s1) \<Rightarrow> (Ok m, s1)))"

definition getManifestFromPeers :: "net \<Rightarrow> 's store_ops \<Rightarrow> string \<Rightarrow> string \<Rightarrow> 's \<Rightarrow> (error + Manifest) \<times> 's" where
  "getManifestFromPeers nt ops repo reference s =
     (case findPeersWithManifest nt repo reference of
        (peers, Some _) \<Rightarrow> (Err ErrManifestNotFound, s)
      | (peers, None) \<Rightarrow>
          if peers = [] then (Err ErrManifestNotFound, s)
          else fetch_manifest nt ops repo reference peers s)"

definition checkManifestExistsOnPeers :: "net \<Rightarrow> string \<Rightarrow> string \<Rightarrow> error + bool" where
  "checkManifestExistsOnPeers nt repo reference =
     (case findPeersWithManifest nt repo reference of
        (peers, Some _) \<Rightarrow> Ok False
      | (peers, None) \<Rightarrow> Ok (peers \<noteq> []))"

subsection \<open>Replication\<close>

definition filterHealthyPeers :: "net \<Rightarrow> PeerInfo list \<Rightarrow> PeerInfo list" where
  "filterHealthyPeers nt peers =
     filter (\<lambda>p. case n_PeerHealth nt (p_ID p) of None \<Rightarrow> False | Some h \<Rightarrow> ph_Status h = HealthHealthy) peers"

definition selectReplicationTargets :: "dconfig \<Rightarrow> PeerInfo list \<Rightarrow> PeerInfo list" where
  "selectReplicationTargets cfg peers =
     (let targetCount = (if dc_ReplicationFactor cfg \<le> 0 then 1 else dc_ReplicationFactor cfg);
          targetCount = (if int (length peers) < targetCount then int (length peers) else targetCount)
      in map (\<lambda>i. peers ! i) [0..<nat targetCount])"

text \<open>The background replication of a blob: what it sends, and to whom, is added to the messages
  sent when the peer acknowledges it. Reading the blob may change the local state.\<close>

definition replicateBlobToPeers :: "dconfig \<Rightarrow> net \<Rightarrow> 's store_ops \<Rightarrow> string \<Rightarrow> 's dstate \<Rightarrow> 's dstate" where
  "replicateBlobToPeers cfg nt ops digest st =
     (case op_GetBlob ops digest (d_local st) of
        (Err _, s1) \<Rightarrow> st\<lparr>d_local := s1\<rparr>
      | (Ok rd, s1) \<Rightarrow>
          (let st1 = st\<lparr>d_local := s1\<rparr> in
           if rfail rd then st1
           else
             (case n_Peers nt of
                Err _ \<Rightarrow> st1
              | Ok peers \<Rightarrow>
                  (let targets = selectReplicationTargets cfg (filterHealthyPeers nt peers) in
                   st1\<lparr>d_sent := d_sent st1 @
                     map (\<lambda>p. SentBlob p digest (rdata rd))
                       (filter (\<lambda>p. isOk (n_SendBlob nt p digest (rdata rd))) targets)\<rparr>))))"

definition replicateManifestToPeers :: "net \<Rightarrow> string \<Rightarrow> string \<Rightarrow> Manifest \<Rightarrow> 's dstate \<Rightarrow> 's dstate" where
  "replicateManifestToPeers nt repo reference m st =
     (case n_Peers nt of
        Err _ \<Rightarrow> st
      | Ok peers \<Rightarrow>
          st\<lparr>d_sent := d_sent st @
            map (\<lambda>p. SentManifest p repo reference m)
              (filter (\<lambda>p. isOk (n_SendManifest nt p repo reference m)) (filterHealthyPeers nt peers))\<rparr>)"

fun run_task :: "dconfig \<Rightarrow> net \<Rightarrow> 's store_ops \<Rightarrow> task \<Rightarrow> 's dstate \<Rightarrow> 's dstate" where
  "run_task cfg nt ops (ReplicateBlobTask digest) st = replicateBlobToPeers cfg nt ops digest st"
| "run_task cfg nt ops (ReplicateManifestTask repo reference m) st = replicateManifestToPeers nt repo reference m st"

text \<open>The oldest replication spawned runs.\<close>

definition run_next :: "dconfig \<Rightarrow> net \<Rightarrow> 's store_ops \<Rightarrow> 's dstate \<Rightarrow> 's dstate" where
  "run_next cfg nt ops st =
     (case d_tasks st of
        [] \<Rightarrow> st
      | t # ts \<Rightarrow> run_task cfg nt ops t (st\<lparr>d_tasks := ts\<rparr>))"

definition TriggerLazyReplication :: "dconfig \<Rightarrow> string \<Rightarrow> 's dstate \<Rightarrow> (error + unit) \<times> 's dstate" where
  "TriggerLazyReplication cfg digest st =
     (if dc_Strategy cfg \<noteq> ''lazy'' \<and> dc_Strategy cfg \<noteq> ''hybrid'' then (Ok (), st)
      else if slice_panic digest then (Err panic, st)
      else (Ok (), spawn (ReplicateBlobTask digest) st))"

subsection \<open>Blobs\<close>

definition dist_GetBlob :: "net \<Rightarrow> 's store_ops \<Rightarrow> string \<Rightarrow> 's dstate \<Rightarrow> (error + reader) \<times> 's dstate" where
  "dist_GetBlob nt ops digest st =
     (case local_do (op_GetBlob ops digest) st of
        (Ok reader, st1) \<Rightarrow> (if slice_panic digest then Err panic else Ok reader, st1)
      | (Err er, st1) \<Rightarrow>
          if er = ErrBlobNotFound then
            (if slice_panic digest then (Err panic, st1)
             else local_do (getBlobFromPeers nt ops digest) st1)
          else (Err er, st1))"

definition dist_PutBlob :: "dconfig \<Rightarrow> 's store_ops \<Rightarrow> string \<Rightarrow> reader \<Rightarrow> 's dstate \<Rightarrow> (error + unit) \<times> 's dstate" where
  "dist_PutBlob cfg ops digest rd st =
     (case local_do (op_PutBlob ops digest rd) st of
        (Err er, st1) \<Rightarrow> (Err (Wrap ''failed to store blob locally'' er), st1)
      | (Ok _, st1) \<Rightarrow>
          if slice_panic digest then (Err panic, st1)
          else if dc_Strategy cfg = ''eager'' then (Ok (), spawn (ReplicateBlobTask digest) st1)
          else if dc_Strategy cfg = ''lazy'' then (Ok (), st1)
          else if dc_Strategy cfg = ''hybrid'' then
            (case local_do (op_GetBlobSize ops digest) st1 of
               (Ok sz, st2) \<Rightarrow>
                 (Ok (), if sz < 1024 * 1024 then spawn (ReplicateBlobTask digest) st2 else st2)
             | (Err _, st2) \<Rightarrow> (Ok (), st2))
          else (Ok (), spawn (ReplicateBlobTask digest) st1))"

definition dist_BlobExists :: "net \<Rightarrow> 's store_ops \<Rightarrow> string \<Rightarrow> 's dstate \<Rightarrow> (error + bool) \<times> 's dstate" where
  "dist_BlobExists nt ops digest st =
     (case local_do (op_BlobExists ops digest) st of
        (Err er, st1) \<Rightarrow> (Err er, st1)
      | (Ok True, st1) \<Rightarrow> (Ok True, st1)
      | (Ok False, st1) \<Rightarrow> (checkBlobExistsOnPeers nt digest, st1))"

subsection \<open>Manifests\<close>

definition dist_GetManifest :: "net \<Rightarrow> 's store_ops \<Rightarrow> string \<Rightarrow> string \<Rightarrow> 's dstate \<Rightarrow> (error + Manifest) \<times> 's dstate" where
  "dist_GetManifest nt ops repo reference st =
     (case local_do (op_GetManifest ops repo reference) st of
        (Ok m, st1) \<Rightarrow> (Ok m, st1)
      | (Err er, st1) \<Rightarrow>
          if er = ErrManifestNotFound then local_do (getManifestFromPeers nt ops repo reference) st1
          else (Err er, st1))"

definition dist_PutManifest :: "'s store_ops \<Rightarrow> string \<Rightarrow> string \<Rightarrow> Manifest \<Rightarrow> 's dstate \<Rightarrow> (error + unit) \<times> 's dstate" where
  "dist_PutManifest ops repo reference m st =
     (case local_do (op_PutManifest ops repo reference m) st of
        (Err er, st1) \<Rightarrow> (Err (Wrap ''failed to store manifest locally'' er), st1)
      | (Ok _, st1) \<Rightarrow> (Ok (), spawn (ReplicateManifestTask repo reference m) st1))"

definition dist_ManifestExists :: "net \<Rightarrow> 's store_ops \<Rightarrow> string \<Rightarrow> string \<Rightarrow> 's dstate \<Rightarrow> (error + bool) \<times> 's dstate" where
  "dist_ManifestExists nt ops repo reference st =
     (case local_do (op_ManifestExists ops repo reference) st of
        (Err er, st1) \<Rightarrow> (Err er, st1)
      | (Ok True, st1) \<Rightarrow> (Ok True, st1)
      | (Ok False, st1) \<Rightarrow> (checkManifestExistsOnPeers nt repo reference, st1))"

subsection \<open>Peers\<close>

fun find_peer :: "string \<Rightarrow> PeerInfo list \<Rightarrow> PeerInfo option" where
  "find_peer peerID [] = None"
| "find_peer peerID (p # ps) = (if p_ID p = peerID then Some p else find_peer peerID ps)"

definition GetBlobFromPeer :: "net \<Rightarrow> string \<Rightarrow> string \<Rightarrow> error + reader" where
  "GetBlobFromPeer nt peerID digest =
     (case n_Peers nt of
        Err er \<Rightarrow> Err (Wrap ''failed to get peers'' er)
      | Ok peers \<Rightarrow>
          (case find_peer peerID peers of
             None \<Rightarrow> Err (Errorf (''peer '' @ peerID @ '' not found''))
           | Some p \<Rightarrow> n_RequestBlob nt p digest))"

definition ReplicateBlob :: "string \<Rightarrow> string list \<Rightarrow> error + unit" where
  "ReplicateBlob digest targetPeers = Err (Errorf ''ReplicateBlob not implemented'')"

definition PingPeer :: "string \<Rightarrow> error + unit" where
  "PingPeer peerID = Err (Errorf ''PingPeer not implemented'')"

text \<open>The store behind the interface; deletion, listings and uploads are the local store's.\<close>

definition distributed_ops :: "dconfig \<Rightarrow> net \<Rightarrow> 's store_ops \<Rightarrow> 's dstate store_ops" where
  "distributed_ops cfg nt ops =
     \<lparr>op_GetBlob = dist_GetBlob nt ops, op_PutBlob = dist_PutBlob cfg ops,
      op_BlobExists = dist_BlobExists nt ops, op_DeleteBlob = (\<lambda>d. local_do (op_DeleteBlob ops d)),
      op_GetBlobSize = (\<lambda>d. local_do (op_GetBlobSize ops d)), op_GetManifest = dist_GetManifest nt ops,
      op_PutManifest = dist_PutManifest ops,
      op_DeleteManifest = (\<lambda>repo ref. local_do (op_DeleteManifest ops repo ref)),
      op_ListTags = (\<lambda>repo. local_do (op_ListTags ops repo)), op_ManifestExists = dist_ManifestExists nt ops,
      op_GetReferrers = (\<lambda>repo d. local_do (op_GetReferrers ops repo d)),
      op_CreateUpload = (\<lambda>repo. local_do (op_CreateUpload ops repo)),
      op_GetUpload = (\<lambda>i. local_do (op_GetUpload ops i)),
      op_WriteUploadChunk = (\<lambda>i off rd. local_do (op_WriteUploadChunk ops i off rd)),
      op_CompleteUpload = (\<lambda>i d. local_do (op_CompleteUpload ops i d)),
      op_CancelUpload = (\<lambda>i. local_do (op_CancelUpload ops i)),
      op_GetUploadStatus = (\<lambda>i. local_do (op_GetUploadStatus ops i))\<rparr>"

end
