(* ===== verification/Grpc.thy ===== *)
theory Grpc
  imports Distributed
begin

text \<open>
  \<open>internal/p2p/transport/grpc.go\<close>: the peer-to-peer service, its server side over a store and
  its client side over a link. Messages are those of \<open>proto/p2p.proto\<close>; the generated code and
  the gRPC library carry them. A link says what one call meets: a connection that cannot be made,
  a stream that breaks after some messages, an answer that is lost.
\<close>

subsection \<open>Messages\<close>

record BlobChunk =
  bc_Digest :: string
  bc_Offset :: int
  bc_Data :: bytes
  bc_IsFinal :: bool

record GetBlobRequest =
  gb_Digest :: string
  gb_Offset :: int
  gb_Limit :: int

record PutBlobResponse =
  pb_Digest :: string
  pb_Size :: int
  pb_Success :: bool
  pb_Error :: string

record HasBlobResponse =
  hb_Exists :: bool
  hb_Size :: int

record GetManifestResponse =
  gm_ManifestData :: bytes
  gm_MediaType :: string
  gm_Digest :: string
  gm_Size :: int

record PutManifestRequest =
  pq_Repository :: string
  pq_Reference :: string
  pq_ManifestData :: bytes
  pq_MediaType :: string

record PutManifestResponse =
  pm_Digest :: string
  pm_Success :: bool
  pm_Error :: string

record HasManifestResponse =
  hm_Exists :: bool
  hm_Digest :: string
  hm_Size :: int

record NodeStatus =
  ns_Health :: HealthStatus
  ns_UptimeSeconds :: int
  ns_Version :: string

record PingResponse =
  pr_NodeId :: string
  pr_Timestamp :: int
  pr_Status :: NodeStatus

subsection \<open>Links\<close>

text \<open>\<open>lk_dial\<close> is the error of \<open>getConnection\<close>, \<open>lk_open\<close> the error of opening the stream or of a
  unary call that never reaches the server, \<open>lk_sends\<close> the number of messages the client's
  \<open>Send\<close> accepts, \<open>lk_breaks\<close> the number that arrive before the stream breaks, \<open>lk_reply\<close> the error
  in place of the answer, and \<open>lk_reads\<close> how many bytes each \<open>Read\<close> of the data hands out.\<close>

record link =
  lk_dial :: "error option"
  lk_open :: "error option"
  lk_sends :: "nat option"
  lk_breaks :: "nat option"
  lk_reply :: "error option"
  lk_reads :: "nat list"

definition link_up :: "link \<Rightarrow> bool" where
  "link_up lk \<longleftrightarrow> lk_dial lk = None \<and> lk_open lk = None \<and> lk_sends lk = None \<and>
     lk_breaks lk = None \<and> lk_reply lk = None"

definition good_link :: link where
  "good_link = \<lparr>lk_dial = None, lk_open = None, lk_sends = None, lk_breaks = None, lk_reply = None,
     lk_reads = []\<rparr>"

definition broken :: error where
  "broken = StatusError ''rpc error: code = Unavailable desc = transport is closing''"

text \<open>The error of a handler as the client sees it.\<close>

definition rpc_error :: "error \<Rightarrow> error" where
  "rpc_error er = StatusError (''rpc error: code = Unknown desc = '' @ Error er)"

text \<open>What of a stream of messages arrives, and how it ends (\<open>None\<close> is \<open>io.EOF\<close>).\<close>

definition delivered :: "nat option \<Rightarrow> error option \<Rightarrow> 'm list \<Rightarrow> 'm list \<times> error option" where
  "delivered breaks ending msgs =
     (case breaks of Some k \<Rightarrow> (take k msgs, Some broken) | None \<Rightarrow> (msgs, ending))"

definition unary :: "link \<Rightarrow> ('s \<Rightarrow> (error + 'r) \<times> 's) \<Rightarrow> 's \<Rightarrow> (error + 'r) \<times> 's" where
  "unary lk f s =
     (case lk_open lk of
        Some er \<Rightarrow> (Err er, s)
      | None \<Rightarrow>
          (case f s of (r, s') \<Rightarrow>
             (case lk_reply lk of
                Some er \<Rightarrow> Err er
              | None \<Rightarrow> (case r of Err er \<Rightarrow> Err (rpc_error er) | Ok x \<Rightarrow> Ok x), s')))"

definition no_connection :: "PeerInfo \<Rightarrow> error \<Rightarrow> error" where
  "no_connection peer er = Wrap (''failed to get connection to peer '' @ p_ID peer) er"

subsection \<open>Chunks\<close>

definition chunkSize :: nat where
  "chunkSize = 64 * 1024"

text \<open>A \<open>Read\<close> into the buffer of 64 KiB returns between one byte and the whole buffer; a read of
  nothing is tried again.\<close>

definition read_size :: "nat list \<Rightarrow> nat" where
  "read_size ns = (case ns of [] \<Rightarrow> chunkSize | n # _ \<Rightarrow> if n = 0 \<or> chunkSize < n then chunkSize else n)"

lemma read_size_pos [simp]: "0 < read_size ns"
  by (simp add: read_size_def chunkSize_def split: list.splits)

lemma read_size_le: "read_size ns \<le> chunkSize"
  by (simp add: read_size_def split: list.splits)

function reads :: "nat list \<Rightarrow> bytes \<Rightarrow> bytes list" where
  "reads ns [] = []"
| "reads ns (x # xs) = take (read_size ns) (x # xs) # reads (tl ns) (drop (read_size ns) (x # xs))"
  by pat_completeness auto
termination
  using read_size_pos by (relation "measure (\<lambda>(ns, b). length b)") (auto intro: diff_less)

text \<open>The loop that sends what it reads, and the final chunk at the end of the data; when a read
  fails there is no final chunk. The client's \<open>SendBlob\<close> and the server's \<open>GetBlob\<close> share it.\<close>

fun send_loop :: "string \<Rightarrow> int \<Rightarrow> bytes list \<Rightarrow> bool \<Rightarrow> BlobChunk list" where
  "send_loop digest offset [] fails =
     (if fails then []
      else [\<lparr>bc_Digest = digest, bc_Offset = offset, bc_Data = [], bc_IsFinal = True\<rparr>])"
| "send_loop digest offset (p # ps) fails =
     \<lparr>bc_Digest = digest, bc_Offset = offset, bc_Data = p, bc_IsFinal = False\<rparr>
     # send_loop digest (int64 (offset + int (length p))) ps fails"

subsection \<open>The server\<close>

text \<open>Receiving: the digest is that of the first chunk; the buffer is stored when the final chunk or
  the end of the stream is reached.\<close>

fun recv_chunks :: "string \<Rightarrow> bytes \<Rightarrow> int \<Rightarrow> BlobChunk list \<Rightarrow> error option \<Rightarrow>
    error + string \<times> bytes \<times> int" where
  "recv_chunks digest buffer tot [] None = Ok (digest, buffer, tot)"
| "recv_chunks digest buffer tot [] (Some er) = Err (Wrap ''failed to receive blob chunk'' er)"
| "recv_chunks digest buffer tot (c # cs) er =
     (let digest' = (if digest = [] then bc_Digest c else digest) in
      if bc_Digest c \<noteq> digest' then
        Err (Errorf (''digest mismatch in chunk: expected '' @ digest' @ '', got '' @ bc_Digest c))
      else
        (let buffer' = buffer @ bc_Data c; tot' = int64 (tot + int (length (bc_Data c))) in
         if bc_IsFinal c then Ok (digest', buffer', tot')
         else recv_chunks digest' buffer' tot' cs er))"

definition P2P_PutBlob :: "'s store_ops \<Rightarrow> BlobChunk list \<Rightarrow> error option \<Rightarrow> 's \<Rightarrow> (error + PutBlobResponse) \<times> 's" where
  "P2P_PutBlob ops cs er s =
     (case recv_chunks [] [] 0 cs er of
        Err e1 \<Rightarrow> (Err e1, s)
      | Ok (digest, buffer, tot) \<Rightarrow>
          (case op_PutBlob ops digest (bytes_reader buffer) s of
             (Err e1, s') \<Rightarrow>
               (Ok \<lparr>pb_Digest = digest, pb_Size = tot, pb_Success = False, pb_Error = Error e1\<rparr>, s')
           | (Ok _, s') \<Rightarrow>
               (Ok \<lparr>pb_Digest = digest, pb_Size = tot, pb_Success = True, pb_Error = []\<rparr>, s')))"

text \<open>\<open>lazy\<close> is \<open>TriggerLazyReplication\<close> when the store has it. The stream carries the whole blob;
  the offset of the request is only added to the chunks' offsets, its limit is not read.\<close>

definition P2P_GetBlob :: "'s store_ops \<Rightarrow> (string \<Rightarrow> 's \<Rightarrow> 's) option \<Rightarrow> nat list \<Rightarrow> GetBlobRequest \<Rightarrow> 's \<Rightarrow>
    (BlobChunk list \<times> error option) \<times> 's" where
  "P2P_GetBlob ops lazy ns req s =
     (case op_GetBlob ops (gb_Digest req) s of
        (Err er, s1) \<Rightarrow> (([], Some er), s1)
      | (Ok reader, s1) \<Rightarrow>
          ((send_loop (gb_Digest req) (gb_Offset req) (reads ns (rdata reader)) (rfail reader),
            if rfail reader then Some ReadError else None),
           case lazy of None \<Rightarrow> s1 | Some f \<Rightarrow> f (gb_Digest req) s1))"

definition P2P_HasBlob :: "'s store_ops \<Rightarrow> string \<Rightarrow> 's \<Rightarrow> (error + HasBlobResponse) \<times> 's" where
  "P2P_HasBlob ops digest s =
     (case op_BlobExists ops digest s of
        (Err er, s1) \<Rightarrow> (Err er, s1)
      | (Ok False, s1) \<Rightarrow> (Ok \<lparr>hb_Exists = False, hb_Size = 0\<rparr>, s1)
      | (Ok True, s1) \<Rightarrow>
          (case op_GetBlobSize ops digest s1 of
             (Err _, s2) \<Rightarrow> (Ok \<lparr>hb_Exists = True, hb_Size = 0\<rparr>, s2)
           | (Ok n, s2) \<Rightarrow> (Ok \<lparr>hb_Exists = True, hb_Size = n\<rparr>, s2)))"

definition P2P_HasManifest :: "'s store_ops \<Rightarrow> string \<Rightarrow> string \<Rightarrow> 's \<Rightarrow> (error + HasManifestResponse) \<times> 's" where
  "P2P_HasManifest ops repo reference s =
     (case op_ManifestExists ops repo reference s of
        (Err er, s1) \<Rightarrow> (Err er, s1)
      | (Ok False, s1) \<Rightarrow> (Ok \<lparr>hm_Exists = False, hm_Digest = [], hm_Size = 0\<rparr>, s1)
      | (Ok True, s1) \<Rightarrow>
          (case op_GetManifest ops repo reference s1 of
             (Err _, s2) \<Rightarrow> (Ok \<lparr>hm_Exists = True, hm_Digest = [], hm_Size = 0\<rparr>, s2)
           | (Ok m, s2) \<Rightarrow> (Ok \<lparr>hm_Exists = True, hm_Digest = m_Digest m, hm_Size = m_Size m\<rparr>, s2)))"

definition P2P_GetManifest :: "'s store_ops \<Rightarrow> string \<Rightarrow> string \<Rightarrow> 's \<Rightarrow> (error + GetManifestResponse) \<times> 's" where
  "P2P_GetManifest ops repo reference s =
     (case op_GetManifest ops repo reference s of
        (Err er, s1) \<Rightarrow> (Err (Wrap ''failed to get manifest'' er), s1)
      | (Ok m, s1) \<Rightarrow>
          (Ok \<lparr>gm_ManifestData = MarshalManifest m, gm_MediaType = m_MediaType m,
             gm_Digest = m_Digest m, gm_Size = m_Size m\<rparr>, s1))"

definition P2P_PutManifest :: "'s store_ops \<Rightarrow> PutManifestRequest \<Rightarrow> 's \<Rightarrow> (error + PutManifestResponse) \<times> 's" where
  "P2P_PutManifest ops req s =
     (case UnmarshalManifest (pq_ManifestData req) (zero_Manifest\<lparr>m_MediaType := pq_MediaType req\<rparr>) of
        None \<Rightarrow>
          (Ok \<lparr>pm_Digest = [], pm_Success = False,
             pm_Error = ''failed to unmarshal manifest: '' @ Error JsonError\<rparr>, s)
      | Some m \<Rightarrow>
          (case op_PutManifest ops (pq_Repository req) (pq_Reference req) m s of
             (Err er, s1) \<Rightarrow> (Ok \<lparr>pm_Digest = m_Digest m, pm_Success = False, pm_Error = Error er\<rparr>, s1)
           | (Ok _, s1) \<Rightarrow> (Ok \<lparr>pm_Digest = m_Digest m, pm_Success = True, pm_Error = []\<rparr>, s1)))"

text \<open>The uptime is the time since now, in whole seconds.\<close>

definition P2P_Ping :: "string \<Rightarrow> int \<Rightarrow> 's \<Rightarrow> (error + PingResponse) \<times> 's" where
  "P2P_Ping nodeID unix_now s =
     (Ok \<lparr>pr_NodeId = nodeID, pr_Timestamp = unix_now,
        pr_Status = \<lparr>ns_Health = HealthHealthy, ns_UptimeSeconds = 0, ns_Version = ''0.1.0''\<rparr>\<rparr>, s)"

definition P2P_GetPeers :: "error + unit" where
  "P2P_GetPeers = Err (Errorf ''GetPeers not implemented yet'')"

definition P2P_AnnounceNode :: "error + unit" where
  "P2P_AnnounceNode = Err (Errorf ''AnnounceNode not implemented yet'')"

definition P2P_ReplicateBlob :: "error + unit" where
  "P2P_ReplicateBlob = Err (Errorf ''ReplicateBlob not implemented yet'')"

definition P2P_SyncManifest :: "error + unit" where
  "P2P_SyncManifest = Err (Errorf ''SyncManifest not implemented yet'')"

subsection \<open>The client\<close>

text \<open>What the client's loop ends with: a \<open>Send\<close> that fails, data that cannot be read, or nothing.\<close>

definition send_error :: "link \<Rightarrow> BlobChunk list \<Rightarrow> bool \<Rightarrow> error option" where
  "send_error lk msgs fails =
     (let stop = (if fails then Some (Wrap ''failed to read blob data'' ReadError) else None) in
      case lk_sends lk of
        None \<Rightarrow> stop
      | Some k \<Rightarrow>
          if k < length msgs then
            Some (Wrap (if bc_IsFinal (msgs ! k) then ''failed to send final blob chunk''
                        else ''failed to send blob chunk'') broken)
          else stop)"

definition SendBlob :: "link \<Rightarrow> 's store_ops \<Rightarrow> PeerInfo \<Rightarrow> string \<Rightarrow> reader \<Rightarrow> 's \<Rightarrow> (error + unit) \<times> 's" where
  "SendBlob lk ops peer digest data s =
     (case lk_dial lk of Some er \<Rightarrow> (Err (no_connection peer er), s) | None \<Rightarrow>
      case lk_open lk of Some er \<Rightarrow> (Err (Wrap ''failed to create put blob stream'' er), s) | None \<Rightarrow>
        (let msgs = send_loop digest 0 (reads (lk_reads lk) (rdata data)) (rfail data);
             stop = send_error lk msgs (rfail data);
             sent = (case lk_sends lk of None \<Rightarrow> msgs | Some k \<Rightarrow> take k msgs);
             (cs, ending) = delivered (lk_breaks lk) (if stop = None then None else Some broken) sent
         in case P2P_PutBlob ops cs ending s of (resp, s') \<Rightarrow>
              (case stop of Some er \<Rightarrow> Err er | None \<Rightarrow>
               case lk_reply lk of Some er \<Rightarrow> Err (Wrap ''failed to close blob stream'' er) | None \<Rightarrow>
               case resp of
                 Err er \<Rightarrow> Err (Wrap ''failed to close blob stream'' (rpc_error er))
               | Ok pb \<Rightarrow> if pb_Success pb then Ok () else Err (Errorf (''blob upload failed: '' @ pb_Error pb)), s')))"

text \<open>The goroutine that copies the chunks into the pipe; what is read from the pipe is the data up to
  the final chunk or the end of the stream, or an error after the data received.\<close>

fun pump :: "bytes \<Rightarrow> BlobChunk list \<Rightarrow> error option \<Rightarrow> reader" where
  "pump acc [] None = bytes_reader acc"
| "pump acc [] (Some er) = \<lparr>rdata = acc, rfail = True\<rparr>"
| "pump acc (c # cs) er =
     (if bc_IsFinal c then bytes_reader (acc @ bc_Data c) else pump (acc @ bc_Data c) cs er)"

definition RequestBlob :: "link \<Rightarrow> 's store_ops \<Rightarrow> (string \<Rightarrow> 's \<Rightarrow> 's) option \<Rightarrow> PeerInfo \<Rightarrow> string \<Rightarrow> 's \<Rightarrow>
    (error + reader) \<times> 's" where
  "RequestBlob lk ops lazy peer digest s =
     (case lk_dial lk of Some er \<Rightarrow> (Err (no_connection peer er), s) | None \<Rightarrow>
      case lk_open lk of Some er \<Rightarrow> (Err (Wrap ''failed to create get blob stream'' er), s) | None \<Rightarrow>
      case P2P_GetBlob ops lazy (lk_reads lk) \<lparr>gb_Digest = digest, gb_Offset = 0, gb_Limit = 0\<rparr> s of
        ((cs, er), s') \<Rightarrow>
          (case delivered (lk_breaks lk) (map_option rpc_error er) cs of
             (arrived, ending) \<Rightarrow> (Ok (pump [] arrived ending), s')))"

definition SendManifest :: "link \<Rightarrow> 's store_ops \<Rightarrow> PeerInfo \<Rightarrow> string \<Rightarrow> string \<Rightarrow> Manifest \<Rightarrow> 's \<Rightarrow> (error + unit) \<times> 's" where
  "SendManifest lk ops peer repo reference m s =
     (case lk_dial lk of Some er \<Rightarrow> (Err (no_connection peer er), s) | None \<Rightarrow>
      case unary lk (P2P_PutManifest ops \<lparr>pq_Repository = repo, pq_Reference = reference,
          pq_ManifestData = MarshalManifest m, pq_MediaType = m_MediaType m\<rparr>) s of
        (Err er, s') \<Rightarrow> (Err (Wrap ''PutManifest request failed'' er), s')
      | (Ok resp, s') \<Rightarrow>
          (if pm_Success resp then Ok () else Err (Errorf (''manifest upload failed: '' @ pm_Error resp)), s'))"

definition RequestManifest :: "link \<Rightarrow> 's store_ops \<Rightarrow> PeerInfo \<Rightarrow> string \<Rightarrow> string \<Rightarrow> 's \<Rightarrow> (error + Manifest) \<times> 's" where
  "RequestManifest lk ops peer repo reference s =
     (case lk_dial lk of Some er \<Rightarrow> (Err (no_connection peer er), s) | None \<Rightarrow>
      case unary lk (P2P_GetManifest ops repo reference) s of
        (Err er, s') \<Rightarrow> (Err (Wrap ''GetManifest request failed'' er), s')
      | (Ok resp, s') \<Rightarrow>
          (case UnmarshalManifest (gm_ManifestData resp) zero_Manifest of
             None \<Rightarrow> Err (Wrap ''failed to unmarshal manifest'' JsonError)
           | Some m \<Rightarrow>
               Ok (m\<lparr>m_MediaType := gm_MediaType resp, m_Digest := gm_Digest resp, m_Size := gm_Size resp\<rparr>), s'))"

definition HasManifest :: "link \<Rightarrow> 's store_ops \<Rightarrow> PeerInfo \<Rightarrow> string \<Rightarrow> string \<Rightarrow> 's \<Rightarrow>
    (error + bool \<times> string \<times> int) \<times> 's" where
  "HasManifest lk ops peer repo reference s =
     (case lk_dial lk of Some er \<Rightarrow> (Err (no_connection peer er), s) | None \<Rightarrow>
      case unary lk (P2P_HasManifest ops repo reference) s of
        (Err er, s') \<Rightarrow> (Err (Wrap ''HasManifest request failed'' er), s')
      | (Ok resp, s') \<Rightarrow> (Ok (hm_Exists resp, hm_Digest resp, hm_Size resp), s'))"

definition HasBlob :: "link \<Rightarrow> 's store_ops \<Rightarrow> PeerInfo \<Rightarrow> string \<Rightarrow> 's \<Rightarrow> (error + bool \<times> int) \<times> 's" where
  "HasBlob lk ops peer digest s =
     (case lk_dial lk of Some er \<Rightarrow> (Err (no_connection peer er), s) | None \<Rightarrow>
      case unary lk (P2P_HasBlob ops digest) s of
        (Err er, s') \<Rightarrow> (Err (Wrap ''HasBlob request failed'' er), s')
      | (Ok resp, s') \<Rightarrow> (Ok (hb_Exists resp, hb_Size resp), s'))"

text \<open>\<open>nodeID\<close> is the identity of the node that answers.\<close>

definition Ping :: "link \<Rightarrow> string \<Rightarrow> int \<Rightarrow> PeerInfo \<Rightarrow> error + unit" where
  "Ping lk nodeID unix_now peer =
     (case lk_dial lk of Some er \<Rightarrow> Err (no_connection peer er) | None \<Rightarrow>
      case fst (unary lk (P2P_Ping nodeID unix_now) ()) of
        Err er \<Rightarrow> Err (Wrap ''ping failed'' er)
      | Ok resp \<Rightarrow> if pr_NodeId resp = [] then Err (Errorf ''invalid ping response: empty node ID'') else Ok ())"

end
