(* ===== verification/Pool.thy ===== *)
theory Pool
  imports Grpc
begin

text \<open>
  The state of \<open>GRPCTransport\<close>: its lifecycle (\<open>Start\<close>, \<open>Stop\<close>, \<open>Close\<close>) and the pool of client
  connections behind \<open>getConnection\<close>. Connections are numbered in the order they are dialled; their
  connectivity, the outcome of a dial and of \<open>net.Listen\<close> come from outside.
\<close>

subsection \<open>The transport\<close>

datatype connectivity = Idle | Connecting | Ready | TransientFailure | Shutdown

record grpc_transport =
  tr_port :: int
  tr_nodeID :: string
  tr_connections :: "(string \<times> nat) list"
  tr_maxConnections :: int
  tr_idleTimeout :: int
  tr_maxMessageSize :: int
  tr_started :: bool
  tr_listening :: bool
  tr_dialled :: nat
  tr_closed :: "nat list"

definition NewGRPCTransport :: "string \<Rightarrow> int \<Rightarrow> grpc_transport" where
  "NewGRPCTransport nodeID port =
     \<lparr>tr_port = port, tr_nodeID = nodeID, tr_connections = [], tr_maxConnections = 100,
      tr_idleTimeout = 5 * 60 * 10 ^ 9, tr_maxMessageSize = 32 * 1024 * 1024, tr_started = False,
      tr_listening = False, tr_dialled = 0, tr_closed = []\<rparr>"

definition transport_Start :: "error option \<Rightarrow> grpc_transport \<Rightarrow> (error + unit) \<times> grpc_transport" where
  "transport_Start listen t =
     (if tr_started t then (Err (Errorf ''transport already started''), t)
      else case listen of
        Some er \<Rightarrow> (Err (Wrap (''failed to listen on port '' @ Itoa (tr_port t)) er), t)
      | None \<Rightarrow> (Ok (), t\<lparr>tr_listening := True, tr_started := True\<rparr>))"

text \<open>\<open>Stop\<close> closes and forgets every pooled connection, then the server and its listener.\<close>

definition transport_Stop :: "grpc_transport \<Rightarrow> (error + unit) \<times> grpc_transport" where
  "transport_Stop t =
     (if \<not> tr_started t then (Ok (), t)
      else (Ok (), t\<lparr>tr_closed := tr_closed t @ map snd (tr_connections t), tr_connections := [],
              tr_listening := False, tr_started := False\<rparr>))"

definition transport_Close :: "grpc_transport \<Rightarrow> (error + unit) \<times> grpc_transport" where
  "transport_Close t = transport_Stop t"

subsection \<open>Connections\<close>

definition createConnection :: "(string \<Rightarrow> error option) \<Rightarrow> string \<Rightarrow> grpc_transport \<Rightarrow> (error + nat) \<times> grpc_transport" where
  "createConnection dial addr t =
     (case dial addr of
        Some er \<Rightarrow> (Err (Wrap (''failed to dial '' @ addr) er), t)
      | None \<Rightarrow> (Ok (tr_dialled t), t\<lparr>tr_dialled := Suc (tr_dialled t)\<rparr>))"

text \<open>\<open>getConnection\<close> in two halves, between which other calls may run: looking in the pool, where a
  connection in a bad state is removed and closed, and dialling and storing a new one.\<close>

definition pooled_connection :: "(nat \<Rightarrow> connectivity) \<Rightarrow> string \<Rightarrow> grpc_transport \<Rightarrow> nat option \<times> grpc_transport" where
  "pooled_connection st addr t =
     (case map_of (tr_connections t) addr of
        None \<Rightarrow> (None, t)
      | Some c \<Rightarrow>
          if st c = Ready \<or> st c = Idle then (Some c, t)
          else (None, t\<lparr>tr_connections := AList.delete addr (tr_connections t), tr_closed := tr_closed t @ [c]\<rparr>))"

definition new_connection :: "(string \<Rightarrow> error option) \<Rightarrow> string \<Rightarrow> grpc_transport \<Rightarrow> (error + nat) \<times> grpc_transport" where
  "new_connection dial addr t =
     (case createConnection dial addr t of
        (Err er, t1) \<Rightarrow> (Err er, t1)
      | (Ok c, t1) \<Rightarrow> (Ok c, t1\<lparr>tr_connections := AList.update addr c (tr_connections t1)\<rparr>))"

definition getConnection :: "(nat \<Rightarrow> connectivity) \<Rightarrow> (string \<Rightarrow> error option) \<Rightarrow> PeerInfo \<Rightarrow> grpc_transport \<Rightarrow>
    (error + nat) \<times> grpc_transport" where
  "getConnection st dial peer t =
     (case pooled_connection st (PeerInfo_Addr peer) t of
        (Some c, t1) \<Rightarrow> (Ok c, t1)
      | (None, t1) \<Rightarrow> new_connection dial (PeerInfo_Addr peer) t1)"

subsection \<open>The pool invariant\<close>

text \<open>Every connection dialled is in the pool under one address or has been closed once.\<close>

definition pool_ok :: "grpc_transport \<Rightarrow> bool" where
  "pool_ok t \<longleftrightarrow> distinct (map fst (tr_connections t)) \<and>
     distinct (map snd (tr_connections t) @ tr_closed t) \<and>
     set (map snd (tr_connections t) @ tr_closed t) = {0..<tr_dialled t}"

lemma pool_ok_new [simp]: "pool_ok (NewGRPCTransport nodeID port)"
  by (simp add: pool_ok_def NewGRPCTransport_def)

lemma update_fresh: "k \<notin> fst ` set al \<Longrightarrow> AList.update k v al = al @ [(k, v)]"
  by (induction al) auto

lemma delete_split:
  assumes "distinct (map fst al)" and "map_of al k = Some v"
  obtains as bs where "al = as @ (k, v) # bs" and "AList.delete k al = as @ bs"
proof -
  from map_of_SomeD [OF assms(2)] obtain as bs where al: "al = as @ (k, v) # bs"
    by (meson split_list)
  have "AList.delete k xs = xs" if "k \<notin> fst ` set xs" for xs :: "('a \<times> 'b) list"
    using that by (induction xs) auto
  then have "AList.delete k al = as @ bs"
    using assms(1) unfolding al by (simp add: AList.delete_eq)
  with al show thesis by (rule that)
qed

lemma pooled_connection_ok:
  assumes "pooled_connection st addr t = (c, t')" and "pool_ok t"
  shows "pool_ok t' \<and> (c = None \<longrightarrow> addr \<notin> fst ` set (tr_connections t')) \<and>
    (\<forall>x. c = Some x \<longrightarrow> map_of (tr_connections t') addr = Some x \<and> (st x = Ready \<or> st x = Idle))"
proof (cases "map_of (tr_connections t) addr")
  case None
  then have "c = None" "t' = t" using assms(1) by (simp_all add: pooled_connection_def)
  then show ?thesis using assms(2) None by (simp add: map_of_eq_None_iff)
next
  case (Some x)
  show ?thesis
  proof (cases "st x = Ready \<or> st x = Idle")
    case True
    then show ?thesis using assms Some by (auto simp: pooled_connection_def)
  next
    case False
    have keys: "distinct (map fst (tr_connections t))" using assms(2) by (simp add: pool_ok_def)
    obtain as bs where al: "tr_connections t = as @ (addr, x) # bs"
      and del: "AList.delete addr (tr_connections t) = as @ bs"
      by (rule delete_split [OF keys Some])
    have "c = None" and t': "t' = t\<lparr>tr_connections := as @ bs, tr_closed := tr_closed t @ [x]\<rparr>"
      using assms(1) Some False del by (auto simp: pooled_connection_def)
    moreover have "pool_ok t'" using assms(2) unfolding t' pool_ok_def al by auto
    moreover have "addr \<notin> fst ` set (as @ bs)" using keys unfolding al by auto
    ultimately show ?thesis by simp
  qed
qed

lemma new_connection_ok:
  assumes "new_connection dial addr t = (r, t')" and "pool_ok t" and "addr \<notin> fst ` set (tr_connections t)"
  shows "pool_ok t' \<and> (\<forall>c. r = Ok c \<longrightarrow> map_of (tr_connections t') addr = Some c)"
proof (cases "dial addr")
  case (Some er)
  then show ?thesis using assms by (auto simp: new_connection_def createConnection_def)
next
  case None
  have t': "t' = t\<lparr>tr_dialled := Suc (tr_dialled t), tr_connections := tr_connections t @ [(addr, tr_dialled t)]\<rparr>"
    "r = Ok (tr_dialled t)"
    using assms(1,3) None by (auto simp: new_connection_def createConnection_def update_fresh)
  have "tr_dialled t \<notin> set (map snd (tr_connections t) @ tr_closed t)"
    using assms(2) unfolding pool_ok_def by (elim conjE) simp
  then have fresh: "tr_dialled t \<notin> set (tr_closed t)" "tr_dialled t \<notin> snd ` set (tr_connections t)"
    by auto
  have "map_of (tr_connections t) addr = None" using assms(3) by (simp add: map_of_eq_None_iff)
  then show ?thesis using assms(2,3) unfolding t' pool_ok_def
    by (simp add: atLeast0_lessThan_Suc map_add_Some_iff fresh)
qed

lemma getConnection_ok:
  assumes "getConnection st dial p t = (r, t')" and "pool_ok t"
  shows "pool_ok t' \<and> (\<forall>c. r = Ok c \<longrightarrow> map_of (tr_connections t') (PeerInfo_Addr p) = Some c)"
proof -
  obtain x t1 where look: "pooled_connection st (PeerInfo_Addr p) t = (x, t1)" by fastforce
  note ok = pooled_connection_ok [OF look assms(2)]
  show ?thesis
  proof (cases x)
    case None
    then show ?thesis using assms(1) look ok new_connection_ok by (simp add: getConnection_def)
  next
    case (Some c)
    then show ?thesis using assms(1) look ok by (auto simp: getConnection_def)
  qed
qed

lemma pool_ok_life [simp]:
  "pool_ok (t\<lparr>tr_listening := l, tr_started := b\<rparr>) = pool_ok t"
  by (simp add: pool_ok_def)

lemma Start_ok: "transport_Start listen t = (r, t') \<Longrightarrow> pool_ok t \<Longrightarrow> pool_ok t'"
  by (cases listen) (auto simp: transport_Start_def split: if_splits)

lemma Stop_ok:
  assumes "transport_Stop t = (r, t')" and "pool_ok t"
  shows "pool_ok t'"
proof (cases "tr_started t")
  case True
  then have t': "t' = t\<lparr>tr_closed := tr_closed t @ map snd (tr_connections t), tr_connections := [],
      tr_listening := False, tr_started := False\<rparr>"
    using assms(1) by (simp add: transport_Stop_def)
  show ?thesis using assms(2) unfolding t' pool_ok_def by (simp add: Int_commute Un_commute)
next
  case False
  then show ?thesis using assms by (simp add: transport_Stop_def)
qed

lemma pool_ok_open: "pool_ok t \<Longrightarrow> map_of (tr_connections t) a = Some c \<Longrightarrow> c \<notin> set (tr_closed t)"
  by (force simp: pool_ok_def dest: map_of_SomeD)

text \<open>The transport as a state machine, one call at a time.\<close>

inductive pool_step :: "grpc_transport \<Rightarrow> grpc_transport \<Rightarrow> bool" where
  start: "transport_Start listen t = (r, t') \<Longrightarrow> pool_step t t'"
| stop: "transport_Close t = (r, t') \<Longrightarrow> pool_step t t'"
| get: "getConnection st dial p t = (rc, t') \<Longrightarrow> pool_step t t'"

lemma pool_step_ok: "pool_step t t' \<Longrightarrow> pool_ok t \<Longrightarrow> pool_ok t'"
  by (induction rule: pool_step.induct) (auto simp: transport_Close_def Start_ok Stop_ok getConnection_ok)

inductive pool_reach :: "grpc_transport \<Rightarrow> grpc_transport \<Rightarrow> bool" for t0 where
  initial: "pool_reach t0 t0"
| later: "pool_reach t0 t \<Longrightarrow> pool_step t t' \<Longrightarrow> pool_reach t0 t'"

lemma pool_reach_ok: "pool_reach t0 t \<Longrightarrow> pool_ok t0 \<Longrightarrow> pool_ok t"
  by (induction rule: pool_reach.induct) (auto simp: pool_step_ok)

text \<open>C20. No connection is lost or used after it was closed, as long as calls do not overlap: in every
  state the transport reaches, \<open>getConnection\<close> hands out the connection pooled for the peer's
  address, which was not closed, every connection ever dialled is either in the pool, under one
  address, or was closed, once, and stopping a started transport closes those in the pool.\<close>

theorem connections_accounted:
  assumes "pool_reach (NewGRPCTransport nodeID port) t" and "getConnection st dial p t = (r, t')"
  shows "pool_ok t' \<and>
    (\<forall>c. r = Ok c \<longrightarrow> map_of (tr_connections t') (PeerInfo_Addr p) = Some c \<and> c \<notin> set (tr_closed t')) \<and>
    (tr_started t' \<longrightarrow> set (tr_closed (snd (transport_Close t'))) = {0..<tr_dialled t'})"
proof -
  have "pool_ok t" using pool_reach_ok [OF assms(1)] by simp
  note ok = getConnection_ok [OF assms(2) this]
  moreover have "set (tr_closed (snd (transport_Close t'))) = {0..<tr_dialled t'}" if "tr_started t'"
    using that ok by (auto simp: transport_Close_def transport_Stop_def pool_ok_def)
  ultimately show ?thesis using pool_ok_open by blast
qed

definition demo_peer :: PeerInfo where
  "demo_peer = \<lparr>p_ID = ''b'', p_Address = ''10.0.0.2'', p_Port = 6000, p_Metadata = [], p_LastSeen = 0\<rparr>"

theorem connections_accounted_witness:
  "\<exists>t t'. pool_reach (NewGRPCTransport ''a'' 6000) t \<and>
     getConnection (\<lambda>_. TransientFailure) (\<lambda>_. None) demo_peer t = (Ok 1, t') \<and>
     tr_closed t' = [0] \<and> set (tr_closed (snd (transport_Close t'))) = {0, 1}"
proof -
  let ?t0 = "NewGRPCTransport ''a'' 6000"
  let ?t1 = "snd (transport_Start None ?t0)"
  obtain r2 t2 where two: "getConnection (\<lambda>_. Ready) (\<lambda>_. None) demo_peer ?t1 = (r2, t2)" by fastforce
  obtain r3 t3 where three: "getConnection (\<lambda>_. TransientFailure) (\<lambda>_. None) demo_peer t2 = (r3, t3)" by fastforce
  have reach: "pool_reach ?t0 t2"
    by (rule pool_reach.later [OF pool_reach.later [OF pool_reach.initial pool_step.start [OF prod.collapse [symmetric]]]
          pool_step.get [OF two]])
  note run = getConnection_def pooled_connection_def new_connection_def createConnection_def
    transport_Start_def NewGRPCTransport_def
  have t2: "t2 = ?t1\<lparr>tr_dialled := 1, tr_connections := [(PeerInfo_Addr demo_peer, 0)]\<rparr>"
    using two by (simp add: run)
  have t3: "r3 = Ok 1 \<and> tr_closed t3 = [0] \<and> tr_dialled t3 = 2 \<and> tr_started t3"
    using three unfolding t2 by (simp add: run) (elim conjE, hypsubst, simp)
  have "set (tr_closed (snd (transport_Close t3))) = {0..<tr_dialled t3}"
    using connections_accounted [OF reach three] t3 by simp
  moreover have "{0..<tr_dialled t3} = {0, 1}" using t3 by auto
  ultimately have "set (tr_closed (snd (transport_Close t3))) = {0, 1}" by (rule trans)
  with reach three t3 show ?thesis by blast
qed

text \<open>Two calls for one address that overlap, each looking in the pool before the other stores: the
  first connection is neither in the pool nor closed, not even by \<open>Stop\<close>.\<close>

lemma concurrent_dial_leaks:
  assumes "transport_Start None (NewGRPCTransport ''a'' 6000) = (Ok (), t0)"
    and "pooled_connection st a t0 = (x1, t1)" and "pooled_connection st a t1 = (x2, t2)"
    and "new_connection (\<lambda>_. None) a t2 = (r3, t3)" and "new_connection (\<lambda>_. None) a t3 = (r4, t4)"
  shows "r3 = Ok 0 \<and> tr_dialled t4 = 2 \<and> tr_closed (snd (transport_Stop t4)) = [1]"
  using assms
  by (auto simp: transport_Start_def NewGRPCTransport_def pooled_connection_def new_connection_def
      createConnection_def transport_Stop_def)

text \<open>The limit on connections is never enforced.\<close>

lemma pool_unbounded:
  assumes "map_of (tr_connections t) (PeerInfo_Addr p) = None" and "dial (PeerInfo_Addr p) = None"
  shows "fst (getConnection st dial p t) = Ok (tr_dialled t)"
  using assms by (simp add: getConnection_def pooled_connection_def new_connection_def createConnection_def)

end
