(* ===== verification/Manager.thy ===== *)
theory Manager
  imports Config Discovery Pool
begin

text \<open>
  \<open>internal/p2p/manager.go\<close>: the peers a node knows, their health, and the life of the manager with
  its three workers. Each tick of a worker is an operation; the maps are association lists, the
  order in which Go ranges over them is a parameter.
\<close>

subsection \<open>The manager\<close>

record Manager =
  mg_nodeID :: string
  mg_config :: P2PConfig
  mg_transport :: grpc_transport
  mg_discovery :: StaticDiscovery
  mg_peers :: "(string \<times> PeerInfo) list"
  mg_health :: "(string \<times> PeerHealth) list"
  mg_started :: bool
  mg_stopClosed :: bool
  mg_workers :: nat

definition NewManager :: "string \<Rightarrow> int \<Rightarrow> P2PConfig \<Rightarrow> error + Manager" where
  "NewManager uuid clock cfg =
     (let nodeID = (if p2_NodeID cfg = [] then uuid else p2_NodeID cfg);
          bootstrap = (case p2_BootstrapPeers cfg of None \<Rightarrow> [] | Some ps \<Rightarrow> ps) in
      if dy_Method (p2_Discovery cfg) = ''static'' then
        Ok \<lparr>mg_nodeID = nodeID, mg_config = cfg, mg_transport = NewGRPCTransport nodeID (p2_Port cfg),
            mg_discovery = NewStaticDiscovery clock bootstrap nodeID, mg_peers = [], mg_health = [],
            mg_started = False, mg_stopClosed = False, mg_workers = 0\<rparr>
      else Err (Errorf (''unsupported discovery method: '' @ dy_Method (p2_Discovery cfg))))"

definition manager_Start :: "error option \<Rightarrow> Manager \<Rightarrow> (error + unit) \<times> Manager" where
  "manager_Start listen m =
     (if mg_started m then (Err (Errorf ''P2P manager already started''), m)
      else case transport_Start listen (mg_transport m) of
        (Err er, t) \<Rightarrow> (Err (Wrap ''failed to start transport'' er), m\<lparr>mg_transport := t\<rparr>)
      | (Ok _, t) \<Rightarrow> (Ok (), m\<lparr>mg_transport := t, mg_workers := mg_workers m + 3, mg_started := True\<rparr>))"

text \<open>Closing a channel that is closed panics; errors of the transport and the discovery are logged.\<close>

definition manager_Stop :: "Manager \<Rightarrow> (error + unit) \<times> Manager" where
  "manager_Stop m =
     (if \<not> mg_started m then (Ok (), m)
      else if mg_stopClosed m then (Err (RuntimePanic ''close of closed channel''), m)
      else (Ok (), m\<lparr>mg_stopClosed := True, mg_workers := 0, mg_transport := snd (transport_Close (mg_transport m)),
              mg_discovery := snd (discovery_Close (mg_discovery m)), mg_started := False\<rparr>))"

text \<open>The first thing a worker does: its ticker panics unless the interval is positive (that of the
  maintenance is five minutes); then it waits, and ends when it finds the stop channel closed.\<close>

definition NewTicker :: "int \<Rightarrow> error + unit" where
  "NewTicker d = (if d \<le> 0 then Err (RuntimePanic ''non-positive interval for NewTicker'') else Ok ())"

definition workers_begin :: "Manager \<Rightarrow> (error + unit) \<times> Manager" where
  "workers_begin m =
     (case NewTicker (dy_Interval (p2_Discovery (mg_config m))) of
        Err er \<Rightarrow> (Err er, m)
      | Ok _ \<Rightarrow>
          (case NewTicker (hc_Interval (p2_HealthCheck (mg_config m))) of
             Err er \<Rightarrow> (Err er, m)
           | Ok _ \<Rightarrow> (Ok (), if mg_stopClosed m then m\<lparr>mg_workers := 0\<rparr> else m)))"

definition GetNodeID :: "Manager \<Rightarrow> string" where "GetNodeID m = mg_nodeID m"

definition GetTransport :: "Manager \<Rightarrow> grpc_transport" where "GetTransport m = mg_transport m"

definition manager_IsHealthy :: "Manager \<Rightarrow> bool" where "manager_IsHealthy m = mg_started m"

subsection \<open>Peers\<close>

definition manager_GetPeers :: "(PeerInfo list \<Rightarrow> PeerInfo list) \<Rightarrow> Manager \<Rightarrow> error + PeerInfo list" where
  "manager_GetPeers order m = Ok (order (map snd (mg_peers m)))"

definition manager_GetPeerHealth :: "Manager \<Rightarrow> string \<Rightarrow> PeerHealth option" where
  "manager_GetPeerHealth m = map_of (mg_health m)"

text \<open>A peer that answers a ping counts as having the blob; \<open>arrived\<close> are the peers whose result comes
  before the context ends.\<close>

definition manager_FindPeersWithBlob :: "(PeerInfo list \<Rightarrow> PeerInfo list) \<Rightarrow> (PeerInfo \<Rightarrow> error + unit) \<Rightarrow> Manager \<Rightarrow>
    string \<Rightarrow> error + PeerInfo list" where
  "manager_FindPeersWithBlob arrived ping m digest =
     (let results = arrived (map snd (mg_peers m)) in
      if length results < length (mg_peers m) then Err deadline
      else Ok (filter (\<lambda>p. isOk (ping p)) results))"

definition discover_peer :: "int \<Rightarrow> PeerInfo \<Rightarrow> Manager \<Rightarrow> Manager" where
  "discover_peer clock p m =
     (if p_ID p = mg_nodeID m then m
      else m\<lparr>mg_peers := AList.update (p_ID p) (p\<lparr>p_LastSeen := clock\<rparr>) (mg_peers m)\<rparr>)"

definition discoverPeers :: "int \<Rightarrow> Manager \<Rightarrow> (error + unit) \<times> Manager" where
  "discoverPeers clock m =
     (case Discover clock (mg_discovery m) of
        Err er \<Rightarrow> (Err (Wrap ''discovery failed'' er), m)
      | Ok discovered \<Rightarrow> (Ok (), fold (discover_peer clock) discovered m))"

subsection \<open>Health\<close>

datatype outcome = Answered "error + unit" | Panicked string

definition check_peer :: "(PeerInfo \<Rightarrow> outcome) \<Rightarrow> (PeerInfo \<Rightarrow> int) \<Rightarrow> int \<Rightarrow> PeerInfo \<Rightarrow> PeerHealth" where
  "check_peer ping latency clock p =
     (case ping p of
        Answered (Ok _) \<Rightarrow>
          \<lparr>ph_Status = HealthHealthy, ph_Latency = latency p, ph_LastCheck = clock, ph_Error = []\<rparr>
      | Answered (Err er) \<Rightarrow>
          \<lparr>ph_Status = HealthUnhealthy, ph_Latency = latency p, ph_LastCheck = clock, ph_Error = Error er\<rparr>
      | Panicked msg \<Rightarrow>
          \<lparr>ph_Status = HealthUnhealthy, ph_Latency = 0, ph_LastCheck = clock, ph_Error = ''panic: '' @ msg\<rparr>)"

text \<open>A check in two steps, the peers it asks and the results it records: other operations may run in
  between. With no place in the semaphore no check ever runs and no result arrives.\<close>

definition health_begin :: "Manager \<Rightarrow> PeerInfo list" where
  "health_begin m = map snd (mg_peers m)"

definition health_results :: "(PeerInfo list \<Rightarrow> PeerInfo list) \<Rightarrow> (PeerInfo \<Rightarrow> PeerHealth) \<Rightarrow> Manager \<Rightarrow>
    PeerInfo list \<Rightarrow> (string \<times> PeerHealth) list" where
  "health_results arrived check m peers =
     (if hc_Workers (p2_HealthCheck (mg_config m)) = 0 then []
      else map (\<lambda>p. (p_ID p, check p)) (arrived peers))"

definition health_commit :: "(string \<times> PeerHealth) list \<Rightarrow> Manager \<Rightarrow> Manager" where
  "health_commit results m = m\<lparr>mg_health := fold (\<lambda>(i, h). AList.update i h) results (mg_health m)\<rparr>"

definition checkPeerHealth :: "(PeerInfo list \<Rightarrow> PeerInfo list) \<Rightarrow> (PeerInfo \<Rightarrow> PeerHealth) \<Rightarrow> Manager \<Rightarrow>
    (error + unit) \<times> Manager" where
  "checkPeerHealth arrived check m =
     (if hc_Workers (p2_HealthCheck (mg_config m)) < 0 then
        (Err (RuntimePanic ''makechan: size out of range''), m)
      else (Ok (), health_commit (health_results arrived check m (health_begin m)) m))"

subsection \<open>Maintenance\<close>

definition removeStaleTimers :: "int \<Rightarrow> Manager \<Rightarrow> Manager" where
  "removeStaleTimers clock m =
     (let staleThreshold = clock - 10 * Minute;
          peers = filter (\<lambda>(i, p). \<not> p_LastSeen p < staleThreshold) (mg_peers m) in
      m\<lparr>mg_peers := peers, mg_health := filter (\<lambda>(i, h). map_of peers i \<noteq> None) (mg_health m)\<rparr>)"

text \<open>The numbers logged: peers and healthy peers.\<close>

definition logClusterStatus :: "Manager \<Rightarrow> nat \<times> nat" where
  "logClusterStatus m =
     (length (mg_peers m), length (filter (\<lambda>(i, h). ph_Status h = HealthHealthy) (mg_health m)))"

definition performMaintenance :: "int \<Rightarrow> Manager \<Rightarrow> (nat \<times> nat) \<times> Manager" where
  "performMaintenance clock m = (let m1 = removeStaleTimers clock m in (logClusterStatus m1, m1))"

end
