(* ===== verification/ManagerProperties.thy ===== *)
theory ManagerProperties
  imports Manager
begin

text \<open>
  What the manager keeps: peers with distinct identities, all from the bootstrap list and none of
  them the node itself, health only of such peers; how peers age; and what a second start does.
\<close>

subsection \<open>The manager as a state machine\<close>

text \<open>A step is a call or the tick of a worker; a health check in progress is the list of peers it
  asked, and its results are recorded later.\<close>

inductive mgr_step :: "Manager \<times> PeerInfo list \<Rightarrow> Manager \<times> PeerInfo list \<Rightarrow> bool" where
  Start: "manager_Start listen m = (r, m') \<Longrightarrow> mgr_step (m, fl) (m', fl)"
| Stop: "manager_Stop m = (r, m') \<Longrightarrow> mgr_step (m, fl) (m', fl)"
| Begin: "workers_begin m = (r, m') \<Longrightarrow> mgr_step (m, fl) (m', fl)"
| Connect: "getConnection st dial p (mg_transport m) = (rc, t) \<Longrightarrow> mgr_step (m, fl) (m\<lparr>mg_transport := t\<rparr>, fl)"
| Discover: "discoverPeers clock m = (r, m') \<Longrightarrow> mgr_step (m, fl) (m', fl)"
| Ask: "mgr_step (m, fl) (m, health_begin m)"
| Record: "set (arrived fl) \<subseteq> set fl \<Longrightarrow> mgr_step (m, fl) (health_commit (health_results arrived check m fl) m, [])"
| Maintain: "performMaintenance clock m = (n, m') \<Longrightarrow> mgr_step (m, fl) (m', fl)"

inductive mgr_reach :: "Manager \<Rightarrow> Manager \<times> PeerInfo list \<Rightarrow> bool" for m0 where
  initial: "mgr_reach m0 (m0, [])"
| later: "mgr_reach m0 x \<Longrightarrow> mgr_step x y \<Longrightarrow> mgr_reach m0 y"

subsection \<open>The invariant\<close>

text \<open>A peer of the list, at another time.\<close>

definition listed :: "Manager \<Rightarrow> PeerInfo \<Rightarrow> bool" where
  "listed m p \<longleftrightarrow> p_ID p \<noteq> mg_nodeID m \<and>
     (\<exists>q \<in> set (sd_peers (mg_discovery m)). \<exists>t. p = q\<lparr>p_LastSeen := t\<rparr>)"

definition mgr_ok :: "Manager \<Rightarrow> bool" where
  "mgr_ok m \<longleftrightarrow> distinct (map fst (mg_peers m)) \<and>
     (\<forall>(i, p) \<in> set (mg_peers m). p_ID p = i \<and> listed m p) \<and>
     (\<forall>i \<in> fst ` set (mg_health m). \<exists>p. p_ID p = i \<and> listed m p) \<and>
     pool_ok (mg_transport m)"

definition flight_ok :: "Manager \<Rightarrow> PeerInfo list \<Rightarrow> bool" where
  "flight_ok m fl \<longleftrightarrow> (\<forall>p \<in> set fl. listed m p)"

lemma listed_cong: "mg_nodeID m' = mg_nodeID m \<Longrightarrow> sd_peers (mg_discovery m') = sd_peers (mg_discovery m) \<Longrightarrow>
    listed m' = listed m"
  by (simp add: listed_def fun_eq_iff)

lemma set_update: "(k, v) \<in> set (AList.update i x al) \<Longrightarrow> k = i \<and> v = x \<or> (k, v) \<in> set al"
  by (induction al) (auto split: if_splits)

lemma distinct_keys_update [simp]: "distinct (map fst al) \<Longrightarrow> distinct (map fst (AList.update i x al))"
  by (rule distinct_update)

lemma discover_fields:
  "mg_nodeID (fold (discover_peer c) ps m) = mg_nodeID m"
  "mg_discovery (fold (discover_peer c) ps m) = mg_discovery m"
  "mg_health (fold (discover_peer c) ps m) = mg_health m"
  "mg_transport (fold (discover_peer c) ps m) = mg_transport m"
  by (induction ps arbitrary: m) (auto simp: discover_peer_def)

lemma discover_peers:
  assumes "distinct (map fst (mg_peers m))"
    and "(i, p) \<in> set (mg_peers (fold (discover_peer c) ps m))"
  shows "(i, p) \<in> set (mg_peers m) \<or>
    i \<noteq> mg_nodeID m \<and> p_ID p = i \<and> (\<exists>q \<in> set ps. p = q\<lparr>p_LastSeen := c\<rparr>)"
  using assms
proof (induction ps arbitrary: m)
  case (Cons q ps)
  have d: "distinct (map fst (mg_peers (discover_peer c q m)))" using Cons.prems(1) by (simp add: discover_peer_def)
  have n: "mg_nodeID (discover_peer c q m) = mg_nodeID m" by (simp add: discover_peer_def)
  from Cons.IH [OF d] Cons.prems(2) n
  have "(i, p) \<in> set (mg_peers (discover_peer c q m)) \<or>
      i \<noteq> mg_nodeID m \<and> p_ID p = i \<and> (\<exists>q \<in> set ps. p = q\<lparr>p_LastSeen := c\<rparr>)" by auto
  then show ?case by (auto simp: discover_peer_def dest!: set_update split: if_splits)
qed simp

lemma discover_distinct: "distinct (map fst (mg_peers m)) \<Longrightarrow> distinct (map fst (mg_peers (fold (discover_peer c) ps m)))"
  by (induction ps arbitrary: m) (auto simp: discover_peer_def)

lemma commit_fields:
  "mg_nodeID (health_commit rs m) = mg_nodeID m" "mg_discovery (health_commit rs m) = mg_discovery m"
  "mg_peers (health_commit rs m) = mg_peers m" "mg_transport (health_commit rs m) = mg_transport m"
  by (simp_all add: health_commit_def)

lemma commit_keys: "fst ` set (mg_health (health_commit rs m)) = fst ` set (mg_health m) \<union> fst ` set rs"
proof -
  have "fst ` set (fold (\<lambda>(i, h). AList.update i h) rs al) = fst ` set al \<union> fst ` set rs" for al
  proof (induction rs arbitrary: al)
    case (Cons r rs)
    then show ?case by (cases r) (auto simp: dom_update)
  qed simp
  then show ?thesis by (simp add: health_commit_def)
qed

lemma mgr_ok_cong:
  assumes "mgr_ok m" and "mg_nodeID m' = mg_nodeID m"
    and "sd_peers (mg_discovery m') = sd_peers (mg_discovery m)" and "mg_peers m' = mg_peers m"
    and "mg_health m' = mg_health m" and "pool_ok (mg_transport m')"
  shows "mgr_ok m'"
  using assms listed_cong [OF assms(2,3)] by (simp add: mgr_ok_def)

lemma discoverPeers_cases:
  assumes "discoverPeers c m = (r, m')"
  obtains "m' = m" | ps where "m' = fold (discover_peer c) ps m"
    and "ps = map (\<lambda>p. p\<lparr>p_LastSeen := c\<rparr>) (sd_peers (mg_discovery m))"
  using assms by (auto simp: discoverPeers_def Discover_def split: sum.splits if_splits)

lemma discover_ok:
  assumes "discoverPeers c m = (r, m')" and "mgr_ok m"
  shows "mgr_ok m' \<and> listed m' = listed m"
  using assms(1)
proof (cases rule: discoverPeers_cases)
  case 1
  then show ?thesis using assms(2) by simp
next
  case (2 ps)
  note fields = discover_fields [of c ps m, folded 2(1)]
  have l: "listed m' = listed m" using fields by (intro listed_cong) simp_all
  have "p_ID p = i \<and> listed m p" if "(i, p) \<in> set (mg_peers m')" for i p
  proof -
    have "distinct (map fst (mg_peers m))" using assms(2) by (simp add: mgr_ok_def)
    from discover_peers [OF this that [unfolded 2(1)]]
    consider "(i, p) \<in> set (mg_peers m)"
      | q where "i \<noteq> mg_nodeID m" "p_ID p = i" "q \<in> set ps" "p = q\<lparr>p_LastSeen := c\<rparr>"
      by blast
    then show ?thesis
    proof cases
      case 1
      then show ?thesis using assms(2) by (auto simp: mgr_ok_def)
    next
      case (2 q)
      then obtain q0 where "q0 \<in> set (sd_peers (mg_discovery m))" "p = q0\<lparr>p_LastSeen := c\<rparr>"
        using \<open>ps = _\<close> by auto
      then have "listed m p" using 2(1,2) unfolding listed_def by blast
      with 2(2) show ?thesis by simp
    qed
  qed
  then show ?thesis using assms(2) discover_distinct [of m c ps] l fields
    by (auto simp: mgr_ok_def 2(1))
qed

lemma commit_ok:
  assumes "mgr_ok m" and "flight_ok m fl" and "set (arrived fl) \<subseteq> set fl"
  shows "mgr_ok (health_commit (health_results arrived check m fl) m)"
proof -
  let ?rs = "health_results arrived check m fl"
  have "\<exists>p. p_ID p = i \<and> listed m p" if i: "i \<in> fst ` set ?rs" for i
  proof -
    obtain p where "p \<in> set (arrived fl)" and "i = p_ID p"
      using i unfolding health_results_def by (cases "hc_Workers (p2_HealthCheck (mg_config m)) = 0") auto
    then show ?thesis using assms(2,3) by (auto simp: flight_ok_def)
  qed
  then show ?thesis
    using assms(1) listed_cong [of "health_commit ?rs m" m] unfolding mgr_ok_def commit_keys commit_fields
    by (auto simp: commit_fields)
qed

lemma maintain_ok:
  assumes "mgr_ok m"
  shows "mgr_ok (removeStaleTimers c m)" and "listed (removeStaleTimers c m) = listed m"
proof -
  show l: "listed (removeStaleTimers c m) = listed m"
    by (rule listed_cong) (simp_all add: removeStaleTimers_def Let_def)
  have "distinct (map fst (filter P (mg_peers m)))" for P
    using assms by (simp add: mgr_ok_def distinct_map_filter)
  then show "mgr_ok (removeStaleTimers c m)"
    using assms l by (auto simp: mgr_ok_def removeStaleTimers_def Let_def)
qed

lemma life_ok:
  assumes "mgr_ok m"
  shows "manager_Start listen m = (r, m') \<Longrightarrow> mgr_ok m' \<and> listed m' = listed m"
    and "manager_Stop m = (r, m') \<Longrightarrow> mgr_ok m' \<and> listed m' = listed m"
    and "workers_begin m = (r, m') \<Longrightarrow> mgr_ok m' \<and> listed m' = listed m"
proof -
  have pool: "pool_ok (mg_transport m)" using assms by (simp add: mgr_ok_def)
  have step: "mgr_ok m' \<and> listed m' = listed m"
    if "mg_nodeID m' = mg_nodeID m" "sd_peers (mg_discovery m') = sd_peers (mg_discovery m)"
      "mg_peers m' = mg_peers m" "mg_health m' = mg_health m" "pool_ok (mg_transport m')"
    using mgr_ok_cong [OF assms that] listed_cong [OF that(1,2)] by simp
  obtain ra ta where start: "transport_Start listen (mg_transport m) = (ra, ta)" by fastforce
  show "mgr_ok m' \<and> listed m' = listed m" if "manager_Start listen m = (r, m')"
  proof -
    have m': "m' = m \<or> m' = m\<lparr>mg_transport := ta\<rparr> \<or>
        m' = m\<lparr>mg_transport := ta, mg_workers := mg_workers m + 3, mg_started := True\<rparr>"
      using that start by (cases ra) (simp_all add: manager_Start_def split: if_splits)
    show ?thesis by (rule step) (use m' Start_ok [OF start pool] pool in \<open>elim disjE; simp\<close>)+
  qed
  obtain rb tb where stop: "transport_Stop (mg_transport m) = (rb, tb)" by fastforce
  show "mgr_ok m' \<and> listed m' = listed m" if "manager_Stop m = (r, m')"
  proof -
    have d: "sd_peers (snd (discovery_Close (mg_discovery m))) = sd_peers (mg_discovery m)"
      by (simp add: discovery_Close_def)
    have m': "m' = m \<or> m' = m\<lparr>mg_stopClosed := True, mg_workers := 0, mg_transport := tb,
        mg_discovery := snd (discovery_Close (mg_discovery m)), mg_started := False\<rparr>"
      using that stop by (simp add: manager_Stop_def transport_Close_def split: if_splits)
    show ?thesis by (rule step) (use m' d Stop_ok [OF stop pool] pool in \<open>elim disjE; simp\<close>)+
  qed
  show "mgr_ok m' \<and> listed m' = listed m" if "workers_begin m = (r, m')"
    using that pool by (intro step) (auto simp: workers_begin_def NewTicker_def split: if_splits)
qed

lemma mgr_step_ok:
  assumes "mgr_step x y" and "mgr_ok (fst x)" and "flight_ok (fst x) (snd x)"
  shows "mgr_ok (fst y) \<and> flight_ok (fst y) (snd y) \<and> listed (fst y) = listed (fst x)"
  using assms
proof (induction rule: mgr_step.induct)
  case (Connect st dial p m rc t fl)
  then have m: "mgr_ok m" by simp
  then have "pool_ok (mg_transport m)" by (simp add: mgr_ok_def)
  then have "pool_ok t" using getConnection_ok [OF Connect(1)] by simp
  then have "mgr_ok (m\<lparr>mg_transport := t\<rparr>)" by (intro mgr_ok_cong [OF m]) simp_all
  moreover have "listed (m\<lparr>mg_transport := t\<rparr>) = listed m" by (rule listed_cong) simp_all
  ultimately show ?case using Connect by (simp add: flight_ok_def)
next
  case (Ask m fl)
  then show ?case by (auto simp: flight_ok_def health_begin_def mgr_ok_def)
next
  case (Record arrived fl m check)
  let ?m = "health_commit (health_results arrived check m fl) m"
  have "mgr_ok ?m" using commit_ok [where fl = fl and arrived = arrived] Record by simp
  moreover have "listed ?m = listed m" by (rule listed_cong) (simp_all add: commit_fields)
  ultimately show ?case by (simp add: flight_ok_def)
next
  case (Maintain clock m n m' fl)
  then have "m' = removeStaleTimers clock m" by (simp add: performMaintenance_def Let_def)
  then show ?case using Maintain(2,3) maintain_ok [of m clock] by (simp add: flight_ok_def)
next
  case (Discover clock m r m' fl)
  then show ?case using discover_ok [OF Discover(1)] by (simp add: flight_ok_def)
next
  case (Start listen m r m' fl)
  then show ?case using life_ok(1) [OF _ Start(1)] by (simp add: flight_ok_def)
next
  case (Stop m r m' fl)
  then show ?case using life_ok(2) [OF _ Stop(1)] by (simp add: flight_ok_def)
next
  case (Begin m r m' fl)
  then show ?case using life_ok(3) [OF _ Begin(1)] by (simp add: flight_ok_def)
qed

lemma mgr_reach_ok: "mgr_reach m0 x \<Longrightarrow> mgr_ok m0 \<Longrightarrow>
    mgr_ok (fst x) \<and> flight_ok (fst x) (snd x) \<and> listed (fst x) = listed m0"
proof (induction rule: mgr_reach.induct)
  case initial
  then show ?case by (simp add: flight_ok_def)
next
  case (later x y)
  then show ?case using mgr_step_ok by metis
qed

lemma NewManager_ok: "NewManager uuid clock cfg = Ok m \<Longrightarrow> mgr_ok m"
  by (auto simp: NewManager_def mgr_ok_def Let_def split: if_splits)

subsection \<open>What a node knows of its peers\<close>

text \<open>C13. In every state the manager reaches, by calls and ticks of its workers in any order, a health
  check in progress included: the peers it lists have distinct identities, each is a bootstrap
  peer with another time, none is the node itself, and health is recorded only for the identities of such peers.
  After maintenance every peer left was seen in the last ten minutes and health is kept for
  known peers only.\<close>

theorem manager_peers:
  assumes "NewManager uuid t0 cfg = Ok m0" and "mgr_reach m0 (m, fl)"
  shows "distinct (map p_ID (map snd (mg_peers m))) \<and>
    (\<forall>p \<in> snd ` set (mg_peers m). p_ID p \<noteq> mg_nodeID m0 \<and>
       (\<exists>q \<in> set (sd_peers (mg_discovery m0)). \<exists>t. p = q\<lparr>p_LastSeen := t\<rparr>)) \<and>
    (\<forall>i \<in> fst ` set (mg_health m). i \<noteq> mg_nodeID m0 \<and> (\<exists>q \<in> set (sd_peers (mg_discovery m0)). p_ID q = i)) \<and>
    (\<forall>(i, p) \<in> set (mg_peers (snd (performMaintenance clock m))). clock - 10 * Minute \<le> p_LastSeen p) \<and>
    fst ` set (mg_health (snd (performMaintenance clock m))) \<subseteq> fst ` set (mg_peers (snd (performMaintenance clock m)))"
proof -
  have ok: "mgr_ok m" and l: "listed m = listed m0"
    using mgr_reach_ok [OF assms(2) NewManager_ok [OF assms(1)]] by simp_all
  have ids: "map p_ID (map snd (mg_peers m)) = map fst (mg_peers m)"
    using ok by (auto simp: mgr_ok_def)
  have "distinct (map p_ID (map snd (mg_peers m)))" unfolding ids using ok by (simp add: mgr_ok_def)
  moreover have "listed m0 p" if "p \<in> snd ` set (mg_peers m)" for p
    using that ok l by (auto simp: mgr_ok_def)
  moreover have "\<exists>p. p_ID p = i \<and> listed m0 p" if "i \<in> fst ` set (mg_health m)" for i
    using that ok l by (auto simp: mgr_ok_def)
  moreover have "\<forall>(i, p) \<in> set (mg_peers (snd (performMaintenance clock m))). clock - 10 * Minute \<le> p_LastSeen p"
    by (auto simp: performMaintenance_def removeStaleTimers_def Let_def)
  moreover have "fst ` set (mg_health (snd (performMaintenance clock m))) \<subseteq>
      fst ` set (mg_peers (snd (performMaintenance clock m)))"
    by (auto simp: performMaintenance_def removeStaleTimers_def Let_def map_of_eq_None_iff image_iff
        dest!: map_of_SomeD)
  ultimately show ?thesis unfolding listed_def by fastforce
qed

text \<open>A node of two peers, one of them itself.\<close>

definition pair_config :: P2PConfig where
  "pair_config = (c_P2P Default)\<lparr>p2_Enabled := True, p2_NodeID := ''n1'',
     p2_BootstrapPeers := Some [''n1@10.0.0.1:6000'', ''n2@10.0.0.2:6000'']\<rparr>"

definition far_peer :: "int \<Rightarrow> PeerInfo" where
  "far_peer t = \<lparr>p_ID = ''n2'', p_Address = ''10.0.0.2'', p_Port = 6000, p_Metadata = [], p_LastSeen = t\<rparr>"

lemma pair_bootstrap:
  "bootstrap_peer t ''n1@10.0.0.1:6000'' = Some ((far_peer t)\<lparr>p_ID := ''n1'', p_Address := ''10.0.0.1''\<rparr>)"
  "bootstrap_peer t ''n2@10.0.0.2:6000'' = Some (far_peer t)"
  by (simp_all add: bootstrap_peer_def parsePeerAddress_def SplitHostPort_def last_index_of_def
      ParseInt_def parse_unsigned_def digit_val_def in_int64_def far_peer_def Let_def)

lemma pair_manager:
  "\<exists>m. NewManager uuid 0 pair_config = Ok m \<and> mg_nodeID m = ''n1'' \<and> mg_peers m = [] \<and>
     sd_closed (mg_discovery m) = False \<and>
     sd_peers (mg_discovery m) = [(far_peer 0)\<lparr>p_ID := ''n1'', p_Address := ''10.0.0.1''\<rparr>, far_peer 0]"
  by (simp add: NewManager_def pair_config_def Default_def NewStaticDiscovery_def pair_bootstrap Let_def)

lemma pair_discovered:
  "\<exists>m0 m. NewManager [] 0 pair_config = Ok m0 \<and> discoverPeers 7 m0 = (Ok (), m) \<and>
     mg_peers m = [(''n2'', far_peer 7)] \<and> mg_health m = [] \<and> mg_config m = pair_config"
proof -
  obtain m0 where m0: "NewManager [] 0 pair_config = Ok m0" "mg_nodeID m0 = ''n1''" "mg_peers m0 = []"
    "sd_closed (mg_discovery m0) = False"
    "sd_peers (mg_discovery m0) = [(far_peer 0)\<lparr>p_ID := ''n1'', p_Address := ''10.0.0.1''\<rparr>, far_peer 0]"
    using pair_manager by blast
  have "mg_health m0 = [] \<and> mg_config m0 = pair_config"
    using m0(1) by (auto simp: NewManager_def Let_def split: if_splits)
  then show ?thesis
    using m0 by (simp add: discoverPeers_def Discover_def discover_peer_def far_peer_def)
qed

theorem manager_peers_witness:
  "\<exists>m0 m. NewManager [] 0 pair_config = Ok m0 \<and> mgr_reach m0 (m, []) \<and>
     mg_peers m = [(''n2'', far_peer 7)] \<and> distinct (map p_ID (map snd (mg_peers m)))"
proof -
  obtain m0 m where m0: "NewManager [] 0 pair_config = Ok m0" and run: "discoverPeers 7 m0 = (Ok (), m)"
    and peers: "mg_peers m = [(''n2'', far_peer 7)]"
    using pair_discovered by blast
  have "mgr_reach m0 (m, [])" by (rule mgr_reach.later [OF mgr_reach.initial mgr_step.Discover [OF run]])
  with m0 peers manager_peers [OF m0 this] show ?thesis by blast
qed

subsection \<open>Lives of the manager\<close>

text \<open>C39. A manager can be started again after it was stopped, and then is healthy without workers, and
  stopping it a second time panics: the stop channel is closed once and never made anew.\<close>

theorem restart_then_stop_panics:
  assumes "NewManager uuid t0 cfg = Ok m0"
    and "manager_Start None m0 = (r1, m1)" and "manager_Stop m1 = (r2, m2)"
    and "manager_Start None m2 = (r3, m3)" and "workers_begin m3 = (Ok u, m4)"
  shows "r1 = Ok () \<and> r2 = Ok () \<and> r3 = Ok () \<and> manager_IsHealthy m4 \<and> mg_workers m4 = 0 \<and>
    fst (manager_Stop m4) = Err (RuntimePanic ''close of closed channel'')"
proof -
  have new: "\<not> mg_started m0" "\<not> mg_stopClosed m0" "\<not> tr_started (mg_transport m0)"
    using assms(1) by (auto simp: NewManager_def NewGRPCTransport_def Let_def split: if_splits)
  then have m1: "r1 = Ok () \<and> mg_started m1 \<and> \<not> mg_stopClosed m1 \<and> tr_started (mg_transport m1)"
    using assms(2) by (auto simp: manager_Start_def transport_Start_def)
  then have m2: "r2 = Ok () \<and> \<not> mg_started m2 \<and> mg_stopClosed m2 \<and> \<not> tr_started (mg_transport m2)"
    using assms(3) by (auto simp: manager_Stop_def transport_Close_def transport_Stop_def)
  then have m3: "r3 = Ok () \<and> mg_started m3 \<and> mg_stopClosed m3"
    using assms(4) by (auto simp: manager_Start_def transport_Start_def)
  then have "mg_started m4 \<and> mg_stopClosed m4 \<and> mg_workers m4 = 0"
    using assms(5) by (auto simp: workers_begin_def split: sum.splits)
  then show ?thesis using m1 m2 m3 by (simp add: manager_IsHealthy_def manager_Stop_def)
qed

theorem restart_then_stop_panics_witness:
  "\<exists>m0 m4. NewManager [] 0 pair_config = Ok m0 \<and>
     workers_begin (snd (manager_Start None (snd (manager_Stop (snd (manager_Start None m0)))))) = (Ok (), m4) \<and>
     fst (manager_Stop m4) = Err (RuntimePanic ''close of closed channel'')"
proof -
  obtain m0 where m0: "NewManager [] 0 pair_config = Ok m0" using pair_manager by blast
  let ?m3 = "snd (manager_Start None (snd (manager_Stop (snd (manager_Start None m0)))))"
  have "mg_config (snd (manager_Start l m)) = mg_config m" "mg_config (snd (manager_Stop m)) = mg_config m" for l m
    by (auto simp: manager_Start_def manager_Stop_def split: sum.split prod.split)
  moreover have "mg_config m0 = pair_config" using m0 by (auto simp: NewManager_def Let_def split: if_splits)
  ultimately have "mg_config ?m3 = pair_config" by simp
  then obtain m4 where run: "workers_begin ?m3 = (Ok (), m4)"
    by (simp add: workers_begin_def NewTicker_def pair_config_def Default_def)
  show ?thesis
    using restart_then_stop_panics [OF m0 prod.collapse [symmetric] prod.collapse [symmetric] prod.collapse [symmetric] run] m0 run
    by blast
qed

text \<open>Configuration taken from the environment after validation can stop the process: a file that
  validates with peers disabled, and one variable that enables them, give a manager that is
  created and started, and whose discovery worker panics on its ticker.\<close>

theorem env_enabled_peers_panic:
  "isOk (fst (Validate hostname unchecked_file)) \<and>
   (\<exists>m. NewManager uuid t0 (c_P2P (LoadFromEnv enabling_env unchecked_file)) = Ok m \<and>
      isOk (fst (manager_Start None m)) \<and>
      fst (workers_begin (snd (manager_Start None m))) = Err (RuntimePanic ''non-positive interval for NewTicker''))"
  using env_after_validation(1)
  by (simp add: enabled_p2p) (simp add: unchecked_file_def Default_def NewManager_def NewGRPCTransport_def
      manager_Start_def transport_Start_def workers_begin_def NewTicker_def Let_def)

end
