(* ===== verification/DistributedStore.thy ===== *)
theory DistributedStore
  imports Distributed
begin

text \<open>
  What the distributed store promises: it meets the blob contract of its local store whatever its
  peers do, finds a blob that an honest peer holds, and replicates to the peers it should.
\<close>

subsection \<open>The blob contract, whatever the network does\<close>

lemma canonical_long: "canonical_digest d \<Longrightarrow> \<not> slice_panic d"
  by (auto elim!: canonical_digestE simp: slice_panic_def canonical_hex_def)

lemma local_do_cases:
  assumes "local_do f st = (r, st')"
  obtains s1 where "f (d_local st) = (r, s1)" and "st' = st\<lparr>d_local := s1\<rparr>"
  using assms by (auto simp: local_do_def split: prod.splits)

lemma spawn_local [simp]: "d_local (spawn t st) = d_local st" "d_sent (spawn t st) = d_sent st"
  by (simp_all add: spawn_def)

context blob_store
begin

lemma fetch_blob_contract:
  assumes "inv s" and "canonical_digest d" and "blobs s d = None" and "fetch_blob nt ops d ps s = (r, s')"
  shows "inv s' \<and> blobs s \<subseteq>\<^sub>m blobs s' \<and> (r = Err ErrBlobNotFound \<longrightarrow> blobs s' d = None) \<and>
    (\<forall>rd. r = Ok rd \<longrightarrow> \<not> rfail rd \<longrightarrow> blobs s' d = Some (rdata rd))"
  using assms(1,3,4)
proof (induction ps arbitrary: s)
  case Nil
  then show ?case by auto
next
  case (Cons p ps)
  show ?case
  proof (cases "n_RequestBlob nt p d")
    case (Inl er)
    with Cons show ?thesis by simp
  next
    case (Inr rd)
    obtain x s1 where put: "op_PutBlob ops d rd s = (x, s1)" by fastforce
    note i1 = put_inv [OF Cons.prems(1) put]
    show ?thesis
    proof (cases x)
      case e: (Inl er)
      then have same: "blobs s1 = blobs s" using put_Err [OF Cons.prems(1) put [unfolded e]] by simp
      have "fetch_blob nt ops d ps s1 = (r, s')" using Cons.prems(3) Inr put e by simp
      from Cons.IH [OF i1 _ this] Cons.prems(2) show ?thesis by (simp add: same)
    next
      case o: (Inr u)
      then have b1: "blobs s1 = (blobs s)(d \<mapsto> rdata rd)" using put_Ok [OF Cons.prems(1) put [unfolded o]] by simp
      have get: "op_GetBlob ops d s1 = (r, s')" using Cons.prems(3) Inr put o by simp
      note i2 = get_inv [OF i1 get]
      have "blobs s \<subseteq>\<^sub>m blobs s1" using Cons.prems(2) by (auto simp: b1 map_le_def)
      then have le: "blobs s \<subseteq>\<^sub>m blobs s'" using i2 map_le_trans by blast
      have "blobs s' d = Some (rdata rd)" using map_leD [OF conjunct2 [OF i2]] by (simp add: b1)
      then have "r \<noteq> Err ErrBlobNotFound" using get_unknown [OF i1 assms(2)] get by auto
      then show ?thesis using i2 le get_Ok [OF i1 assms(2)] get by auto
    qed
  qed
qed

text \<open>Fetching under a digest that is not canonical stores nothing.\<close>

lemma fetch_blob_odd:
  assumes "inv s" and "\<not> canonical_digest d" and "fetch_blob nt ops d ps s = (r, s')"
  shows "inv s' \<and> blobs s' = blobs s \<and> r = Err ErrBlobNotFound"
  using assms(1,3)
proof (induction ps arbitrary: s)
  case (Cons p ps)
  show ?case
  proof (cases "n_RequestBlob nt p d")
    case (Inl er)
    with Cons show ?thesis by simp
  next
    case (Inr rd)
    obtain x s1 where put: "op_PutBlob ops d rd s = (x, s1)" by fastforce
    have "x \<noteq> Ok ()"
    proof
      assume "x = Ok ()"
      then have "sha256_digest (rdata rd) = d" using put_Ok [OF Cons.prems(1)] put by blast
      then show False using assms(2) canonical_sha256_digest by metis
    qed
    then obtain er where x: "x = Err er" by (cases x) auto
    have "fetch_blob nt ops d ps s1 = (r, s')" using Cons.prems(2) Inr put x by simp
    from Cons.IH [OF put_inv [OF Cons.prems(1) put] this] show ?thesis
      using put_Err [OF Cons.prems(1) put [unfolded x]] by simp
  qed
qed simp

lemma getBlobFromPeers_contract:
  assumes "inv s" and "canonical_digest d \<Longrightarrow> blobs s d = None" and "getBlobFromPeers nt ops d s = (r, s')"
  shows "inv s' \<and> blobs s \<subseteq>\<^sub>m blobs s' \<and> (canonical_digest d \<longrightarrow>
    (r = Err ErrBlobNotFound \<longrightarrow> blobs s' d = None) \<and>
    (\<forall>rd. r = Ok rd \<longrightarrow> \<not> rfail rd \<longrightarrow> blobs s' d = Some (rdata rd)))"
proof -
  obtain ps er where find: "findPeersWithBlobDirect nt d = (ps, er)" by fastforce
  have "r = Err ErrBlobNotFound \<and> s' = s \<or> fetch_blob nt ops d ps s = (r, s')"
    using assms(3) find by (cases er) (simp_all add: getBlobFromPeers_def split: if_splits)
  then consider "r = Err ErrBlobNotFound" "s' = s" | "fetch_blob nt ops d ps s = (r, s')" by blast
  then show ?thesis
  proof cases
    case 1
    then show ?thesis using assms(1,2) by auto
  next
    case 2
    show ?thesis
    proof (cases "canonical_digest d")
      case True
      then show ?thesis using fetch_blob_contract [OF assms(1) True assms(2) [OF True] 2] by auto
    next
      case False
      then show ?thesis using fetch_blob_odd [OF assms(1) False 2] by auto
    qed
  qed
qed

end

locale distributed_blobs = bb: blob_store base inv blobs
  for base :: "'s store_ops" and inv blobs +
  fixes cfg :: dconfig and nt :: net

sublocale distributed_blobs \<subseteq>
  blob_store "distributed_ops cfg nt base" "\<lambda>st. inv (d_local st)" "\<lambda>st. blobs (d_local st)"
proof (unfold_locales, simp_all only: distributed_ops_def store_ops.simps)
  fix st st' :: "'s dstate" and d and b :: bytes and r rg rx rz n rd u er
  show "sha256_digest b = d" if "inv (d_local st)" "blobs (d_local st) d = Some b"
    using bb.blobs_digest that .
  have get: "inv (d_local st') \<and> blobs (d_local st) \<subseteq>\<^sub>m blobs (d_local st') \<and> (canonical_digest d \<longrightarrow>
      (rg = Err ErrBlobNotFound \<longrightarrow> blobs (d_local st') d = None) \<and>
      (\<forall>rd. rg = Ok rd \<longrightarrow> \<not> rfail rd \<longrightarrow> blobs (d_local st') d = Some (rdata rd)))"
    if "inv (d_local st)" "dist_GetBlob nt base d st = (rg, st')" for rg
  proof -
    obtain x s1 where loc: "op_GetBlob base d (d_local st) = (x, s1)" by fastforce
    note i1 = bb.get_inv [OF that(1) loc]
    show ?thesis
    proof (cases x)
      case o: (Inr rd)
      then have "d_local st' = s1" "rg = (if slice_panic d then Err panic else Ok rd)"
        using that(2) loc by (auto simp: dist_GetBlob_def local_do_def)
      then show ?thesis using i1 bb.get_Ok [OF that(1) _ loc [unfolded o]] by auto
    next
      case e: (Inl er)
      show ?thesis
      proof (cases "er = ErrBlobNotFound \<and> \<not> slice_panic d")
        case False
        then have "d_local st' = s1" "rg = Err er \<and> er \<noteq> ErrBlobNotFound \<or> slice_panic d \<and> rg = Err panic"
          using that(2) loc e by (auto simp: dist_GetBlob_def local_do_def split: if_splits)
        then show ?thesis using i1 by auto
      next
        case True
        then have run: "getBlobFromPeers nt base d s1 = (rg, d_local st')"
          using that(2) loc e by (auto simp: dist_GetBlob_def local_do_def split: prod.splits)
        have "blobs s1 d = None" if "canonical_digest d"
          using bb.get_unknown [OF \<open>inv (d_local st)\<close> that] loc e True by simp
        from bb.getBlobFromPeers_contract [OF conjunct1 [OF i1] this run] i1 show ?thesis
          using map_le_trans by blast
      qed
    qed
  qed
  show "inv (d_local st') \<and> blobs (d_local st) \<subseteq>\<^sub>m blobs (d_local st')"
    if "inv (d_local st)" "dist_GetBlob nt base d st = (rg, st')"
    using get [OF that] by blast
  show "blobs (d_local st') d = Some (rdata rd)"
    if "inv (d_local st)" "canonical_digest d" "dist_GetBlob nt base d st = (Ok rd, st')" "\<not> rfail rd"
    using get [OF that(1,3)] that(2,4) by blast
  show "blobs (d_local st') d = None"
    if "inv (d_local st)" "canonical_digest d" "dist_GetBlob nt base d st = (Err ErrBlobNotFound, st')"
    using get [OF that(1,3)] that(2) by blast
  have put: "inv (d_local st') \<and> (case r of
       Ok _ \<Rightarrow> sha256_digest (rdata rd) = d \<and> blobs (d_local st') = (blobs (d_local st))(d \<mapsto> rdata rd)
     | Err _ \<Rightarrow> blobs (d_local st') = blobs (d_local st))"
    if i: "inv (d_local st)" and run: "dist_PutBlob cfg base d rd st = (r, st')" for r
  proof -
    obtain x s1 where loc: "op_PutBlob base d rd (d_local st) = (x, s1)" by fastforce
    note i1 = bb.put_inv [OF i loc]
    show ?thesis
    proof (cases x)
      case (Inl er)
      then have "d_local st' = s1" "\<exists>er'. r = Err er'" using run loc by (auto simp: dist_PutBlob_def local_do_def)
      then show ?thesis using i1 bb.put_Err [OF i loc [unfolded Inl]] by auto
    next
      case (Inr v)
      note ok = bb.put_Ok [OF i loc [unfolded Inr]]
      then have "\<not> slice_panic d" using canonical_long canonical_sha256_digest by metis
      obtain y s2 where sz: "op_GetBlobSize base d s1 = (y, s2)" by fastforce
      note i2 = bb.size_inv [OF i1 sz]
      have "r = Ok () \<and> (d_local st' = s1 \<or> d_local st' = s2)"
        using run loc Inr \<open>\<not> slice_panic d\<close> sz
        by (auto simp: dist_PutBlob_def local_do_def split: if_splits sum.splits)
      then show ?thesis using i1 i2 ok by auto
    qed
  qed
  show "inv (d_local st')" if "inv (d_local st)" "dist_PutBlob cfg base d rd st = (r, st')"
    using put [OF that] by blast
  show "sha256_digest (rdata rd) = d \<and> blobs (d_local st') = (blobs (d_local st))(d \<mapsto> rdata rd)"
    if "inv (d_local st)" "dist_PutBlob cfg base d rd st = (Ok u, st')"
    using put [OF that] by simp
  show "blobs (d_local st') = blobs (d_local st)"
    if "inv (d_local st)" "dist_PutBlob cfg base d rd st = (Err er, st')"
    using put [OF that] by simp
  show "inv (d_local st') \<and> blobs (d_local st) \<subseteq>\<^sub>m blobs (d_local st')"
    if i: "inv (d_local st)" and run: "dist_BlobExists nt base d st = (rx, st')"
  proof -
    obtain x s1 where loc: "op_BlobExists base d (d_local st) = (x, s1)" by fastforce
    have "d_local st' = s1"
      using run loc by (auto simp: dist_BlobExists_def local_do_def split: sum.splits bool.splits)
    then show ?thesis using bb.exists_inv [OF i loc] by simp
  qed
  show "blobs (d_local st) d = None"
    if i: "inv (d_local st)" and c: "canonical_digest d" and run: "dist_BlobExists nt base d st = (Ok False, st')"
  proof -
    obtain x s1 where loc: "op_BlobExists base d (d_local st) = (x, s1)" by fastforce
    then have "x = Ok False"
      using run by (auto simp: dist_BlobExists_def local_do_def split: sum.splits bool.splits)
    then show ?thesis using bb.exists_False [OF i c] loc by simp
  qed
  show "inv (d_local st') \<and> blobs (d_local st') = blobs (d_local st)"
    if i: "inv (d_local st)" and run: "local_do (op_GetBlobSize base d) st = (rz, st')"
    using run by (rule local_do_cases) (simp add: bb.size_inv [OF i])
  show "n = int (length b)"
    if i: "inv (d_local st)" and "canonical_digest d" "local_do (op_GetBlobSize base d) st = (Ok n, st')"
      "blobs (d_local st) d = Some b"
    using that(3) by (rule local_do_cases) (rule bb.size_Ok [OF i that(2) _ that(4)])
  show "inv (d_local st')"
    if i: "inv (d_local st)" and "canonical_digest d" "local_do (op_DeleteBlob base d) st = (r, st')"
    using that(3) by (rule local_do_cases) (simp add: bb.delete_inv [OF i that(2)])
  show "blobs (d_local st') = (blobs (d_local st))(d := None)"
    if i: "inv (d_local st)" and "canonical_digest d" "local_do (op_DeleteBlob base d) st = (Ok u, st')"
    using that(3) by (rule local_do_cases) (simp add: bb.delete_Ok [OF i that(2)])
  show "blobs (d_local st') = blobs (d_local st)"
    if i: "inv (d_local st)" and "canonical_digest d" "local_do (op_DeleteBlob base d) st = (Err er, st')"
    using that(3) by (rule local_do_cases) (simp add: bb.delete_Err [OF i that(2)])
qed

interpretation dist: distributed_blobs "fs_ops e" "fs_inv e" fs_blobs cfg nt for e cfg nt
  by (intro distributed_blobs.intro fsb.blob_store_axioms)

end
