(* ===== verification/DistributedProperties.thy ===== *)
theory DistributedProperties
  imports DistributedStore
begin

text \<open>
  The distributed store over the filesystem store: what a client is served when the blob comes
  from a peer, how lookups end, and what is replicated.
\<close>

subsection \<open>Fetching from peers\<close>

text \<open>A failed put leaves the place of the blob free.\<close>

lemma PutBlob_failed_slot:
  assumes "PutBlob e d rd s = (Err er, s')" and "digest_ok e" and "canonical_digest d" and "slot_free s d"
  shows "slot_free s' d"
proof -
  let ?b = "s_basePath s" and ?h = "drop 7 d"
  let ?dir = "blob_dir ?b ?h"
  let ?p = "?dir @ [?h]" and ?t = "?dir @ [?h @ ''.tmp'']"
  have path: "blobPath e s d = ?p" using assms(2,3) by (simp add: blobPath_blob_file blob_file_dir)
  have tmp: "tmp_of (blobPath e s d) = ?t" by (simp only: path tmp_of_append_one)
  have dir: "filepath_Dir (blobPath e s d) = ?dir" unfolding filepath_Dir_def path by (rule butlast_snoc)
  have base: "s_basePath s' = ?b" using PutBlob_state [OF assms(1)] by simp
  have files: "\<not> is_file (fs_get (s_disk s') q)" if q: "q \<in> set (ancestors ?dir @ [?dir])" for q
  proof -
    obtain t where t: "grows (s_disk s) t" "q \<noteq> ?t \<Longrightarrow> fs_get (s_disk s') q = fs_get t q"
      using PutBlob_frame [OF assms(1)] tmp by auto
    have "length q < length ?t" using q ancestors_length [of q ?dir] by auto
    then have "q \<noteq> ?t" by auto
    then show ?thesis
      using t q assms(4) grows_content [OF t(1)] by (auto simp: slot_free_def path_free_def is_file_content)
  qed
  have leaf: "fs_get (s_disk s') (?dir @ [x]) \<noteq> Some Dir" if x: "x = ?h \<or> x = ?h @ ''.tmp''" for x
  proof -
    have old: "fs_get (s_disk s) (?dir @ [x]) \<noteq> Some Dir" using x assms(4) by (auto simp: slot_free_def path_free_def)
    have longer: "fs_get t1 (?dir @ [x]) \<noteq> Some Dir"
      if "os_MkdirAll e (s_disk s) (filepath_Dir (blobPath e s d)) = Ok t1" for t1
      using os_MkdirAll_longer [OF that [unfolded dir], of "?dir @ [x]"] old by simp
    show ?thesis using assms(1)
    proof (cases rule: PutBlob_cases)
      case (fail er t1 t2 n ok t3)
      have t3: "fs_get t3 (?dir @ [x]) \<noteq> Some Dir"
      proof (cases "?dir @ [x] = ?t")
        case True
        then show ?thesis using io_Copy_prefix [OF fail(3) os_Create_file [OF fail(2)]] tmp by auto
      next
        case False
        then have "fs_get t3 (?dir @ [x]) = fs_get t1 (?dir @ [x])"
          using os_Create_same [OF fail(2)] io_Copy_same [OF fail(3)] tmp by (simp add: same_except_def)
        then show ?thesis using longer [OF fail(1)] by simp
      qed
      show ?thesis
        using t3 os_Remove_gone os_Remove_same fail(5)
        by (cases "?dir @ [x] = tmp_of (blobPath e s d)")
          (auto simp: remove_quietly_def same_except_def split: sum.splits)
    qed (use old longer in simp_all)
  qed
  show ?thesis using files leaf base by (simp add: slot_free_def path_free_def)
qed

lemma GetBlob_absent:
  assumes "quiet e" and "fs_inv e s" and "canonical_digest d" and "fs_blobs s d = None" and "slot_free s d"
  shows "GetBlob e d s = (Err ErrBlobNotFound, s)"
proof -
  let ?dir = "blob_dir (s_basePath s) (drop 7 d)"
  let ?p = "?dir @ [drop 7 d]"
  note wf = fs_invD(5) [OF assms(2)] and dg = fs_invD(4) [OF assms(2)]
  have path: "blobPath e s d = ?p" using dg assms(3) by (simp add: blobPath_blob_file blob_file_dir)
  have none: "fs_get (s_disk s) ?p = None"
    using assms(4,5) fs_blobs_path [OF dg assms(3)] path
    by (cases "fs_get (s_disk s) ?p"; cases "the (fs_get (s_disk s) ?p)")
      (auto simp: slot_free_def path_free_def content_Some)
  have bad: "first_bad t qs = Some er \<Longrightarrow> \<forall>q \<in> set qs. \<not> is_file (fs_get t q) \<Longrightarrow> er = ENOENT" for t qs er
    by (induction qs) (auto simp: is_file_def split: option.splits node.splits)
  have "\<forall>q \<in> set (ancestors ?p). \<not> is_file (fs_get (s_disk s) q)"
    using assms(5) by (simp add: slot_free_def path_free_def ancestors_snoc)
  then have "lookup (s_disk s) ?p = Err ENOENT"
    using none bad by (auto simp: lookup_def walk_err_def split: option.splits)
  then show ?thesis using assms(1) path by (simp add: GetBlob_def os_Open_def quiet_def Let_def)
qed

text \<open>Whatever the other peers send, one peer with the right bytes is enough.\<close>

lemma fetch_blob_honest:
  assumes "quiet e" and "canonical_digest d" and "p \<in> set ps" and "n_RequestBlob nt p d = Ok rd"
    and "sha256_digest (rdata rd) = d" and "\<not> rfail rd"
    and "fs_inv e s" and "slot_free s d"
  shows "\<exists>b s'. fetch_blob nt (fs_ops e) d ps s = (Ok (bytes_reader b), s') \<and> sha256_digest b = d \<and>
    fs_blobs s' d = Some b \<and> fs_inv e s'"
  using assms(3,7,8)
proof (induction ps arbitrary: s)
  case (Cons q ps)
  have served: "\<exists>b s'. fetch_blob nt (fs_ops e) d (q # ps) s = (Ok (bytes_reader b), s') \<and> sha256_digest b = d \<and>
      fs_blobs s' d = Some b \<and> fs_inv e s'"
    if "n_RequestBlob nt q d = Ok rd'" and "PutBlob e d rd' s = (Ok (), s1)" for rd' s1
  proof -
    have put: "op_PutBlob (fs_ops e) d rd' s = (Ok (), s1)" using that(2) by simp
    note ok = fsb.put_Ok [OF Cons.prems(2) put] and i1 = fsb.put_inv [OF Cons.prems(2) put]
    have "content (fs_get (s_disk s1) (blobPath e s1 d)) = Some (rdata rd')"
      using ok fs_blobs_path [OF fs_invD(4) [OF i1] assms(2), of s1] by simp
    then have "GetBlob e d s1 = (Ok (bytes_reader (rdata rd')), s1)"
      using GetBlob_present(1) [OF assms(1) fs_invD(5) [OF i1]] by blast
    then show ?thesis using that ok i1 by auto
  qed
  show ?case
  proof (cases "n_RequestBlob nt q d")
    case (Inl er)
    then have "p \<in> set ps" using Cons.prems(1) assms(4) by auto
    from Cons.IH [OF this Cons.prems(2,3)] Inl show ?thesis by simp
  next
    case (Inr rd')
    obtain x s1 where put: "PutBlob e d rd' s = (x, s1)" by fastforce
    show ?thesis
    proof (cases x)
      case (Inr u)
      then show ?thesis using served [OF \<open>n_RequestBlob nt q d = Inr rd'\<close>] put by simp
    next
      case (Inl er)
      have put': "op_PutBlob (fs_ops e) d rd' s = (x, s1)" using put by simp
      have "q \<noteq> p"
      proof
        assume "q = p"
        then have "rd' = rd" using Inr assms(4) by simp
        then show False
          using PutBlob_succeeds [OF assms(1) fs_invD(4,5) [OF Cons.prems(2)] Cons.prems(3) assms(5,6)] put Inl by simp
      qed
      then have "p \<in> set ps" using Cons.prems(1) by simp
      moreover have "fs_inv e s1" by (rule fsb.put_inv [OF Cons.prems(2) put'])
      moreover have "slot_free s1 d"
        using PutBlob_failed_slot [OF put [unfolded Inl] fs_invD(4) [OF Cons.prems(2)] assms(2) Cons.prems(3)] .
      ultimately have "\<exists>b s'. fetch_blob nt (fs_ops e) d ps s1 = (Ok (bytes_reader b), s') \<and> sha256_digest b = d \<and>
          fs_blobs s' d = Some b \<and> fs_inv e s'" by (rule Cons.IH)
      then show ?thesis using Inr put Inl by simp
    qed
  qed
qed simp

lemma dist_ops_sel:
  "op_GetBlob (distributed_ops cfg nt ops) = dist_GetBlob nt ops"
  "op_PutBlob (distributed_ops cfg nt ops) = dist_PutBlob cfg ops"
  "op_BlobExists (distributed_ops cfg nt ops) = dist_BlobExists nt ops"
  "op_GetBlobSize (distributed_ops cfg nt ops) d = local_do (op_GetBlobSize ops d)"
  "op_CreateUpload (distributed_ops cfg nt ops) repo = local_do (op_CreateUpload ops repo)"
  "op_WriteUploadChunk (distributed_ops cfg nt ops) i off rd = local_do (op_WriteUploadChunk ops i off rd)"
  "op_CompleteUpload (distributed_ops cfg nt ops) i d = local_do (op_CompleteUpload ops i d)"
  "op_GetUploadStatus (distributed_ops cfg nt ops) i = local_do (op_GetUploadStatus ops i)"
  by (simp_all add: distributed_ops_def)

text \<open>One honest peer is enough: when the blob is not held locally and every peer asked answers
  before the deadline, then, whatever the others claim and send, if one of those that claim to
  hold the blob delivers bytes with its digest, \<open>GetBlob\<close> returns bytes with that digest and the
  local store holds them from then on.\<close>

theorem honest_peer_suffices:
  assumes "quiet e" and "fs_inv e (d_local st)" and "canonical_digest d"
    and "fs_blobs (d_local st) d = None" and "slot_free (d_local st) d"
    and "findPeersWithBlobDirect nt d = (ps, None)" and "p \<in> set ps" and "n_RequestBlob nt p d = Ok rd"
    and "sha256_digest (rdata rd) = d" and "\<not> rfail rd"
  shows "\<exists>b st'. dist_GetBlob nt (fs_ops e) d st = (Ok (bytes_reader b), st') \<and> sha256_digest b = d \<and>
    fs_blobs (d_local st') d = Some b \<and> fs_inv e (d_local st')"
proof -
  obtain b s' where fetch: "fetch_blob nt (fs_ops e) d ps (d_local st) = (Ok (bytes_reader b), s')"
    and b: "sha256_digest b = d" "fs_blobs s' d = Some b" "fs_inv e s'"
    using fetch_blob_honest [OF assms(1,3,7-10) assms(2,5)] by blast
  have "ps \<noteq> []" using assms(7) by auto
  then have "dist_GetBlob nt (fs_ops e) d st = (Ok (bytes_reader b), st\<lparr>d_local := s'\<rparr>)"
    using GetBlob_absent [OF assms(1-5)] canonical_long [OF assms(3)] fetch assms(6)
    by (simp add: dist_GetBlob_def local_do_def getBlobFromPeers_def)
  with b show ?thesis by simp
qed

text \<open>A cluster of two peers: one lies, one is honest.\<close>

definition peer :: "string \<Rightarrow> PeerInfo" where
  "peer i = \<lparr>p_ID = i, p_Address = ''10.0.0.1'', p_Port = 6000, p_Metadata = [], p_LastSeen = 0\<rparr>"

definition pair_net :: "bytes \<Rightarrow> net" where
  "pair_net b = alone\<lparr>n_Peers := Ok [peer ''liar'', peer ''honest''],
     n_PeerHealth := (\<lambda>_. Some \<lparr>ph_Status = HealthHealthy, ph_Latency = 1, ph_LastCheck = 0, ph_Error = []\<rparr>),
     n_BlobAnswers := (\<lambda>_ _. [(peer ''liar'', True), (peer ''honest'', True)]),
     n_RequestBlob := (\<lambda>p _. if p_ID p = ''honest'' then Ok (bytes_reader b) else Ok (bytes_reader [0])),
     n_SendBlob := (\<lambda>p _ _. if p_ID p = ''honest'' then Ok () else Err (StatusError ''unavailable''))\<rparr>"

definition node :: "'s \<Rightarrow> 's dstate" where
  "node s = \<lparr>d_local = s, d_tasks = [], d_sent = []\<rparr>"

lemma node_sel [simp]: "d_local (node s) = s" "d_tasks (node s) = []" "d_sent (node s) = []"
  by (simp_all add: node_def)

lemma pair_net_find: "findPeersWithBlobDirect (pair_net b) d = ([peer ''liar'', peer ''honest''], None)"
  by (simp add: findPeersWithBlobDirect_def pair_net_def)

lemma fresh_no_blobs [simp]: "fs_blobs fresh d = None"
  by (simp add: fs_blobs_def blob_file_def fresh_get)

theorem honest_peer_suffices_witness:
  "\<exists>b st'. dist_GetBlob (pair_net [1, 2]) (fs_ops calm) (sha256_digest [1, 2]) (node fresh) =
     (Ok (bytes_reader b), st') \<and> sha256_digest b = sha256_digest [1, 2]"
proof -
  have req: "n_RequestBlob (pair_net [1, 2]) (peer ''honest'') (sha256_digest [1, 2]) = Ok (bytes_reader [1, 2])"
    by (simp add: pair_net_def peer_def)
  have mem: "peer ''honest'' \<in> set [peer ''liar'', peer ''honest'']" by simp
  show ?thesis
    using honest_peer_suffices [OF quiet_calm, of "node fresh" "sha256_digest [1, 2]", OF _ _ _ _ pair_net_find mem req]
    by auto
qed

text \<open>C25. Whatever peers do, a blob served is the blob asked for: a GET over the distributed store that
  is answered with a success and a complete body serves bytes that hash to the digest.\<close>

theorem distributed_get_served:
  assumes "fs_inv e (d_local st)" and "canonical_digest (GetParam r ''digest'')"
    and "BlobHandler_GetBlob (distributed_ops cfg nt (fs_ops e)) r new_rw st = (w, st')"
    and "status w < 300" and "\<not> w_cut w"
  shows "sha256_digest (w_body w) = GetParam r ''digest'' \<and> fs_inv e (d_local st') \<and>
    sent_header w ''Content-Length'' = Itoa (int (length (w_body w)))"
  using dist.get_handler_hash [OF assms(1,2) unsent_new assms(3-5)] by simp

definition demo_config :: "string \<Rightarrow> dconfig" where
  "demo_config strategy = \<lparr>dc_ReplicationFactor = 3, dc_Strategy = strategy, dc_ConsistencyMode = ''eventual'',
     dc_RequestTimeout = 30\<rparr>"

theorem distributed_get_served_witness:
  "\<exists>w st st'. BlobHandler_GetBlob (distributed_ops (demo_config ''eager'') (pair_net [1]) (fs_ops calm))
      (get_blob_request ''app'' (sha256_digest [1])) new_rw st = (w, st') \<and> status w = 200 \<and>
    sha256_digest (w_body w) = sha256_digest [1]"
proof -
  let ?d = "sha256_digest [1]"
  let ?ops = "distributed_ops (demo_config ''eager'') (pair_net [1]) (fs_ops calm)"
  obtain s where put: "PutBlob calm ?d (bytes_reader [1]) fresh = (Ok (), s)" using fresh_put by blast
  have put': "op_PutBlob (fs_ops calm) ?d (bytes_reader [1]) fresh = (Ok (), s)" using put by simp
  have inv: "fs_inv calm s" by (rule fsb.put_inv [OF fresh_inv put'])
  have "content (fs_get (s_disk s) (blobPath calm s ?d)) = Some [1]"
    using fsb.put_Ok [OF fresh_inv put'] fs_blobs_path [of calm ?d s] by simp
  note present = GetBlob_present [OF quiet_calm fs_invD(5) [OF inv] this]
  have long: "\<not> slice_panic ?d" by (rule canonical_long) simp
  obtain w where run: "BlobHandler_GetBlob ?ops (get_blob_request ''app'' ?d) new_rw (node s) = (w, node s)"
    and w: "status w = 200" "\<not> w_cut w"
    using present long
    by (simp add: BlobHandler_GetBlob_def Let_def dist_ops_sel dist_GetBlob_def dist_BlobExists_def local_do_def)
  have "sha256_digest (w_body w) = GetParam (get_blob_request ''app'' ?d) ''digest''"
    using distributed_get_served [OF _ _ run] inv w by simp
  with run w show ?thesis by auto
qed

end
