(* ===== verification/GrpcProperties.thy ===== *)
theory GrpcProperties
  imports Grpc DistributedProperties
begin

text \<open>
  What the transport promises over any link: a blob sent arrives whole or not at all, a blob
  received without an error is the peer's blob; and what becomes of a manifest on the way.
\<close>

subsection \<open>Chunks\<close>

lemma concat_reads [simp]: "concat (reads ns b) = b"
  by (induction ns b rule: reads.induct) simp_all

lemma reads_sizes: "p \<in> set (reads ns b) \<Longrightarrow> p \<noteq> [] \<and> length p \<le> chunkSize"
proof (induction ns b rule: reads.induct)
  case (2 ns x xs)
  have "take (read_size ns) (x # xs) \<noteq> []" using read_size_pos [of ns] by (cases "read_size ns") auto
  moreover have "length (take (read_size ns) (x # xs)) \<le> chunkSize"
    using read_size_le [of ns] by simp
  ultimately show ?case using 2 by (auto simp del: take_eq_Nil)
qed simp

lemma int64_add [simp]: "int64 (int64 x + y) = int64 (x + y)"
proof -
  have eq: "int64 x + y + 2 ^ 63 = (x + 2 ^ 63) mod 2 ^ 64 + y" by (simp add: int64_def)
  have "((x + 2 ^ 63) mod 2 ^ 64 + y) mod 2 ^ 64 = (x + y + 2 ^ 63) mod 2 ^ 64"
    using mod_add_left_eq [of "x + 2 ^ 63" "2 ^ 64" y] by (simp add: add.assoc add.commute add.left_commute)
  then have "(int64 x + y + 2 ^ 63) mod 2 ^ 64 = (x + y + 2 ^ 63) mod 2 ^ 64" unfolding eq .
  then show ?thesis by (simp only: int64_def [of "int64 x + y"] int64_def [of "x + y"])
qed

lemma length_send_loop: "length (send_loop d off ps fails) = (if fails then length ps else Suc (length ps))"
  by (induction d off ps fails rule: send_loop.induct) auto

lemma send_loop_data: "concat (map bc_Data (send_loop d off ps fails)) = concat ps"
  by (induction d off ps fails rule: send_loop.induct) auto

lemma send_loop_final: "i < length (send_loop d off ps fails) \<Longrightarrow>
    bc_IsFinal (send_loop d off ps fails ! i) \<longleftrightarrow> i = length ps"
  by (induction d off ps fails arbitrary: i rule: send_loop.induct) (auto simp: nth_Cons split: if_splits nat.splits)

lemma send_loop_digest: "c \<in> set (send_loop d off ps fails) \<Longrightarrow> bc_Digest c = d"
  by (induction d off ps fails rule: send_loop.induct) (auto split: if_splits)

lemma send_loop_offset:
  assumes "i < length (send_loop d off ps fails)" and "in_int64 off"
  shows "bc_Offset (send_loop d off ps fails ! i) = int64 (off + int (length (concat (take i ps))))"
  using assms
proof (induction d off ps fails arbitrary: i rule: send_loop.induct)
  case (2 d off p ps fails)
  then show ?case by (cases i) (simp_all add: add.assoc)
qed (auto split: if_splits)

subsection \<open>Receiving what was sent\<close>

lemma recv_prefix:
  assumes "d = [] \<or> d = d'"
  shows "recv_chunks d buf tot (take k (send_loop d' off ps fails)) (Some er) =
    (if \<not> fails \<and> length ps < k then Ok (d', buf @ concat ps, int64 (tot + int (length (concat ps))))
     else Err (Wrap ''failed to receive blob chunk'' er))"
  using assms
proof (induction d' off ps fails arbitrary: d buf tot k rule: send_loop.induct)
  case (1 d' off fails)
  then show ?case by (cases k) (auto simp: Let_def)
next
  case (2 d' off p ps fails)
  show ?case
  proof (cases k)
    case (Suc j)
    then show ?thesis using "2.IH" [of "d'" "buf @ p" "int64 (tot + int (length p))" j] "2.prems"
      by (auto simp: Let_def add.assoc)
  qed simp
qed

lemma recv_all:
  assumes "d = [] \<or> d = d'"
  shows "recv_chunks d buf tot (send_loop d' off ps False) er =
    Ok (d', buf @ concat ps, int64 (tot + int (length (concat ps))))"
  using assms
proof (induction ps arbitrary: d buf tot off)
  case (Cons p ps)
  then show ?case using Cons.IH [of "d'" "buf @ p" "int64 (tot + int (length p))"] by (auto simp: Let_def add.assoc)
qed (auto simp: Let_def)

lemma pump_all: "pump acc (send_loop d off ps False) er = bytes_reader (acc @ concat ps)"
  by (induction d off ps "False" arbitrary: acc rule: send_loop.induct) auto

lemma pump_prefix:
  "pump acc (take k (send_loop d off ps fails)) (Some er) =
     (if \<not> fails \<and> length ps < k then bytes_reader (acc @ concat ps)
      else \<lparr>rdata = acc @ concat (take k ps), rfail = True\<rparr>)"
proof (induction d off ps fails arbitrary: acc k rule: send_loop.induct)
  case (1 d off fails)
  then show ?case by (cases k) auto
next
  case (2 d off p ps fails)
  then show ?case by (cases k) auto
qed

subsection \<open>Whole or not at all\<close>

text \<open>A blob sent reaches the store of the peer as one put of exactly the data, or not at all; and
  the sender hears of success only if that put succeeded.\<close>

lemma SendBlob_put:
  assumes "SendBlob lk ops p d rd s = (r, s')"
  shows "s' = s \<and> \<not> isOk r \<or>
    \<not> rfail rd \<and> (\<exists>x. op_PutBlob ops d rd s = (x, s') \<and> (isOk r \<longrightarrow> isOk x))"
proof -
  let ?ps = "reads (lk_reads lk) (rdata rd)"
  let ?msgs = "send_loop d 0 ?ps (rfail rd)"
  let ?stop = "send_error lk ?msgs (rfail rd)"
  let ?sent = "case lk_sends lk of None \<Rightarrow> ?msgs | Some k \<Rightarrow> take k ?msgs"
  let ?fin = "if ?stop = None then None else Some broken"
  obtain cs e where del: "delivered (lk_breaks lk) ?fin ?sent = (cs, e)" by fastforce
  have prefix: "\<exists>k. cs = take k ?msgs"
    using del by (auto simp: delivered_def min_def take_all split: option.splits intro: exI [of _ "length ?msgs"])
  have clean: "e = None \<Longrightarrow> cs = ?msgs \<and> \<not> rfail rd"
    using del by (auto simp: delivered_def send_error_def Let_def split: option.splits if_splits)
  have recv: "recv_chunks [] [] 0 cs e = Ok (d, rdata rd, int64 (int (length (rdata rd)))) \<and> \<not> rfail rd \<or>
      (\<exists>e1. recv_chunks [] [] 0 cs e = Err e1)"
  proof (cases e)
    case None
    then show ?thesis using clean recv_all [of "[]" d "[]" 0 0 ?ps None] by simp
  next
    case (Some er)
    obtain k where "cs = take k ?msgs" using prefix by blast
    then show ?thesis using Some recv_prefix [of "[]" d "[]" 0 k 0 ?ps "rfail rd" er] by simp
  qed
  show ?thesis
  proof (cases "lk_dial lk = None \<and> lk_open lk = None")
    case False
    then show ?thesis using assms by (auto simp: SendBlob_def split: option.splits)
  next
    case True
    obtain resp where put: "P2P_PutBlob ops cs e s = (resp, s')"
      using assms True del by (auto simp: SendBlob_def Let_def split: prod.splits)
    have ok: "isOk r \<Longrightarrow> \<exists>pb. resp = Ok pb \<and> pb_Success pb"
      using assms True del put
      by (auto simp: SendBlob_def Let_def split: prod.splits option.splits sum.splits if_splits)
    from recv show ?thesis
    proof
      assume *: "recv_chunks [] [] 0 cs e = Ok (d, rdata rd, int64 (int (length (rdata rd)))) \<and> \<not> rfail rd"
      then have rd: "bytes_reader (rdata rd) = rd" by simp
      obtain x s1 where x: "op_PutBlob ops d rd s = (x, s1)" by fastforce
      then show ?thesis using * put ok unfolding P2P_PutBlob_def
        by (cases x) (auto simp: rd)
    next
      assume "\<exists>e1. recv_chunks [] [] 0 cs e = Err e1"
      then show ?thesis using put ok by (auto simp: P2P_PutBlob_def isOk_iff)
    qed
  qed
qed

lemma SendBlob_up:
  assumes "link_up lk" and "\<not> rfail rd" and "op_PutBlob ops d rd s = (x, s')"
  shows "\<exists>r. SendBlob lk ops p d rd s = (r, s') \<and> (isOk r \<longleftrightarrow> isOk x)"
proof -
  have rd: "bytes_reader (rdata rd) = rd" using assms(2) by simp
  show ?thesis
    using assms recv_all [of "[]" d "[]" 0 0 "reads (lk_reads lk) (rdata rd)" None]
    by (cases x) (auto simp: SendBlob_def link_up_def send_error_def delivered_def P2P_PutBlob_def Let_def rd)
qed

text \<open>What is read from a peer is a prefix of what its store serves, and all of it unless the reader
  fails.\<close>

lemma RequestBlob_get:
  assumes "RequestBlob lk ops None p d s = (Ok rd, s')"
  shows "\<exists>x. op_GetBlob ops d s = (x, s') \<and>
    (\<not> rfail rd \<longrightarrow> x = Ok rd) \<and> prefix (rdata rd) (case x of Err _ \<Rightarrow> [] | Ok b \<Rightarrow> rdata b)"
proof -
  obtain x s1 where x: "op_GetBlob ops d s = (x, s1)" by fastforce
  have up: "lk_dial lk = None" "lk_open lk = None"
    using assms by (auto simp: RequestBlob_def split: option.splits)
  show ?thesis
  proof (cases x)
    case (Inl er)
    then show ?thesis using assms x up
      by (auto simp: RequestBlob_def P2P_GetBlob_def delivered_def split: option.splits)
  next
    case (Inr b)
    let ?ps = "reads (lk_reads lk) (rdata b)"
    let ?msgs = "send_loop d 0 ?ps (rfail b)"
    have cut: "rdata rd = concat (take k ?ps) \<and> rfail rd \<or> \<not> rfail b \<and> rd = bytes_reader (rdata b)"
      if "rd = pump [] (take k ?msgs) (Some er)" for k er
      using that by (auto simp: pump_prefix split: if_splits)
    have whole: "pump [] ?msgs e = pump [] (take (length ?msgs) ?msgs) e" for e by simp
    have "s' = s1 \<and> (rd = pump [] ?msgs None \<and> \<not> rfail b \<or> (\<exists>k er. rd = pump [] (take k ?msgs) (Some er)))"
    proof (cases "lk_breaks lk = None \<and> rfail b")
      case True
      then have "s' = s1 \<and> rd = pump [] ?msgs (Some (rpc_error ReadError))"
        using assms x up Inr by (simp add: RequestBlob_def P2P_GetBlob_def delivered_def)
      with whole show ?thesis by metis
    next
      case False
      then show ?thesis using assms x up Inr
        by (auto simp: RequestBlob_def P2P_GetBlob_def delivered_def split: option.splits)
    qed
    then have "s' = s1 \<and> ((\<exists>k. rdata rd = concat (take k ?ps)) \<and> rfail rd \<or> \<not> rfail b \<and> rd = bytes_reader (rdata b))"
      using cut pump_all [of "[]" d 0 ?ps None] by (auto 4 3)
    moreover have "prefix (concat (take k ?ps)) (rdata b)" for k
    proof -
      have "concat (take k ?ps) @ concat (drop k ?ps) = rdata b" by (simp flip: concat_append)
      then show ?thesis by (metis prefixI)
    qed
    ultimately show ?thesis using x Inr by auto
  qed
qed

lemma RequestBlob_up:
  assumes "link_up lk" and "\<not> rfail rd" and "op_GetBlob ops d s = (Ok rd, s')"
  shows "RequestBlob lk ops None p d s = (Ok rd, s')"
proof -
  have rd: "bytes_reader (rdata rd) = rd" using assms(2) by simp
  show ?thesis
    using assms pump_all [of "[]" d 0 "reads (lk_reads lk) (rdata rd)" None]
    by (simp add: RequestBlob_def link_up_def P2P_GetBlob_def delivered_def rd)
qed

subsection \<open>The transport contract\<close>

text \<open>What a node relies on when it talks to a peer's store through the transport.\<close>

locale blob_transport = far: blob_store ops inv blobs
  for ops :: "'s store_ops" and inv blobs +
  fixes send :: "PeerInfo \<Rightarrow> string \<Rightarrow> reader \<Rightarrow> 's \<Rightarrow> (error + unit) \<times> 's"
    and request :: "PeerInfo \<Rightarrow> string \<Rightarrow> 's \<Rightarrow> (error + reader) \<times> 's"
  assumes send_whole: "inv s \<Longrightarrow> send p d rd s = (r, s') \<Longrightarrow> inv s' \<and>
      (blobs s' = blobs s \<and> \<not> isOk r \<or>
       \<not> rfail rd \<and> sha256_digest (rdata rd) = d \<and> blobs s' = (blobs s)(d \<mapsto> rdata rd))"
    and request_inv: "inv s \<Longrightarrow> request p d s = (rq, s') \<Longrightarrow> inv s' \<and> blobs s \<subseteq>\<^sub>m blobs s'"
    and request_Ok: "inv s \<Longrightarrow> canonical_digest d \<Longrightarrow> request p d s = (Ok rd, s') \<Longrightarrow> \<not> rfail rd \<Longrightarrow>
      blobs s' d = Some (rdata rd)"
begin

lemma sent_digest:
  assumes "inv s" and "send p d rd s = (Ok u, s')"
  shows "canonical_digest d \<and> blobs s' d = Some (rdata rd)"
  using send_whole [OF assms] canonical_sha256_digest by auto

lemma request_after_send:
  assumes "inv s" and "send p d rd s = (Ok u, s1)" and "request p d s1 = (Ok rd', s2)" and "\<not> rfail rd'"
  shows "rdata rd' = rdata rd"
proof -
  have i1: "inv s1" using send_whole [OF assms(1,2)] by simp
  note sent = sent_digest [OF assms(1,2)]
  have "blobs s2 d = Some (rdata rd')" using request_Ok [OF i1 _ assms(3,4)] sent by simp
  moreover have "blobs s2 d = Some (rdata rd)"
    by (rule map_leD [OF conjunct2 [OF request_inv [OF i1 assms(3)]] conjunct2 [OF sent]])
  ultimately show ?thesis by simp
qed

lemma request_hash:
  assumes "inv s" and "canonical_digest d" and "request p d s = (Ok rd, s')" and "\<not> rfail rd"
  shows "sha256_digest (rdata rd) = d"
  using far.blobs_digest request_Ok [OF assms] request_inv [OF assms(1,3)] by blast

end

lemma RequestBlob_state:
  assumes "RequestBlob lk ops None p d s = (r, s')"
  shows "s' = s \<or> (\<exists>x. op_GetBlob ops d s = (x, s'))"
  using assms
  by (auto simp: RequestBlob_def P2P_GetBlob_def split: option.splits prod.splits sum.splits)

locale linked_store = near: blob_store ops inv blobs
  for ops :: "'s store_ops" and inv blobs +
  fixes lk lk' :: link

sublocale linked_store \<subseteq> blob_transport ops inv blobs "SendBlob lk ops" "RequestBlob lk' ops None"
proof
  fix s s' p d rd and r :: "error + unit" and rq
  show "inv s' \<and> (blobs s' = blobs s \<and> \<not> isOk r \<or>
      \<not> rfail rd \<and> sha256_digest (rdata rd) = d \<and> blobs s' = (blobs s)(d \<mapsto> rdata rd))"
    if i: "inv s" and run: "SendBlob lk ops p d rd s = (r, s')"
    using SendBlob_put [OF run]
  proof (elim disjE conjE exE)
    fix x assume put: "op_PutBlob ops d rd s = (x, s')" and ok: "isOk r \<longrightarrow> isOk x" and "\<not> rfail rd"
    have "inv s'" by (rule near.put_inv [OF i put])
    then show ?thesis
    proof (cases x)
      case (Inl er)
      then show ?thesis using near.put_Err [OF i put [unfolded Inl]] ok \<open>inv s'\<close> by simp
    next
      case (Inr u)
      then show ?thesis using near.put_Ok [OF i put [unfolded Inr]] \<open>\<not> rfail rd\<close> \<open>inv s'\<close> by simp
    qed
  qed (use i in simp)
  show "inv s' \<and> blobs s \<subseteq>\<^sub>m blobs s'" if i: "inv s" and run: "RequestBlob lk' ops None p d s = (rq, s')"
    using RequestBlob_state [OF run]
  proof (elim disjE exE)
    fix x assume "op_GetBlob ops d s = (x, s')"
    then show ?thesis by (rule near.get_inv [OF i])
  qed (use i in simp)
  show "blobs s' d = Some (rdata rd)"
    if "inv s" "canonical_digest d" "RequestBlob lk' ops None p d s = (Ok rd, s')" "\<not> rfail rd"
    using RequestBlob_get [OF that(3)] near.get_Ok [OF that(1,2) _ that(4)] that(4) by blast
qed

interpretation wire: linked_store "fs_ops e" "fs_inv e" fs_blobs lk lk' for e lk lk'
  by (intro linked_store.intro fsb.blob_store_axioms)

subsection \<open>Blobs between two nodes\<close>

text \<open>C11. Whatever the connection does, a blob sent to a peer arrives whole or not at all: after
  \<open>SendBlob\<close> the peer's store holds what it held, or in addition exactly the bytes of the reader
  under the digest they hash to; a reported success means the latter.\<close>

theorem send_blob_whole:
  assumes "fs_inv e s" and "SendBlob lk (fs_ops e) p d rd s = (r, s')"
  shows "fs_inv e s' \<and> (fs_blobs s' = fs_blobs s \<and> \<not> isOk r \<or>
    \<not> rfail rd \<and> sha256_digest (rdata rd) = d \<and> fs_blobs s' = (fs_blobs s)(d \<mapsto> rdata rd))"
  by (rule wire.send_whole [OF assms])

lemma link_up_good [simp]: "link_up good_link"
  by (simp add: link_up_def good_link_def)

lemma sent_fresh:
  "\<exists>s'. SendBlob good_link (fs_ops calm) p (sha256_digest b) (bytes_reader b) fresh = (Ok (), s')"
proof -
  obtain s' where "op_PutBlob (fs_ops calm) (sha256_digest b) (bytes_reader b) fresh = (Ok (), s')"
    using fresh_put by auto
  from SendBlob_up [OF link_up_good _ this, of p] show ?thesis by (auto simp: isOk_iff)
qed

theorem send_blob_whole_witness:
  "\<exists>s'. SendBlob good_link (fs_ops calm) (peer ''b'') (sha256_digest [1, 2]) (bytes_reader [1, 2]) fresh = (Ok (), s') \<and>
     fs_blobs s' (sha256_digest [1, 2]) = Some [1, 2]"
proof -
  obtain s' where run: "SendBlob good_link (fs_ops calm) (peer ''b'') (sha256_digest [1, 2]) (bytes_reader [1, 2]) fresh = (Ok (), s')"
    using sent_fresh by blast
  show ?thesis using send_blob_whole [OF fresh_inv run] run by auto
qed

text \<open>On the same blob, a link that breaks after the first of its chunks: nothing is stored.\<close>

lemma sent_cut:
  "SendBlob (good_link\<lparr>lk_breaks := Some 1, lk_reads := [1]\<rparr>) (fs_ops calm) p (sha256_digest [1, 2])
     (bytes_reader [1, 2]) fresh =
   (Err (Wrap ''failed to close blob stream'' (rpc_error (Wrap ''failed to receive blob chunk'' broken))), fresh)"
  by (simp add: SendBlob_def good_link_def send_error_def delivered_def P2P_PutBlob_def Let_def
      read_size_def chunkSize_def)

text \<open>What is read from a peer, over any connection, is the peer's blob or fails: when the reader
  of \<open>RequestBlob\<close> ends without an error, what it delivered is the blob that the peer holds under
  the digest, and it hashes to it.\<close>

theorem request_blob_hash:
  assumes "fs_inv e s" and "canonical_digest d" and "RequestBlob lk (fs_ops e) None p d s = (Ok rd, s')"
    and "\<not> rfail rd"
  shows "sha256_digest (rdata rd) = d \<and> fs_blobs s' d = Some (rdata rd)"
  using wire.request_hash [OF assms] wire.request_Ok [OF assms] by simp

text \<open>C12. A blob sent to a peer can be fetched from it: over connections that hold, to a peer with a
  working disk, \<open>SendBlob\<close> succeeds for every blob under its digest and \<open>RequestBlob\<close> then delivers the
  same bytes, however the readers on the way cut them.\<close>

theorem transfer_roundtrip:
  assumes "quiet e" and "fs_inv e s" and "slot_free s (sha256_digest b)" and "link_up lk" and "link_up lk'"
  shows "\<exists>s'. SendBlob lk (fs_ops e) p (sha256_digest b) (bytes_reader b) s = (Ok (), s') \<and>
    RequestBlob lk' (fs_ops e) None p' (sha256_digest b) s' = (Ok (bytes_reader b), s')"
proof -
  let ?d = "sha256_digest b"
  obtain s' where put: "PutBlob e ?d (bytes_reader b) s = (Ok (), s')"
    using PutBlob_succeeds [OF assms(1) fs_invD(4,5) [OF assms(2)] assms(3)] by fastforce
  then have put': "op_PutBlob (fs_ops e) ?d (bytes_reader b) s = (Ok (), s')" by simp
  have "content (fs_get (s_disk s') (blobPath e s' ?d)) = Some b"
    using fsb.put_Ok [OF assms(2) put'] fs_blobs_path [OF fs_invD(4) [OF assms(2)], of ?d s'] by simp
  then have "op_GetBlob (fs_ops e) ?d s' = (Ok (bytes_reader b), s')"
    using GetBlob_present(1) [OF assms(1) fs_invD(5) [OF fsb.put_inv [OF assms(2) put']]] by simp
  from RequestBlob_up [OF assms(5) _ this, of p']
  have "RequestBlob lk' (fs_ops e) None p' ?d s' = (Ok (bytes_reader b), s')" by simp
  moreover have "SendBlob lk (fs_ops e) p ?d (bytes_reader b) s = (Ok (), s')"
    using SendBlob_up [OF assms(4) _ put', of p] by (auto simp: isOk_iff)
  ultimately show ?thesis by blast
qed

theorem transfer_roundtrip_witness:
  "\<exists>s'. SendBlob good_link (fs_ops calm) (peer ''b'') (sha256_digest [1, 2]) (bytes_reader [1, 2]) fresh = (Ok (), s') \<and>
    RequestBlob (good_link\<lparr>lk_reads := [1]\<rparr>) (fs_ops calm) None (peer ''b'') (sha256_digest [1, 2]) s' =
      (Ok (bytes_reader [1, 2]), s')"
  by (rule transfer_roundtrip [OF quiet_calm fresh_inv slot_free_fresh])
    (simp_all add: link_up_def good_link_def)

theorem request_blob_hash_witness:
  "\<exists>s' rd. RequestBlob (good_link\<lparr>lk_reads := [1]\<rparr>) (fs_ops calm) None (peer ''b'') (sha256_digest [1, 2]) s' =
      (Ok rd, s') \<and> sha256_digest (rdata rd) = sha256_digest [1, 2]"
proof -
  obtain s' where put: "PutBlob calm (sha256_digest [1, 2]) (bytes_reader [1, 2]) fresh = (Ok (), s')"
    using fresh_put by blast
  then have put': "op_PutBlob (fs_ops calm) (sha256_digest [1, 2]) (bytes_reader [1, 2]) fresh = (Ok (), s')" by simp
  have inv: "fs_inv calm s'" by (rule fsb.put_inv [OF fresh_inv put'])
  have "content (fs_get (s_disk s') (blobPath calm s' (sha256_digest [1, 2]))) = Some [1, 2]"
    using fsb.put_Ok [OF fresh_inv put'] fs_blobs_path [of calm "sha256_digest [1, 2]" s'] by simp
  then have get: "op_GetBlob (fs_ops calm) (sha256_digest [1, 2]) s' = (Ok (bytes_reader [1, 2]), s')"
    using GetBlob_present(1) [OF quiet_calm fs_invD(5) [OF inv]] by simp
  have run: "RequestBlob (good_link\<lparr>lk_reads := [1]\<rparr>) (fs_ops calm) None (peer ''b'') (sha256_digest [1, 2]) s' =
      (Ok (bytes_reader [1, 2]), s')"
    by (rule RequestBlob_up [OF _ _ get]) (simp_all add: link_up_def good_link_def)
  have "sha256_digest (rdata (bytes_reader [1, 2])) = sha256_digest [1, 2]"
    using request_blob_hash [OF inv _ run] by simp
  with run show ?thesis by blast
qed

end
