(* ===== verification/GrpcManifests.thy ===== *)
theory GrpcManifests
  imports GrpcProperties
begin

text \<open>
  Manifests between two nodes: what the encoding keeps, the round trip over a connection that
  holds, and what a replica lacks, the digest, which is not part of the encoding.
\<close>

subsection \<open>The wire\<close>

lemma Unmarshal_preset:
  assumes "Manifest_ok m" and "ascii_manifest m"
  shows "UnmarshalManifest (MarshalManifest m) (zero_Manifest\<lparr>m_MediaType := x\<rparr>) = Some (stored_Manifest m)"
proof -
  have depth: "json_depth (manifest_json m) \<le> max_depth"
    using depth_manifest [of m] by (simp add: max_depth_def)
  have "dec_struct manifest_field (zero_Manifest\<lparr>m_MediaType := x\<rparr>) (manifest_json m) =
      dec_struct manifest_field zero_Manifest (manifest_json m)"
    by (simp add: manifest_json_def manifest_field_def)
  then show ?thesis
    using assms depth
    by (simp add: UnmarshalManifest_def MarshalManifest_def ascii_manifest_def Unmarshal_Marshal dec_manifest_json)
qed

lemma Unmarshal_Marshal_Manifest:
  assumes "Manifest_ok m" and "ascii_manifest m"
  shows "UnmarshalManifest (MarshalManifest m) zero_Manifest = Some (stored_Manifest m)"
  using Unmarshal_preset [OF assms, of "[]"] by (simp add: zero_Manifest_def)

text \<open>Whatever the link does, what a peer stores is a manifest without its digest, or nothing.\<close>

lemma SendManifest_put:
  assumes "SendManifest lk ops p repo reference m s = (r, s')"
  shows "s' = s \<and> \<not> isOk r \<or>
    (\<exists>m' x. m_Digest m' = [] \<and> op_PutManifest ops repo reference m' s = (x, s') \<and> (isOk r \<longrightarrow> isOk x))"
proof -
  let ?q = "\<lparr>pq_Repository = repo, pq_Reference = reference, pq_ManifestData = MarshalManifest m,
     pq_MediaType = m_MediaType m\<rparr>"
  let ?u = "UnmarshalManifest (MarshalManifest m) (zero_Manifest\<lparr>m_MediaType := m_MediaType m\<rparr>)"
  have far: "s' = s \<and> \<not> isOk r \<or> (\<exists>resp. P2P_PutManifest ops ?q s = (resp, s') \<and>
      (isOk r \<longrightarrow> (\<exists>pm. resp = Ok pm \<and> pm_Success pm)))"
    using assms
    by (auto simp: SendManifest_def unary_def split: option.splits prod.splits sum.splits if_splits)
  show ?thesis
  proof (cases ?u)
    case None
    then show ?thesis using far by (auto simp: P2P_PutManifest_def)
  next
    case (Some m')
    then have d: "m_Digest m' = []"
      using UnmarshalManifest_Digest [OF Some] by (simp add: zero_Manifest_def)
    obtain x s1 where x: "op_PutManifest ops repo reference m' s = (x, s1)" by fastforce
    from far show ?thesis
    proof (elim disjE exE conjE)
      fix resp
      assume run: "P2P_PutManifest ops ?q s = (resp, s')" and ok: "isOk r \<longrightarrow> (\<exists>pm. resp = Ok pm \<and> pm_Success pm)"
      have "s1 = s'" and "isOk r \<longrightarrow> isOk x"
        using run ok x Some by (auto simp: P2P_PutManifest_def isOk_iff split: sum.splits)
      then show ?thesis using x d by blast
    qed simp
  qed
qed

lemma SendManifest_up:
  assumes "link_up lk" and "Manifest_ok m" and "ascii_manifest m"
    and "op_PutManifest ops repo reference (stored_Manifest m) s = (x, s')"
  shows "\<exists>r. SendManifest lk ops p repo reference m s = (r, s') \<and> (isOk r \<longleftrightarrow> isOk x)"
  using assms Unmarshal_preset [OF assms(2,3)]
  by (cases x) (auto simp: SendManifest_def link_up_def unary_def P2P_PutManifest_def)

lemma RequestManifest_up:
  assumes "link_up lk" and "Manifest_ok m" and "ascii_manifest m"
    and "op_GetManifest ops repo reference s = (Ok m, s')"
  shows "RequestManifest lk ops p repo reference s =
    (Ok ((stored_Manifest m)\<lparr>m_Digest := m_Digest m, m_Size := m_Size m\<rparr>), s')"
  using assms Unmarshal_Marshal_Manifest [OF assms(2,3)]
  by (simp add: RequestManifest_def link_up_def unary_def P2P_GetManifest_def)

subsection \<open>What is kept\<close>

lemma nonempty_idem [simp]: "nonempty (nonempty xs) = nonempty xs"
  by (simp add: nonempty_def)

lemma Marshal_stored [simp]: "MarshalManifest (stored_Manifest m) = MarshalManifest m"
  by (simp add: MarshalManifest_def)

lemma stored_Platform_idem [simp]: "stored_Platform (stored_Platform q) = stored_Platform q"
  by (simp add: stored_Platform_def)

lemma stored_Descriptor_idem [simp]: "stored_Descriptor (stored_Descriptor d) = stored_Descriptor d"
  by (simp add: stored_Descriptor_def option.map_comp comp_def)

lemma stored_Manifest_idem [simp]: "stored_Manifest (stored_Manifest m) = stored_Manifest m"
  by (simp add: stored_Manifest_def option.map_comp comp_def flip: nonempty_map)

lemma with_ref_json [simp]:
  "manifest_json (with_ref repo reference m) = manifest_json m"
  "m_Digest (with_ref repo reference m) = m_Digest m" "m_Size (with_ref repo reference m) = m_Size m"
  "stored_Manifest (with_ref repo reference m) = stored_Manifest m"
  by (simp_all add: with_ref_def manifest_json_def stored_Manifest_def Let_def)

lemma Descriptor_ok_stored: "Descriptor_ok d \<Longrightarrow> Descriptor_ok (stored_Descriptor d)"
  by (auto simp: Descriptor_ok_def stored_Descriptor_def omap_ok_def nonempty_def)

lemma elements_stored:
  "set (case nonempty (map_option (map f) l) of None \<Rightarrow> [] | Some xs \<Rightarrow> xs) =
     f ` set (case l of None \<Rightarrow> [] | Some xs \<Rightarrow> xs)"
  by (cases l) (simp_all add: nonempty_def)

lemma Manifest_ok_stored:
  assumes "Manifest_ok m"
  shows "Manifest_ok (stored_Manifest m)"
proof -
  have layers: "m_Layers (stored_Manifest m) = nonempty (map_option (map stored_Descriptor) (m_Layers m))"
    "m_Manifests (stored_Manifest m) = nonempty (map_option (map stored_Descriptor) (m_Manifests m))"
    "m_SchemaVersion (stored_Manifest m) = m_SchemaVersion m"
    by (simp_all add: stored_Manifest_def)
  have annotations: "omap_ok (nonempty a) = omap_ok a" for a
    by (auto simp: omap_ok_def nonempty_def map_ok_def)
  show ?thesis
    using assms unfolding Manifest_ok_def layers elements_stored ball_simps
    by (cases "m_Subject m") (simp_all add: Descriptor_ok_stored annotations)
qed

lemma Manifest_ok_with_ref [simp]: "Manifest_ok (with_ref repo reference m) = Manifest_ok m"
  by (simp add: with_ref_def Manifest_ok_def Let_def)

lemma Manifest_ok_Size [simp]: "Manifest_ok (m\<lparr>m_Size := n\<rparr>) = Manifest_ok m"
  by (simp add: Manifest_ok_def)

lemma manifest_json_Size [simp]: "manifest_json (m\<lparr>m_Size := n\<rparr>) = manifest_json m"
  by (simp add: manifest_json_def)

lemma stored_Manifest_Size [simp]: "stored_Manifest (m\<lparr>m_Size := n\<rparr>) = stored_Manifest m"
  by (simp add: stored_Manifest_def)

subsection \<open>Manifests between two nodes\<close>



lemma canonical_no_dot: "canonical_digest d \<Longrightarrow> CHR ''.'' \<notin> set d"
  using canonical_hex_chars by (auto elim!: canonical_digestE)

lemma GetManifest_content:
  assumes "GetManifest e repo reference s = (Ok m, s')"
  shows "content (fs_get (s_disk s) (manifestPath s repo reference)) \<noteq> None"
  using assms lookup_OkD
  by (fastforce simp: GetManifest_def os_ReadFile_def Let_def split: sum.splits option.splits if_splits node.splits)

text \<open>A manifest replicated to a peer under a tag cannot be pulled there by its digest: however
  the push went, a digest under which the peer had no manifest still has none, although the
  node that was given the manifest stored it under both.\<close>

theorem replica_lacks_digest:
  assumes "fs_safe e s" and "repo_ok repo" and "safe_comp tag" and "\<not> is_digest_ref tag"
    and "canonical_digest d" and "content (fs_get (s_disk s) (manifest_file (s_basePath s) repo d)) = None"
    and "SendManifest lk (fs_ops e) p repo tag m s = (r, s')"
  shows "\<not> isOk (fst (GetManifest e' repo d s'))"
proof
  assume "isOk (fst (GetManifest e' repo d s'))"
  then obtain m1 s1 where get: "GetManifest e' repo d s' = (Ok m1, s1)"
    by (cases "GetManifest e' repo d s'") (auto simp: isOk_iff)
  have path: "manifestPath s1 repo d = manifest_file (s_basePath s1) repo d" for s1
    using manifestPath_safe [OF assms(2) canonical_safe [OF assms(5)]] .
  have d: "d \<noteq> tag" "d \<noteq> tag @ ''.tmp''"
    using assms(4) canonical_is_digest_ref [OF assms(5)] canonical_no_dot [OF assms(5)] by auto
  from SendManifest_put [OF assms(7)] have "content (fs_get (s_disk s') (manifest_file (s_basePath s') repo d)) = None"
  proof (elim disjE exE conjE)
    fix m' x assume m': "m_Digest m' = []" and put: "op_PutManifest (fs_ops e) repo tag m' s = (x, s')"
    have refs: "put_refs tag m' = {tag}" using m' by (simp add: put_refs_def)
    have "content (fs_get (s_disk s') (manifest_file (s_basePath s) repo d)) =
        content (fs_get (s_disk s) (manifest_file (s_basePath s) repo d))"
      by (rule PutManifest_frame [of e repo tag m' s x s'])
        (use put refs d assms(2,3) in \<open>simp_all add: put_args_ok_def\<close>)
    moreover have "s_basePath s' = s_basePath s"
      using PutManifest_state [of e repo tag m' s x s'] put by simp
    ultimately show ?thesis using assms(6) by simp
  qed (use assms(6) in simp)
  then show False using GetManifest_content [OF get] path by simp
qed

theorem replica_lacks_digest_witness:
  "\<exists>s' m. PutManifest calm ''lib/app'' ''v1'' m fresh = (Ok (), s') \<and>
     isOk (fst (GetManifest calm ''lib/app'' (sha256_digest [9]) s')) \<and>
     \<not> isOk (fst (GetManifest calm ''lib/app'' (sha256_digest [9])
        (snd (SendManifest good_link (fs_ops calm) (peer ''b'') ''lib/app'' ''v1'' m fresh))))"
proof -
  let ?m = "demo_manifest (sha256_digest [9])" and ?d = "sha256_digest [9]"
  obtain s' where put: "PutManifest calm ''lib/app'' ''v1'' ?m fresh = (Ok (), s')"
    using fresh_put_manifest by blast
  have "GetManifest calm ''lib/app'' ?d s' = (Ok (read_back ''lib/app'' ?d ?m), s')"
  proof (rule GetManifest_put [OF _ put demo_put_args])
    have "?d \<noteq> []" using canonical_long [OF canonical_sha256_digest [of "[9]"]] by (auto simp: slice_panic_def)
    then show "?d \<in> put_refs ''v1'' ?m" by (simp add: put_refs_def)
    show "is_digest_ref x" if "x \<in> put_refs ''v1'' ?m" "x \<noteq> ''v1''" for x
      using that by (simp add: put_refs_def canonical_is_digest_ref split: if_splits)
  qed (use fresh_inv quiet_calm in \<open>simp_all add: fs_inv_def quiet_def\<close>)
  then have "isOk (fst (GetManifest calm ''lib/app'' ?d s'))" by simp
  moreover have "\<not> isOk (fst (GetManifest calm ''lib/app'' ?d
      (snd (SendManifest good_link (fs_ops calm) (peer ''b'') ''lib/app'' ''v1'' ?m fresh))))"
    using fresh_inv
    by (intro replica_lacks_digest [OF _ _ _ _ _ _ prod.collapse [symmetric]])
      (auto simp: fs_inv_def manifest_file_def fresh_get)
  ultimately show ?thesis using put by blast
qed

end
