(* ===== verification/Replication.thy ===== *)
theory Replication
  imports DistributedProperties
begin

text \<open>
  The limits of the distributed store: lookups that lose what was already known, blobs that only
  a peer holds, manifests taken on trust; and its replication: how many peers, which ones, what
  reaches them, and what is never sent.
\<close>

subsection \<open>Lookups\<close>

lemma collect_results_short:
  "length results < n \<Longrightarrow> snd (collect_results n results acc) = Some deadline"
  by (induction n results acc rule: collect_results.induct) auto

lemma collect_results_all:
  "collect_results (length results) results acc = (acc @ map fst (filter snd results), None)"
  by (induction results arbitrary: acc) auto

text \<open>C40. A lookup that runs into its deadline finds nothing: if fewer answers than peers have come in
  time, the blob is reported unknown even when a peer that holds it was among those that
  answered; when all have answered, the peers found are those that said yes, in order of arrival.\<close>

theorem late_peer_hides_blob:
  assumes "n_Peers nt = Ok peers" and "op_GetBlob ops d (d_local st) = (Err ErrBlobNotFound, d_local st)"
    and "\<not> slice_panic d"
  shows "(length (n_BlobAnswers nt peers d) < length peers \<longrightarrow>
      dist_GetBlob nt ops d st = (Err ErrBlobNotFound, st)) \<and>
    (length (n_BlobAnswers nt peers d) = length peers \<longrightarrow>
      findPeersWithBlobDirect nt d = (map fst (filter snd (n_BlobAnswers nt peers d)), None))"
proof (intro conjI impI)
  assume few: "length (n_BlobAnswers nt peers d) < length peers"
  obtain ps er where c: "collect_results (length peers) (n_BlobAnswers nt peers d) [] = (ps, er)" by fastforce
  have "er = Some deadline" using collect_results_short [OF few, of "[]"] c by simp
  moreover have "peers \<noteq> []" using few by auto
  ultimately have "findPeersWithBlobDirect nt d = (ps, Some deadline)"
    using c assms(1) by (simp add: findPeersWithBlobDirect_def)
  then show "dist_GetBlob nt ops d st = (Err ErrBlobNotFound, st)"
    using assms(2,3) by (simp add: dist_GetBlob_def local_do_def getBlobFromPeers_def)
next
  assume "length (n_BlobAnswers nt peers d) = length peers"
  then show "findPeersWithBlobDirect nt d = (map fst (filter snd (n_BlobAnswers nt peers d)), None)"
    using assms(1) collect_results_all [of "n_BlobAnswers nt peers d" "[]"]
    by (auto simp: findPeersWithBlobDirect_def)
qed

definition slow_net :: "bytes \<Rightarrow> net" where
  "slow_net b = (pair_net b)\<lparr>n_BlobAnswers := (\<lambda>_ _. [(peer ''honest'', True)])\<rparr>"

theorem late_peer_hides_blob_witness:
  "dist_GetBlob (slow_net [1]) (fs_ops calm) (sha256_digest [1]) (node fresh) = (Err ErrBlobNotFound, node fresh)"
proof -
  have peers: "n_Peers (slow_net [1]) = Ok [peer ''liar'', peer ''honest'']" by (simp add: slow_net_def pair_net_def)
  have "n_BlobAnswers (slow_net [1]) ps d = [(peer ''honest'', True)]" for ps d by (simp add: slow_net_def)
  moreover have "op_GetBlob (fs_ops calm) (sha256_digest [1]) (d_local (node fresh)) = (Err ErrBlobNotFound, d_local (node fresh))"
    using GetBlob_absent [OF quiet_calm fresh_inv canonical_sha256_digest fresh_no_blobs slot_free_fresh] by simp
  ultimately show ?thesis
    using late_peer_hides_blob [OF peers, of "fs_ops calm" "sha256_digest [1]" "node fresh"]
      canonical_long [OF canonical_sha256_digest] by simp
qed

text \<open>HEAD of a blob that only a peer holds is answered 500: the existence check asks the peers,
  the size only the local store.\<close>

theorem head_remote_blob:
  assumes "quiet e" and "fs_inv e (d_local st)" and "canonical_digest (GetParam r ''digest'')"
    and "fs_blobs (d_local st) (GetParam r ''digest'') = None" and "slot_free (d_local st) (GetParam r ''digest'')"
    and "findPeersWithBlobDirect nt (GetParam r ''digest'') = (p # ps, None)"
    and "BlobHandler_HeadBlob (distributed_ops cfg nt (fs_ops e)) r new_rw st = (w, st')"
  shows "status w = 500 \<and> st' = st"
proof -
  let ?d = "GetParam r ''digest''"
  have "lookup (s_disk (d_local st)) (blobPath e (d_local st) ?d) = Err ENOENT"
    using GetBlob_absent [OF assms(1-5)] assms(1)
    by (auto simp: GetBlob_def os_Open_def quiet_def Let_def split: sum.splits node.splits if_splits)
  then have stat: "os_Stat e (s_disk (d_local st)) (blobPath e (d_local st) ?d) = Err ENOENT"
    using assms(1) by (simp add: os_Stat_def quiet_def)
  then have "BlobExists e ?d (d_local st) = (Ok False, d_local st)"
    "\<exists>er. GetBlobSize e ?d (d_local st) = (Err er, d_local st)"
    by (simp_all add: BlobExists_def stat_exists_def GetBlobSize_def Let_def)
  then show ?thesis
    using assms(6,7)
    by (auto simp: BlobHandler_HeadBlob_def Let_def dist_ops_sel dist_BlobExists_def local_do_def
        checkBlobExistsOnPeers_def)
qed

theorem head_remote_blob_witness:
  "\<exists>w. BlobHandler_HeadBlob (distributed_ops (demo_config ''lazy'') (pair_net [1]) (fs_ops calm))
      (get_blob_request ''app'' (sha256_digest [1])) new_rw (node fresh) = (w, node fresh) \<and> status w = 500"
proof -
  obtain w st' where run: "BlobHandler_HeadBlob (distributed_ops (demo_config ''lazy'') (pair_net [1]) (fs_ops calm))
      (get_blob_request ''app'' (sha256_digest [1])) new_rw (node fresh) = (w, st')" by fastforce
  have "status w = 500 \<and> st' = node fresh"
    by (rule head_remote_blob [OF quiet_calm _ _ _ _ _ run]) (simp_all add: pair_net_find)
  with run show ?thesis by blast
qed

text \<open>Manifests from peers are taken on trust: when the local store does not know the reference,
  what the first peer that delivers one sends is returned, whatever it is, also under a digest
  reference it does not hash to.\<close>

theorem peer_manifest_unchecked:
  assumes "op_GetManifest ops repo reference (d_local st) = (Err ErrManifestNotFound, d_local st)"
    and "findPeersWithManifest nt repo reference = (p # ps, None)" and "n_RequestManifest nt p repo reference = Ok m"
  shows "fst (dist_GetManifest nt ops repo reference st) = Ok m"
  using assms by (simp add: dist_GetManifest_def local_do_def getManifestFromPeers_def split: prod.splits)

definition forged_net :: "Manifest \<Rightarrow> net" where
  "forged_net m = alone\<lparr>n_Peers := Ok [peer ''liar''], n_ManifestAnswers := (\<lambda>_ _ _. [(peer ''liar'', True)]),
     n_RequestManifest := (\<lambda>_ _ _. Ok m)\<rparr>"

theorem peer_manifest_unchecked_witness:
  "fst (dist_GetManifest (forged_net (demo_manifest [])) (fs_ops calm) ''app'' (sha256_digest [1]) (node fresh)) =
     Ok (demo_manifest [])"
proof (rule peer_manifest_unchecked [where p = "peer ''liar''" and ps = "[]"])
  have path: "manifestPath fresh ''app'' (sha256_digest [1]) = [''data'', ''manifests'', ''app'', sha256_digest [1]]"
    using manifestPath_safe [OF _ canonical_safe [OF canonical_sha256_digest], of "''app''" fresh "[1]"]
    by (simp add: repo_ok_iff manifest_file_def clean_repo_def ReplaceChar_def)
  have "GetManifest calm ''app'' (sha256_digest [1]) fresh = (Err ErrManifestNotFound, fresh)"
    by (simp add: GetManifest_def path os_ReadFile_def lookup_def walk_err_def ancestors_def fresh_get)
  then show "op_GetManifest (fs_ops calm) ''app'' (sha256_digest [1]) (d_local (node fresh)) =
      (Err ErrManifestNotFound, d_local (node fresh))" by simp
qed (simp_all add: forged_net_def findPeersWithManifest_def)

subsection \<open>Replication\<close>

lemma map_nth_take: "n \<le> length xs \<Longrightarrow> map ((!) xs) [0..<n] = take n xs"
  by (simp add: list_eq_iff_nth_eq)

lemma targets_take:
  "selectReplicationTargets cfg qs = take (nat (max 1 (dc_ReplicationFactor cfg))) qs"
proof -
  let ?f = "if dc_ReplicationFactor cfg \<le> 0 then 1 else dc_ReplicationFactor cfg"
  let ?k = "nat (if int (length qs) < ?f then int (length qs) else ?f)"
  have "nat (if int l < f then int l else f) \<le> l" for l f by (cases "int l < f") auto
  then have "?k \<le> length qs" .
  then have "selectReplicationTargets cfg qs = take ?k qs"
    unfolding selectReplicationTargets_def Let_def by (rule map_nth_take)
  also have "\<dots> = take (nat (max 1 (dc_ReplicationFactor cfg))) qs"
    by (cases "int (length qs) < ?f") (auto simp: max_def)
  finally show ?thesis .
qed

text \<open>A blob is replicated to as many healthy peers as the replication factor says (one when the
  factor is not positive), or to all of them when there are fewer: the targets are the first ones
  of the healthy peers.\<close>

theorem replication_targets:
  "selectReplicationTargets cfg (filterHealthyPeers nt ps) =
     take (nat (max 1 (dc_ReplicationFactor cfg))) (filterHealthyPeers nt ps) \<and>
   length (selectReplicationTargets cfg ps) = min (nat (max 1 (dc_ReplicationFactor cfg))) (length ps) \<and>
   set (selectReplicationTargets cfg (filterHealthyPeers nt ps)) \<subseteq>
     {p \<in> set ps. map_option ph_Status (n_PeerHealth nt (p_ID p)) = Some HealthHealthy}"
proof -
  have "set (filterHealthyPeers nt ps) \<subseteq>
      {p \<in> set ps. map_option ph_Status (n_PeerHealth nt (p_ID p)) = Some HealthHealthy}"
    by (auto simp: filterHealthyPeers_def split: option.splits)
  then have "set (selectReplicationTargets cfg (filterHealthyPeers nt ps)) \<subseteq>
      {p \<in> set ps. map_option ph_Status (n_PeerHealth nt (p_ID p)) = Some HealthHealthy}"
    unfolding targets_take by (rule subset_trans [OF set_take_subset])
  moreover have "length (selectReplicationTargets cfg ps) = min (nat (max 1 (dc_ReplicationFactor cfg))) (length ps)"
    by (simp only: targets_take length_take min.commute)
  ultimately show ?thesis using targets_take by blast
qed

text \<open>Eager replication delivers the blob: after a put with the eager strategy, running the
  replication it spawned sends the stored bytes, under their digest, to exactly those targets
  that acknowledge; and the store of a node that receives them holds the blob once it has put
  what it received.\<close>

theorem eager_replication_delivers:
  assumes "quiet e" and "fs_inv e (d_local st)" and "dc_Strategy cfg = ''eager''" and "d_tasks st = []"
    and "dist_PutBlob cfg (fs_ops e) d rd st = (Ok u, st1)" and "n_Peers nt = Ok peers"
  shows "d_sent (run_next cfg nt (fs_ops e) st1) = d_sent st @ map (\<lambda>p. SentBlob p d (rdata rd))
      (filter (\<lambda>p. isOk (n_SendBlob nt p d (rdata rd))) (selectReplicationTargets cfg (filterHealthyPeers nt peers))) \<and>
    d_tasks (run_next cfg nt (fs_ops e) st1) = [] \<and>
    (\<forall>e2 s2. quiet e2 \<and> fs_inv e2 s2 \<and> slot_free s2 d \<longrightarrow>
       (\<exists>s3. PutBlob e2 d (bytes_reader (rdata rd)) s2 = (Ok (), s3) \<and> fs_blobs s3 d = Some (rdata rd)))"
proof -
  obtain x s1 where put: "PutBlob e d rd (d_local st) = (x, s1)" by fastforce
  have x: "x = Ok ()" and st1: "st1 = spawn (ReplicateBlobTask d) (st\<lparr>d_local := s1\<rparr>)"
    using assms(3,5) put by (auto simp: dist_PutBlob_def local_do_def split: sum.splits if_splits)
  have put': "op_PutBlob (fs_ops e) d rd (d_local st) = (Ok (), s1)" using put x by simp
  note ok = fsb.put_Ok [OF assms(2) put'] and i1 = fsb.put_inv [OF assms(2) put']
  have can: "canonical_digest d" using ok canonical_sha256_digest by metis
  have "content (fs_get (s_disk s1) (blobPath e s1 d)) = Some (rdata rd)"
    using ok fs_blobs_path [OF fs_invD(4) [OF i1] can, of s1] by simp
  then have get: "GetBlob e d s1 = (Ok (bytes_reader (rdata rd)), s1)"
    using GetBlob_present(1) [OF assms(1) fs_invD(5) [OF i1]] by blast
  have "d_tasks st1 = [ReplicateBlobTask d]" using assms(4) st1 by (simp add: spawn_def)
  then have run: "run_next cfg nt (fs_ops e) st1 = replicateBlobToPeers cfg nt (fs_ops e) d (st1\<lparr>d_tasks := []\<rparr>)"
    by (simp add: run_next_def)
  have "\<exists>s3. PutBlob e2 d (bytes_reader (rdata rd)) s2 = (Ok (), s3) \<and> fs_blobs s3 d = Some (rdata rd)"
    if q2: "quiet e2" and i2: "fs_inv e2 s2" and slot: "slot_free s2 d" for e2 s2
  proof -
    obtain s3 where p3: "PutBlob e2 d (bytes_reader (rdata rd)) s2 = (Ok (), s3)"
      using PutBlob_succeeds [OF q2 fs_invD(4,5) [OF i2] slot, of "bytes_reader (rdata rd)"] ok by auto
    then have p3': "op_PutBlob (fs_ops e2) d (bytes_reader (rdata rd)) s2 = (Ok (), s3)" by simp
    then show ?thesis using fsb.put_Ok [OF i2 p3'] p3 by auto
  qed
  then show ?thesis
    using get st1 assms(6) unfolding run by (simp add: replicateBlobToPeers_def Let_def spawn_def)
qed

theorem eager_replication_delivers_witness:
  "\<exists>st1. dist_PutBlob (demo_config ''eager'') (fs_ops calm) (sha256_digest [1]) (bytes_reader [1]) (node fresh) = (Ok (), st1) \<and>
     d_sent (run_next (demo_config ''eager'') (pair_net [1]) (fs_ops calm) st1) =
       [SentBlob (peer ''honest'') (sha256_digest [1]) [1]]"
proof -
  let ?d = "sha256_digest [1]"
  obtain s where put: "PutBlob calm ?d (bytes_reader [1]) fresh = (Ok (), s)" using fresh_put by blast
  have "\<not> slice_panic ?d" by (rule canonical_long) simp
  then obtain st1 where run: "dist_PutBlob (demo_config ''eager'') (fs_ops calm) ?d (bytes_reader [1]) (node fresh) = (Ok (), st1)"
    using put by (simp add: dist_PutBlob_def local_do_def demo_config_def)
  have strat: "dc_Strategy (demo_config ''eager'') = ''eager''" by (simp add: demo_config_def)
  have peers: "n_Peers (pair_net [1]) = Ok [peer ''liar'', peer ''honest'']" by (simp add: pair_net_def)
  have "filterHealthyPeers (pair_net [1]) [peer ''liar'', peer ''honest''] = [peer ''liar'', peer ''honest'']"
    by (simp add: filterHealthyPeers_def pair_net_def)
  moreover have "selectReplicationTargets (demo_config ''eager'') [peer ''liar'', peer ''honest''] =
      [peer ''liar'', peer ''honest'']"
    by (simp add: selectReplicationTargets_def demo_config_def upt_conv_Cons)
  moreover have "filter (\<lambda>p. isOk (n_SendBlob (pair_net [1]) p d b)) [peer ''liar'', peer ''honest''] = [peer ''honest'']" for d b
    by (simp add: pair_net_def peer_def)
  ultimately show ?thesis
    using eager_replication_delivers [OF quiet_calm _ strat _ run peers] run by auto
qed

text \<open>Chunked uploads are not replicated: an upload in chunks over the distributed store, whatever
  the strategy, spawns no replication and sends nothing; the blob stays on the node.\<close>

lemma local_do_tasks: "local_do f st = (r, st') \<Longrightarrow> d_tasks st' = d_tasks st \<and> d_sent st' = d_sent st"
  by (auto simp: local_do_def split: prod.splits)

lemma PatchUpload_tasks:
  "PatchUpload (distributed_ops cfg nt ops) r w st = (w', st') \<Longrightarrow> d_tasks st' = d_tasks st \<and> d_sent st' = d_sent st"
  by (auto simp: PatchUpload_def Let_def dist_ops_sel dest!: local_do_tasks
      split: prod.splits sum.splits if_splits)

lemma patch_all_tasks:
  "patch_all (distributed_ops cfg nt ops) repo i off parts st = (ok, st') \<Longrightarrow>
     d_tasks st' = d_tasks st \<and> d_sent st' = d_sent st"
  by (induction parts arbitrary: off st) (auto dest!: PatchUpload_tasks split: prod.splits if_splits)

lemma PutUpload_tasks:
  "PutUpload (distributed_ops cfg nt ops) r w st = (w', st') \<Longrightarrow> d_tasks st' = d_tasks st \<and> d_sent st' = d_sent st"
  by (auto simp: PutUpload_def put_final_chunk_def Let_def dist_ops_sel dest!: local_do_tasks
      split: prod.splits sum.splits if_splits)

theorem chunked_upload_not_replicated:
  assumes "chunked_upload (distributed_ops cfg nt ops) repo parts d st = (ok, st')"
  shows "d_tasks st' = d_tasks st \<and> d_sent st' = d_sent st"
proof -
  obtain x st1 where cr: "local_do (op_CreateUpload ops repo) st = (x, st1)" by fastforce
  note t1 = local_do_tasks [OF cr]
  show ?thesis
  proof (cases x)
    case (Inl er)
    then show ?thesis using assms cr t1
      by (simp add: chunked_upload_def StartUpload_chunked dist_ops_sel)
  next
    case (Inr up)
    obtain ok1 st2 where pa: "patch_all (distributed_ops cfg nt ops) repo (u_ID up) 0 parts st1 = (ok1, st2)"
      by fastforce
    obtain w st3 where pu: "PutUpload (distributed_ops cfg nt ops) (finish_request repo (u_ID up) d) new_rw st2 = (w, st3)"
      by fastforce
    have "st' = st2 \<or> st' = st3"
      using assms cr Inr pa pu
      by (auto simp: chunked_upload_def StartUpload_chunked dist_ops_sel Let_def split: if_splits)
    then show ?thesis using t1 patch_all_tasks [OF pa] PutUpload_tasks [OF pu] by auto
  qed
qed

theorem chunked_upload_not_replicated_witness:
  "\<exists>ok st'. chunked_upload (distributed_ops (demo_config ''eager'') (pair_net [1]) (fs_ops calm)) ''app'' [[1]]
      (sha256_digest [1]) (node fresh) = (ok, st') \<and> d_tasks st' = [] \<and> d_sent st' = []"
proof -
  obtain ok st' where run: "chunked_upload (distributed_ops (demo_config ''eager'') (pair_net [1]) (fs_ops calm))
      ''app'' [[1]] (sha256_digest [1]) (node fresh) = (ok, st')" by fastforce
  from chunked_upload_not_replicated [OF run] run show ?thesis by auto
qed

end
