(* ===== verification/Cluster.thy ===== *)
theory Cluster
  imports ManagerProperties GrpcManifests Replication "HOL-Library.Multiset"
begin

text \<open>
  Several nodes together: the network that a node's distributed store sees is its manager and its
  transport over the stores of the other nodes, as \<open>cmd/octoserve/main.go\<close> wires them; a blob that
  any reachable peer holds can be read, and a blob written eagerly is held by the peers it reached.
\<close>

subsection \<open>The network of a node\<close>

text \<open>A peer as the node meets it: its store and its state, its identity and the link to it.\<close>

record 's far =
  fa_ops :: "'s store_ops"
  fa_state :: 's
  fa_node :: string
  fa_link :: link

definition peer_has_blob :: "'s far \<Rightarrow> PeerInfo \<Rightarrow> string \<Rightarrow> bool" where
  "peer_has_blob f p d =
     (case fst (HasBlob (fa_link f) (fa_ops f) p d (fa_state f)) of Err _ \<Rightarrow> False | Ok (has, _) \<Rightarrow> has)"

definition peer_has_manifest :: "'s far \<Rightarrow> PeerInfo \<Rightarrow> string \<Rightarrow> string \<Rightarrow> bool" where
  "peer_has_manifest f p repo reference =
     (case fst (HasManifest (fa_link f) (fa_ops f) p repo reference (fa_state f)) of
        Err _ \<Rightarrow> False | Ok (has, _, _) \<Rightarrow> has)"

definition cluster_net :: "(PeerInfo list \<Rightarrow> PeerInfo list) \<Rightarrow> (PeerInfo list \<Rightarrow> PeerInfo list) \<Rightarrow> int \<Rightarrow> Manager \<Rightarrow>
    (PeerInfo \<Rightarrow> 's far) \<Rightarrow> net" where
  "cluster_net order arrived unix_now m far =
     \<lparr>n_NodeID = GetNodeID m, n_IsHealthy = manager_IsHealthy m, n_Peers = manager_GetPeers order m,
      n_PeerHealth = manager_GetPeerHealth m,
      n_FindPeersWithBlob =
        manager_FindPeersWithBlob arrived (\<lambda>p. Ping (fa_link (far p)) (fa_node (far p)) unix_now p) m,
      n_BlobAnswers = (\<lambda>ps d. map (\<lambda>p. (p, peer_has_blob (far p) p d)) (arrived ps)),
      n_ManifestAnswers = (\<lambda>ps repo ref. map (\<lambda>p. (p, peer_has_manifest (far p) p repo ref)) (arrived ps)),
      n_RequestBlob = (\<lambda>p d. fst (RequestBlob (fa_link (far p)) (fa_ops (far p)) None p d (fa_state (far p)))),
      n_RequestManifest = (\<lambda>p repo ref. fst (RequestManifest (fa_link (far p)) (fa_ops (far p)) p repo ref (fa_state (far p)))),
      n_SendBlob = (\<lambda>p d b. fst (SendBlob (fa_link (far p)) (fa_ops (far p)) p d (bytes_reader b) (fa_state (far p)))),
      n_SendManifest = (\<lambda>p repo ref mf. fst (SendManifest (fa_link (far p)) (fa_ops (far p)) p repo ref mf (fa_state (far p))))\<rparr>"

text \<open>The state of a peer once a blob was sent to it.\<close>

definition after_send :: "PeerInfo \<Rightarrow> string \<Rightarrow> bytes \<Rightarrow> 's far \<Rightarrow> 's far" where
  "after_send p d b f =
     f\<lparr>fa_state := snd (SendBlob (fa_link f) (fa_ops f) p d (bytes_reader b) (fa_state f))\<rparr>"

definition fs_peer :: "env \<Rightarrow> Store \<Rightarrow> string \<Rightarrow> link \<Rightarrow> Store far" where
  "fs_peer e s nodeID lk = \<lparr>fa_ops = fs_ops e, fa_state = s, fa_node = nodeID, fa_link = lk\<rparr>"

lemma fs_peer_sel [simp]:
  "fa_ops (fs_peer e s n lk) = fs_ops e" "fa_state (fs_peer e s n lk) = s" "fa_link (fs_peer e s n lk) = lk"
  by (simp_all add: fs_peer_def)

subsection \<open>Reading\<close>

lemma HasBlob_up:
  assumes "link_up lk" and "op_BlobExists ops d s = (Ok True, s1)" and "op_GetBlobSize ops d s1 = (Ok n, s2)"
  shows "HasBlob lk ops p d s = (Ok (True, n), s2)"
  using assms by (simp add: HasBlob_def link_up_def unary_def P2P_HasBlob_def)

lemma holder_answers:
  assumes "quiet e" and "fs_inv e s" and "canonical_digest d" and "fs_blobs s d = Some b" and "link_up lk"
  shows "peer_has_blob (fs_peer e s n lk) p d"
    and "fst (RequestBlob lk (fs_ops e) None p d s) = Ok (bytes_reader b)"
proof -
  have "content (fs_get (s_disk s) (blobPath e s d)) = Some b"
    using assms(4) fs_blobs_path [OF fs_invD(4) [OF assms(2)] assms(3), of s] by simp
  note present = GetBlob_present [OF assms(1) fs_invD(5) [OF assms(2)] this]
  show "peer_has_blob (fs_peer e s n lk) p d"
    using HasBlob_up [OF assms(5), of "fs_ops e" d s s _ s p] present by (simp add: peer_has_blob_def)
  show "fst (RequestBlob lk (fs_ops e) None p d s) = Ok (bytes_reader b)"
    using RequestBlob_up [OF assms(5), of "bytes_reader b" "fs_ops e" d s s p] present by simp
qed

text \<open>C3. A blob that any peer holds can be read through any node: when the node lacks the blob and one of
  the peers its manager lists holds it, on a working disk behind a working link, and all peers
  answer in time, then \<open>GetBlob\<close> on the node returns bytes with the digest and the node keeps them,
  whatever the other peers hold, claim or send, and in whatever order peers are asked and answer.\<close>

theorem cluster_read:
  assumes "quiet e" and "fs_inv e (d_local st)" and "canonical_digest d"
    and "fs_blobs (d_local st) d = None" and "slot_free (d_local st) d"
    and "p \<in> snd ` set (mg_peers m)" and "far p = fs_peer e' s' n lk"
    and "quiet e'" and "fs_inv e' s'" and "fs_blobs s' d = Some b" and "link_up lk"
    and "\<And>xs. mset (order xs) = mset xs" and "\<And>xs. mset (arrived xs) = mset xs"
  shows "\<exists>b' st'. dist_GetBlob (cluster_net order arrived clock m far) (fs_ops e) d st =
      (Ok (bytes_reader b'), st') \<and> sha256_digest b' = d \<and> fs_blobs (d_local st') d = Some b' \<and> fs_inv e (d_local st')"
proof -
  let ?nt = "cluster_net order arrived clock m far"
  let ?all = "order (map snd (mg_peers m))"
  let ?ans = "n_BlobAnswers ?nt ?all d"
  have peers: "n_Peers ?nt = Ok ?all" by (simp add: cluster_net_def manager_GetPeers_def)
  have mem: "p \<in> set ?all"
    using assms(6) mset_eq_setD [OF assms(12), of "map snd (mg_peers m)"] by simp
  have ans: "?ans = map (\<lambda>q. (q, peer_has_blob (far q) q d)) (arrived ?all)" by (simp add: cluster_net_def)
  have len: "length ?ans = length ?all"
    using mset_eq_length [OF assms(13), of ?all] by (simp add: ans)
  have "?all \<noteq> []" using mem by auto
  then have find: "findPeersWithBlobDirect ?nt d = (map fst (filter snd ?ans), None)"
    using collect_results_all [of ?ans "[]"] len peers by (simp add: findPeersWithBlobDirect_def)
  note holder = holder_answers [OF assms(8,9,3,10,11)]
  have found: "p \<in> set (map fst (filter snd ?ans))"
    using mem mset_eq_setD [OF assms(13), of ?all] holder(1) [of n p] assms(7) by (auto simp: ans image_iff)
  have req: "n_RequestBlob ?nt p d = Ok (bytes_reader b)"
    using holder(2) [of p] assms(7) by (simp add: cluster_net_def)
  have hash: "sha256_digest b = d" by (rule fsb.blobs_digest [OF assms(9,10)])
  obtain b' s1 where fetch: "fetch_blob ?nt (fs_ops e) d (map fst (filter snd ?ans)) (d_local st) = (Ok (bytes_reader b'), s1)"
    and b': "sha256_digest b' = d" "fs_blobs s1 d = Some b'" "fs_inv e s1"
    using fetch_blob_honest [OF assms(1,3) found req _ _ assms(2,5)] hash by auto
  have "map fst (filter snd ?ans) \<noteq> []" using found by (metis list.set_cases list.distinct(1))
  then have "dist_GetBlob ?nt (fs_ops e) d st = (Ok (bytes_reader b'), st\<lparr>d_local := s1\<rparr>)"
    using GetBlob_absent [OF assms(1-5)] canonical_long [OF assms(3)] fetch find
    by (simp add: dist_GetBlob_def local_do_def getBlobFromPeers_def)
  with b' show ?thesis by simp
qed

text \<open>Two nodes: the manager of one after a discovery and a health check, the store of the other.\<close>

lemma pair_checked:
  "\<exists>m. mg_peers m = [(''n2'', far_peer 7)] \<and> manager_GetPeerHealth m ''n2'' =
     Some \<lparr>ph_Status = HealthHealthy, ph_Latency = 3, ph_LastCheck = 9, ph_Error = []\<rparr>"
proof -
  obtain m0 and m :: Manager where m: "mg_peers m = [(''n2'', far_peer 7)]" "mg_health m = []" "mg_config m = pair_config"
    using pair_discovered by blast
  let ?check = "check_peer (\<lambda>_. Answered (Ok ())) (\<lambda>_. 3) 9"
  have "hc_Workers (p2_HealthCheck pair_config) = 10" by (simp add: pair_config_def Default_def)
  then have "mg_health (snd (checkPeerHealth id ?check m)) =
      [(''n2'', \<lparr>ph_Status = HealthHealthy, ph_Latency = 3, ph_LastCheck = 9, ph_Error = []\<rparr>)]"
    using m by (simp add: checkPeerHealth_def health_commit_def health_results_def health_begin_def check_peer_def far_peer_def)
  moreover have "mg_peers (snd (checkPeerHealth id ?check m)) = [(''n2'', far_peer 7)]"
    using m by (simp add: checkPeerHealth_def health_commit_def)
  ultimately show ?thesis
    by (intro exI [of _ "snd (checkPeerHealth id ?check m)"]) (simp add: manager_GetPeerHealth_def)
qed

theorem cluster_read_witness:
  "\<exists>m s' b st'. mg_peers m = [(''n2'', far_peer 7)] \<and>
     dist_GetBlob (cluster_net rev id 0 m (\<lambda>_. fs_peer calm s' ''n2'' good_link)) (fs_ops calm) (sha256_digest [1, 2]) (node fresh) =
       (Ok (bytes_reader b), st') \<and> sha256_digest b = sha256_digest [1, 2]"
proof -
  let ?d = "sha256_digest [1, 2]"
  obtain m :: Manager where m: "mg_peers m = [(''n2'', far_peer 7)]" using pair_checked by blast
  obtain s' where put: "PutBlob calm ?d (bytes_reader [1, 2]) fresh = (Ok (), s')" using fresh_put by blast
  then have put': "op_PutBlob (fs_ops calm) ?d (bytes_reader [1, 2]) fresh = (Ok (), s')" by simp
  have held: "fs_blobs s' ?d = Some [1, 2]" using fsb.put_Ok [OF fresh_inv put'] by simp
  have inv: "fs_inv calm s'" by (rule fsb.put_inv [OF fresh_inv put'])
  have mem: "far_peer 7 \<in> snd ` set (mg_peers m)" using m by simp
  have "\<exists>b st'. dist_GetBlob (cluster_net rev id 0 m (\<lambda>_. fs_peer calm s' ''n2'' good_link)) (fs_ops calm) ?d (node fresh) =
      (Ok (bytes_reader b), st') \<and> sha256_digest b = ?d \<and> fs_blobs (d_local st') ?d = Some b \<and> fs_inv calm (d_local st')"
    by (rule cluster_read [OF quiet_calm _ canonical_sha256_digest _ _ mem refl quiet_calm inv held link_up_good]) simp_all
  with m show ?thesis by blast
qed

subsection \<open>Writing\<close>

lemma SentBlob_acknowledged:
  assumes "fs_inv e s" and "isOk (fst (SendBlob lk (fs_ops e) p d rd s))"
  shows "fs_blobs (snd (SendBlob lk (fs_ops e) p d rd s)) d = Some (rdata rd)"
proof -
  obtain r s1 where run: "SendBlob lk (fs_ops e) p d rd s = (r, s1)" by fastforce
  then show ?thesis using wire.send_whole [OF assms(1) run] assms(2) by auto
qed

text \<open>What the network of a cluster does with a blob sent to a peer that runs on a working disk.\<close>

lemma cluster_send:
  assumes "far p = fs_peer e s n lk"
  shows "n_SendBlob (cluster_net order arrived clock m far) p d b = fst (SendBlob lk (fs_ops e) p d (bytes_reader b) s)"
  using assms by (simp add: cluster_net_def)

lemma cluster_acknowledges:
  assumes "far p = fs_peer e s n lk" and "quiet e" and "fs_inv e s" and "slot_free s (sha256_digest b)" and "link_up lk"
  shows "isOk (n_SendBlob (cluster_net order arrived clock m far) p (sha256_digest b) b)"
proof -
  obtain s2 where "op_PutBlob (fs_ops e) (sha256_digest b) (bytes_reader b) s = (Ok (), s2)"
    using PutBlob_succeeds [OF assms(2) fs_invD(4,5) [OF assms(3)] assms(4)] by fastforce
  from SendBlob_up [OF assms(5) _ this, of p] show ?thesis by (auto simp: cluster_send [of far p, OF assms(1)])
qed

lemma cluster_serves:
  assumes "far p = fs_peer e s n lk" and "quiet e" and "fs_inv e s"
    and "isOk (n_SendBlob (cluster_net order arrived clock m far) p (sha256_digest b) b)"
  shows "fst (GetBlob e (sha256_digest b) (fa_state (after_send p (sha256_digest b) b (fs_peer e s n lk)))) = Ok (bytes_reader b)"
proof -
  let ?d = "sha256_digest b"
  let ?s2 = "snd (SendBlob lk (fs_ops e) p ?d (bytes_reader b) s)"
  have held: "fs_blobs ?s2 ?d = Some b"
    using SentBlob_acknowledged [OF assms(3)] assms(4) by (simp add: cluster_send [of far p, OF assms(1)])
  have inv: "fs_inv e ?s2"
    using wire.send_whole [OF assms(3) prod.collapse [symmetric]] by blast
  have "content (fs_get (s_disk ?s2) (blobPath e ?s2 ?d)) = Some b"
    using held fs_blobs_path [OF fs_invD(4) [OF inv], of ?d ?s2] by simp
  then show ?thesis
    using GetBlob_present(1) [OF assms(2) fs_invD(5) [OF inv]] assms(1) by (simp add: after_send_def)
qed



end
