(* ===== verification/Router.thy ===== *)
theory Router
  imports GoRegexp Endpoints
begin

text \<open>
  \<open>internal/api/router.go\<close> and the route table of \<open>cmd/octoserve/main.go\<close>: patterns with named
  parameters are turned into regular expressions, requests go to the first route whose method and
  expression match, with the submatches added to the query.
\<close>

subsection \<open>From patterns to expressions\<close>

text \<open>\<open>strings.ReplaceAll\<close> of a non-empty string.\<close>

function ReplaceAll :: "string \<Rightarrow> string \<Rightarrow> string \<Rightarrow> string" where
  "ReplaceAll old new s =
     (case s of [] \<Rightarrow> []
      | c # r \<Rightarrow>
          if old \<noteq> [] \<and> HasPrefix s old then new @ ReplaceAll old new (drop (length old) s)
          else c # ReplaceAll old new r)"
  by auto

termination
  by (relation "measure (\<lambda>(old, new, s). length s)") auto

declare ReplaceAll.simps [simp del]

text \<open>\<open>regexp.QuoteMeta\<close>. \<open>bs\<close> is the backslash.\<close>

abbreviation bs :: char where "bs \<equiv> CHR 0x5C"

definition meta :: "char \<Rightarrow> bool" where
  "meta c \<longleftrightarrow> c = bs \<or> c \<in> set ''.+*?()|[]{}^$''"

definition QuoteMeta :: "string \<Rightarrow> string" where
  "QuoteMeta s = concat (map (\<lambda>c. if meta c then [bs, c] else [c]) s)"

text \<open>The expressions of the parameters.\<close>

definition name_part :: string where
  "name_part = ''[a-z0-9]+(?:(?:'' @ [bs] @ ''.|_|__|-+)[a-z0-9]+)*''"

definition param_regex :: "string \<Rightarrow> string" where
  "param_regex paramName =
     (if paramName = ''name'' then ''('' @ name_part @ ''(?:/'' @ name_part @ '')*)''
      else if paramName = ''reference'' then ''([a-zA-Z0-9._-]{1,128}|sha256:[a-fA-F0-9]{64})''
      else if paramName = ''digest'' then ''([a-zA-Z0-9+.-]+:[a-fA-F0-9]+)''
      else if paramName = ''uuid'' then
        ''([a-fA-F0-9]{8}-[a-fA-F0-9]{4}-[a-fA-F0-9]{4}-[a-fA-F0-9]{4}-[a-fA-F0-9]{12})''
      else ''([^/]+)'')"

text \<open>\<open>ReplaceAllStringFunc\<close> with the expression for a parameter, an opening brace, one or more
  bytes other than a closing brace, and a closing brace.\<close>

function replace_params :: "string \<Rightarrow> string \<times> string list" where
  "replace_params s =
     (case s of [] \<Rightarrow> ([], [])
      | c # r \<Rightarrow>
          (let paramName = takeWhile (\<lambda>x. x \<noteq> CHR ''}'') r; rest = dropWhile (\<lambda>x. x \<noteq> CHR ''}'') r in
           if c = CHR ''{'' \<and> paramName \<noteq> [] \<and> rest \<noteq> [] then
             (case replace_params (tl rest) of (regex, params) \<Rightarrow>
                (param_regex paramName @ regex, paramName # params))
           else (case replace_params r of (regex, params) \<Rightarrow> (c # regex, params))))"
  by auto

termination
proof (relation "measure length")
  fix s c r paramName rest
  assume "s = c # r" "rest = dropWhile (\<lambda>x. x \<noteq> CHR ''}'') r" "c = CHR ''{'' \<and> paramName \<noteq> [] \<and> rest \<noteq> []"
  then show "(tl rest, s) \<in> measure length"
    using length_dropWhile_le [of "\<lambda>x. x \<noteq> CHR ''}''" r] by simp
qed auto

declare replace_params.simps [simp del]

definition unescaped :: string where
  "unescaped = ''()[]+*?|{}:-.''"

definition patternToRegex :: "string \<Rightarrow> string \<times> string list" where
  "patternToRegex pattern =
     (case replace_params pattern of (regex, params) \<Rightarrow>
        (fold (\<lambda>c. ReplaceAll [bs, c] [c]) unescaped (QuoteMeta regex), params))"

subsection \<open>Routes\<close>

record 'h Route =
  rt_Method :: string
  rt_Pattern :: re
  rt_Handler :: 'h
  rt_Params :: "string list"

type_synonym 'h Router = "'h Route list"

definition NewRouter :: "'h Router" where
  "NewRouter = []"

text \<open>\<open>AddRoute\<close>; \<open>None\<close> when \<open>MustCompile\<close> panics.\<close>

definition AddRoute :: "string \<Rightarrow> string \<Rightarrow> 'h \<Rightarrow> 'h Router \<Rightarrow> 'h Router option" where
  "AddRoute method pattern handler r =
     (case patternToRegex pattern of (regex, params) \<Rightarrow>
        map_option (\<lambda>re. r @ [\<lparr>rt_Method = method, rt_Pattern = re, rt_Handler = handler, rt_Params = params\<rparr>])
          (Compile (''^'' @ regex @ ''$'')))"

text \<open>\<open>addParamsToRequest\<close>: the parsed query stands for the encoded one.\<close>

definition addParamsToRequest :: "request \<Rightarrow> string list \<Rightarrow> string list \<Rightarrow> request" where
  "addParamsToRequest req paramNames paramValues =
     (if length paramNames \<noteq> length paramValues then req
      else req\<lparr>r_Query := fold (\<lambda>(name, v). q_set (''route_'' @ name) v) (zip paramNames paramValues) (r_Query req)\<rparr>)"

text \<open>\<open>http.NotFound\<close>.\<close>

definition NotFound :: "rw \<Rightarrow> rw" where
  "NotFound w =
     WriteBody (bytes_of (''404 page not found'' @ [CHR 0x0A]))
       (WriteHeader 404 (SetHeader ''X-Content-Type-Options'' ''nosniff''
          (SetHeader ''Content-Type'' ''text/plain; charset=utf-8'' w)))"

text \<open>The loop of \<open>ServeHTTP\<close>: the handler of the first route that matches, and its request.\<close>

fun find_route :: "'h Router \<Rightarrow> request \<Rightarrow> ('h \<times> request) option" where
  "find_route [] req = None"
| "find_route (route # routes) req =
     (if rt_Method route \<noteq> r_Method req then find_route routes req
      else
        (case FindStringSubmatch (rt_Pattern route) (r_Path req) of
           None \<Rightarrow> find_route routes req
         | Some ms \<Rightarrow>
             Some (rt_Handler route,
               if 1 < length ms then addParamsToRequest req (rt_Params route) (tl ms) else req)))"

definition Router_ServeHTTP :: "('h \<Rightarrow> request \<Rightarrow> rw \<Rightarrow> 's \<Rightarrow> rw \<times> 's) \<Rightarrow> 'h Router \<Rightarrow>
    request \<Rightarrow> rw \<Rightarrow> 's \<Rightarrow> rw \<times> 's" where
  "Router_ServeHTTP run r req w s =
     (case find_route r req of
        None \<Rightarrow> (NotFound w, s)
      | Some (handler, req') \<Rightarrow> run handler req' w s)"

subsection \<open>The route table\<close>

definition route_table :: "(string \<times> string \<times> endpoint) list" where
  "route_table =
     [(''GET'', ''/v2/'', CheckAPI),
      (''GET'', ''/v2/{name}/blobs/{digest}'', EpGetBlob),
      (''HEAD'', ''/v2/{name}/blobs/{digest}'', EpHeadBlob),
      (''DELETE'', ''/v2/{name}/blobs/{digest}'', EpDeleteBlob),
      (''POST'', ''/v2/{name}/blobs/uploads/'', EpStartUpload),
      (''PATCH'', ''/v2/{name}/blobs/uploads/{uuid}'', EpPatchUpload),
      (''PUT'', ''/v2/{name}/blobs/uploads/{uuid}'', EpPutUpload),
      (''GET'', ''/v2/{name}/blobs/uploads/{uuid}'', EpGetUpload),
      (''DELETE'', ''/v2/{name}/blobs/uploads/{uuid}'', EpDeleteUpload),
      (''GET'', ''/v2/{name}/manifests/{reference}'', EpGetManifest),
      (''HEAD'', ''/v2/{name}/manifests/{reference}'', EpHeadManifest),
      (''PUT'', ''/v2/{name}/manifests/{reference}'', EpPutManifest),
      (''DELETE'', ''/v2/{name}/manifests/{reference}'', EpDeleteManifest),
      (''GET'', ''/v2/{name}/tags/list'', EpListTags),
      (''GET'', ''/v2/{name}/referrers/{digest}'', EpGetReferrers)]"

fun add_routes :: "(string \<times> string \<times> 'h) list \<Rightarrow> 'h Router \<Rightarrow> 'h Router option" where
  "add_routes [] r = Some r"
| "add_routes ((method, pattern, handler) # ts) r =
     (case AddRoute method pattern handler r of None \<Rightarrow> None | Some r' \<Rightarrow> add_routes ts r')"

subsection \<open>The table compiled\<close>

definition alnum_re :: re where
  "alnum_re = RRepeat (RClass False [(CHR ''a'', CHR ''z''), (CHR ''0'', CHR ''9'')]) 1 None"

definition hex_class :: "(char \<times> char) list" where
  "hex_class = [(CHR ''a'', CHR ''f''), (CHR ''A'', CHR ''F''), (CHR ''0'', CHR ''9'')]"

definition hex_run :: "nat \<Rightarrow> re" where
  "hex_run n = RRepeat (RClass False hex_class) n (Some n)"

definition algorithm_class :: "(char \<times> char) list" where
  "algorithm_class = [(CHR ''a'', CHR ''z''), (CHR ''A'', CHR ''Z''), (CHR ''0'', CHR ''9''),
     (CHR ''+'', CHR ''+''), (CHR ''.'', CHR ''.''), (CHR ''-'', CHR ''-'')]"

definition tag_class :: "(char \<times> char) list" where
  "tag_class = [(CHR ''a'', CHR ''z''), (CHR ''A'', CHR ''Z''), (CHR ''0'', CHR ''9''),
     (CHR ''.'', CHR ''.''), (CHR ''_'', CHR ''_''), (CHR ''-'', CHR ''-'')]"

text \<open>The separators of a name, after the first of them; \<open>part_re dot\<close> is one component.\<close>

definition sep_re :: "re \<Rightarrow> re" where
  "sep_re dot = RAlt dot (RAlt (seq_of (lit ''_'')) (RAlt (seq_of (lit ''__''))
     (seq_of [RRepeat (RChar CHR ''-'') 1 None])))"

definition runs_re :: "re \<Rightarrow> re" where
  "runs_re sep = RRepeat (seq_of [sep, alnum_re]) 0 None"

definition backslash_any :: re where
  "backslash_any = seq_of [RChar bs, RAny]"

definition name_re :: re where
  "name_re = (let runs = runs_re (sep_re backslash_any) in
     seq_of [alnum_re, runs, RRepeat (seq_of [RChar CHR ''/'', alnum_re, runs]) 0 None])"

definition digest_re :: re where
  "digest_re = seq_of [RRepeat (RClass False algorithm_class) 1 None, RChar CHR '':'',
     RRepeat (RClass False hex_class) 1 None]"

definition reference_re :: re where
  "reference_re = RAlt (seq_of [RRepeat (RClass False tag_class) 1 (Some 128)])
     (seq_of (lit ''sha256:'' @ [hex_run 64]))"

definition uuid_re :: re where
  "uuid_re = seq_of [hex_run 8, RChar CHR ''-'', hex_run 4, RChar CHR ''-'', hex_run 4, RChar CHR ''-'',
     hex_run 4, RChar CHR ''-'', hex_run 12]"

definition under :: "string \<Rightarrow> re list \<Rightarrow> re" where
  "under mid rest = anchored (lit ''/v2/'' @ RGroup name_re # lit mid @ rest)"

definition compiled :: "string \<Rightarrow> (re \<times> string list) option" where
  "compiled pattern =
     (case patternToRegex pattern of (regex, params) \<Rightarrow>
        map_option (\<lambda>re. (re, params)) (Compile (''^'' @ regex @ ''$'')))"

lemma compiled_root: "compiled ''/v2/'' = Some (anchored (lit ''/v2/''), [])"
  by code_simp

lemma compiled_blob: "compiled ''/v2/{name}/blobs/{digest}'' =
    Some (under ''/blobs/'' [RGroup digest_re], [''name'', ''digest''])"
  by code_simp

lemma compiled_uploads: "compiled ''/v2/{name}/blobs/uploads/'' = Some (under ''/blobs/uploads/'' [], [''name''])"
  by code_simp

lemma compiled_upload: "compiled ''/v2/{name}/blobs/uploads/{uuid}'' =
    Some (under ''/blobs/uploads/'' [RGroup uuid_re], [''name'', ''uuid''])"
  by code_simp

lemma compiled_manifest: "compiled ''/v2/{name}/manifests/{reference}'' =
    Some (under ''/manifests/'' [RGroup reference_re], [''name'', ''reference''])"
  by code_simp

lemma compiled_tags: "compiled ''/v2/{name}/tags/list'' = Some (under ''/tags/list'' [], [''name''])"
  by code_simp

lemma compiled_referrers: "compiled ''/v2/{name}/referrers/{digest}'' =
    Some (under ''/referrers/'' [RGroup digest_re], [''name'', ''digest''])"
  by code_simp

lemma AddRoute_compiled: "AddRoute m p h r =
    (case compiled p of None \<Rightarrow> None
     | Some (re, params) \<Rightarrow> Some (r @ [\<lparr>rt_Method = m, rt_Pattern = re, rt_Handler = h, rt_Params = params\<rparr>]))"
  by (simp add: AddRoute_def compiled_def split: prod.splits option.splits)

end
