(* ===== verification/Routes.thy ===== *)
theory Routes
  imports Router
begin

text \<open>
  What the compiled route table means: a reference router that knows the resources of the registry
  and their paths, and the proof that the first-match search over regular expressions is that
  router. A path is the path of at most one resource.
\<close>

declare matches.simps(7) [simp del]

subsection \<open>The words of the parameters\<close>

definition digest_word :: "string \<Rightarrow> bool" where
  "digest_word d \<longleftrightarrow> (\<exists>a h. d = a @ CHR '':'' # h \<and> class_run algorithm_class 1 None a \<and> class_run hex_class 1 None h)"

definition reference_word :: "string \<Rightarrow> bool" where
  "reference_word r \<longleftrightarrow> class_run tag_class 1 (Some 128) r \<or>
     (\<exists>h. r = ''sha256:'' @ h \<and> class_run hex_class 64 (Some 64) h)"

definition uuid_word :: "string \<Rightarrow> bool" where
  "uuid_word u \<longleftrightarrow> (\<exists>a b c d e. u = a @ ''-'' @ b @ ''-'' @ c @ ''-'' @ d @ ''-'' @ e \<and>
     class_run hex_class 8 (Some 8) a \<and> class_run hex_class 4 (Some 4) b \<and> class_run hex_class 4 (Some 4) c \<and>
     class_run hex_class 4 (Some 4) d \<and> class_run hex_class 12 (Some 12) e)"

definition routed_name :: "string \<Rightarrow> bool" where
  "routed_name n \<longleftrightarrow> matches name_re False n [] ''/''"

lemma ascii_classes [simp]: "ascii_class hex_class" "ascii_class algorithm_class" "ascii_class tag_class"
  "ascii_class [(CHR ''a'', CHR ''z''), (CHR ''0'', CHR ''9'')]"
  by (simp_all add: ascii_class_def hex_class_def algorithm_class_def tag_class_def)

lemma matches_digest: "matches digest_re b w c t \<longleftrightarrow> c = [] \<and> digest_word w"
  by (auto simp: digest_re_def matches_seq_Cons matches_class_run digest_word_def)

lemma matches_hex_run: "matches (hex_run n) b w c t \<longleftrightarrow> c = [] \<and> class_run hex_class n (Some n) w"
  by (simp only: hex_run_def matches_class_run ascii_classes)

lemma matches_uuid: "matches uuid_re b w c t \<longleftrightarrow> c = [] \<and> uuid_word w"
  by (auto simp: uuid_re_def matches_seq_Cons matches_hex_run uuid_word_def)
    (assumption | rule exI conjI refl)+

lemma ngroups_seq [simp]: "ngroups (seq_of rs) = sum_list (map ngroups rs)"
  by (induction rs) (simp_all add: seq_of_def)

lemma ngroups_lit [simp]: "map ngroups (lit s) = replicate (length s) 0"
  by (simp add: lit_def comp_def map_replicate_const)

lemma matches_reference: "matches reference_re b w c t \<longleftrightarrow> c = [] \<and> reference_word w"
  by (auto simp: reference_re_def hex_run_def [THEN arg_cong, of ngroups] sum_list_replicate matches_lit matches_seq_Cons [of _ "[]"] matches_hex_run matches_class_run
      reference_word_def)

lemma name_no_groups: "ngroups name_re = 0"
  by (simp add: Let_def name_re_def runs_re_def sep_re_def backslash_any_def alnum_re_def seq_of_def lit_def)

lemma name_no_end: "no_end name_re"
  by (simp add: Let_def name_re_def runs_re_def sep_re_def backslash_any_def alnum_re_def seq_of_def lit_def)

lemma matches_name: "matches name_re False n c (CHR ''/'' # t) \<longleftrightarrow> c = [] \<and> routed_name n"
  using matches_no_groups [OF name_no_groups, of False n c "CHR ''/'' # t"]
    matches_follow [OF name_no_end, of "CHR ''/''" False n c t "[]"]
  by (auto simp: routed_name_def)

subsection \<open>Resources and their paths\<close>

datatype resource =
    Base
  | is_BlobAt: BlobAt string string
  | is_Uploads: Uploads string
  | is_UploadAt: UploadAt string string
  | is_ManifestAt: ManifestAt string string
  | is_TagsOf: TagsOf string
  | is_ReferrersOf: ReferrersOf string string

fun path_of :: "resource \<Rightarrow> string" where
  "path_of Base = ''/v2/''"
| "path_of (BlobAt n d) = ''/v2/'' @ n @ ''/blobs/'' @ d"
| "path_of (Uploads n) = ''/v2/'' @ n @ ''/blobs/uploads/''"
| "path_of (UploadAt n u) = ''/v2/'' @ n @ ''/blobs/uploads/'' @ u"
| "path_of (ManifestAt n r) = ''/v2/'' @ n @ ''/manifests/'' @ r"
| "path_of (TagsOf n) = ''/v2/'' @ n @ ''/tags/list''"
| "path_of (ReferrersOf n d) = ''/v2/'' @ n @ ''/referrers/'' @ d"

fun wf_resource :: "resource \<Rightarrow> bool" where
  "wf_resource Base = True"
| "wf_resource (BlobAt n d) = (routed_name n \<and> digest_word d)"
| "wf_resource (Uploads n) = routed_name n"
| "wf_resource (UploadAt n u) = (routed_name n \<and> uuid_word u)"
| "wf_resource (ManifestAt n r) = (routed_name n \<and> reference_word r)"
| "wf_resource (TagsOf n) = routed_name n"
| "wf_resource (ReferrersOf n d) = (routed_name n \<and> digest_word d)"

fun params_of :: "resource \<Rightarrow> (string \<times> string) list" where
  "params_of Base = []"
| "params_of (BlobAt n d) = [(''name'', n), (''digest'', d)]"
| "params_of (Uploads n) = [(''name'', n)]"
| "params_of (UploadAt n u) = [(''name'', n), (''uuid'', u)]"
| "params_of (ManifestAt n r) = [(''name'', n), (''reference'', r)]"
| "params_of (TagsOf n) = [(''name'', n)]"
| "params_of (ReferrersOf n d) = [(''name'', n), (''digest'', d)]"

fun endpoint_at :: "string \<Rightarrow> resource \<Rightarrow> endpoint option" where
  "endpoint_at m Base = map_of [(''GET'', CheckAPI)] m"
| "endpoint_at m (BlobAt n d) = map_of [(''GET'', EpGetBlob), (''HEAD'', EpHeadBlob), (''DELETE'', EpDeleteBlob)] m"
| "endpoint_at m (Uploads n) = map_of [(''POST'', EpStartUpload)] m"
| "endpoint_at m (UploadAt n u) =
     map_of [(''PATCH'', EpPatchUpload), (''PUT'', EpPutUpload), (''GET'', EpGetUpload), (''DELETE'', EpDeleteUpload)] m"
| "endpoint_at m (ManifestAt n r) =
     map_of [(''GET'', EpGetManifest), (''HEAD'', EpHeadManifest), (''PUT'', EpPutManifest),
       (''DELETE'', EpDeleteManifest)] m"
| "endpoint_at m (TagsOf n) = map_of [(''GET'', EpListTags)] m"
| "endpoint_at m (ReferrersOf n d) = map_of [(''GET'', EpGetReferrers)] m"

text \<open>The last segment of a path and what precedes its slash tell resources apart.\<close>

definition last_seg :: "string \<Rightarrow> string" where
  "last_seg p = rev (takeWhile (\<lambda>c. c \<noteq> CHR ''/'') (rev p))"

definition front :: "string \<Rightarrow> string" where
  "front p = rev (drop 1 (dropWhile (\<lambda>c. c \<noteq> CHR ''/'') (rev p)))"

lemma last_seg_append: "CHR ''/'' \<notin> set x \<Longrightarrow> last_seg (a @ CHR ''/'' # x) = x"
  by (simp add: last_seg_def takeWhile_append takeWhile_eq_all_conv)

lemma front_append: "CHR ''/'' \<notin> set x \<Longrightarrow> front (a @ CHR ''/'' # x) = a"
  by (simp add: front_def dropWhile_append)

lemma class_run_no_slash: "class_run rs n k w \<Longrightarrow> \<not> in_class rs (CHR ''/'') \<Longrightarrow> CHR ''/'' \<notin> set w"
  by (auto simp: class_run_def)

lemma no_slash_classes [simp]: "\<not> in_class hex_class (CHR ''/'')" "\<not> in_class algorithm_class (CHR ''/'')"
  "\<not> in_class tag_class (CHR ''/'')"
  by (simp_all add: in_class_def hex_class_def algorithm_class_def tag_class_def)

lemma words_no_slash:
  "digest_word d \<Longrightarrow> CHR ''/'' \<notin> set d" "reference_word r \<Longrightarrow> CHR ''/'' \<notin> set r" "uuid_word u \<Longrightarrow> CHR ''/'' \<notin> set u"
  by (auto simp: digest_word_def reference_word_def uuid_word_def dest!: class_run_no_slash)

lemma words_nonempty [simp]: "\<not> digest_word []" "\<not> reference_word []" "\<not> uuid_word []"
  by (auto simp: digest_word_def reference_word_def uuid_word_def class_run_def)

text \<open>The two last segments and what precedes them.\<close>

definition segs :: "string \<Rightarrow> string \<times> string \<times> string" where
  "segs p = (front (front p), last_seg (front p), last_seg p)"

lemma segs_append:
  "CHR ''/'' \<notin> set k \<Longrightarrow> CHR ''/'' \<notin> set x \<Longrightarrow> segs (a @ CHR ''/'' # k @ CHR ''/'' # x) = (a, k, x)"
  using last_seg_append [of x "a @ CHR ''/'' # k"] front_append [of x "a @ CHR ''/'' # k"]
  by (simp add: segs_def last_seg_append front_append)

lemma segs_path:
  "segs (path_of Base) = ([], ''v2'', [])"
  "CHR ''/'' \<notin> set d \<Longrightarrow> segs (path_of (BlobAt n d)) = (''/v2/'' @ n, ''blobs'', d)"
  "segs (path_of (Uploads n)) = (''/v2/'' @ n @ ''/blobs'', ''uploads'', [])"
  "CHR ''/'' \<notin> set u \<Longrightarrow> segs (path_of (UploadAt n u)) = (''/v2/'' @ n @ ''/blobs'', ''uploads'', u)"
  "CHR ''/'' \<notin> set r \<Longrightarrow> segs (path_of (ManifestAt n r)) = (''/v2/'' @ n, ''manifests'', r)"
  "segs (path_of (TagsOf n)) = (''/v2/'' @ n, ''tags'', ''list'')"
  "CHR ''/'' \<notin> set d \<Longrightarrow> segs (path_of (ReferrersOf n d)) = (''/v2/'' @ n, ''referrers'', d)"
  using segs_append [of "''v2''" "[]" "[]"] segs_append [of "''blobs''" d "''/v2/'' @ n"]
    segs_append [of "''uploads''" "[]" "''/v2/'' @ n @ ''/blobs''"]
    segs_append [of "''uploads''" u "''/v2/'' @ n @ ''/blobs''"]
    segs_append [of "''manifests''" r "''/v2/'' @ n"] segs_append [of "''tags''" "''list''" "''/v2/'' @ n"]
    segs_append [of "''referrers''" d "''/v2/'' @ n"]
  by simp_all

lemma resource_unique:
  assumes "wf_resource a" "wf_resource b" "path_of a = path_of b"
  shows "a = b"
proof -
  have "segs (path_of a) = segs (path_of b)" using assms(3) by simp
  with assms(1,2) show ?thesis
    by (cases a; cases b) (auto simp: segs_path words_no_slash simp del: path_of.simps)
qed

subsection \<open>What each expression of the table matches\<close>

lemma matches_under:
  "matches (seq_of ((lit ''/v2/'' @ RGroup name_re # lit (CHR ''/'' # mid) @ rest) @ [REnd])) True s c [] \<longleftrightarrow>
     (\<exists>n w c2. s = ''/v2/'' @ n @ CHR ''/'' # mid @ w \<and> c = n # c2 \<and> routed_name n \<and>
        matches (seq_of (rest @ [REnd])) False w c2 [])"
proof -
  let ?R = "lit (CHR ''/'' # mid) @ rest @ [REnd]"
  have tail: "matches (seq_of ?R) False w2 c2 [] \<longleftrightarrow>
      (\<exists>w. w2 = CHR ''/'' # mid @ w \<and> matches (seq_of (rest @ [REnd])) False w c2 [])" for w2 c2
    by (simp add: matches_lit)
  have "matches (seq_of (RGroup name_re # ?R)) False w' c [] \<longleftrightarrow>
      (\<exists>n w c2. w' = n @ CHR ''/'' # mid @ w \<and> c = n # c2 \<and> routed_name n \<and>
        matches (seq_of (rest @ [REnd])) False w c2 [])" (is "?L \<longleftrightarrow> ?E") for w'
  proof
    assume ?L
    then obtain n w2 c1 c2 where eq: "w' = n @ w2" "c = (n # c1) @ c2" and name: "matches name_re False n c1 w2"
      and "matches (seq_of ?R) False w2 c2 []"
      unfolding matches_seq_Cons [of "RGroup name_re"] by auto
    with tail obtain w where w2: "w2 = CHR ''/'' # mid @ w" "matches (seq_of (rest @ [REnd])) False w c2 []" by blast
    with name have "c1 = []" "routed_name n" by (simp_all add: matches_name)
    with eq w2 show ?E by auto
  next
    assume ?E
    then obtain n w c2 where eq: "w' = n @ CHR ''/'' # mid @ w" "c = n # c2" and name: "routed_name n"
      and w: "matches (seq_of (rest @ [REnd])) False w c2 []" by blast
    let ?w2 = "CHR ''/'' # mid @ w"
    have "matches (RGroup name_re) False n [n] (?w2 @ [])" using name by (simp add: matches_name)
    moreover have "matches (seq_of ?R) (False \<and> n = []) ?w2 c2 []" using tail [of ?w2 c2] w by simp
    ultimately show ?L unfolding matches_seq_Cons [of "RGroup name_re"] eq
      by (intro exI [of _ n] exI [of _ ?w2] exI [of _ "[n]"] exI [of _ c2]) simp
  qed
  then show ?thesis by (auto simp: matches_lit)
qed

text \<open>\<open>finds re params kind\<close>: the expression matches exactly the paths of the resources of a kind, and
  its submatches are their parameters.\<close>

definition finds :: "re \<Rightarrow> (resource \<Rightarrow> bool) \<Rightarrow> bool" where
  "finds re kind \<longleftrightarrow> (\<forall>x. wf_resource x \<longrightarrow>
     FindStringSubmatch re (path_of x) = (if kind x then Some (path_of x # map snd (params_of x)) else None)) \<and>
   (\<forall>p. FindStringSubmatch re p \<noteq> None \<longrightarrow> (\<exists>x. wf_resource x \<and> kind x \<and> path_of x = p))"

lemma findsI:
  assumes "\<And>p c. matches (seq_of (rs @ [REnd])) True p c [] \<longleftrightarrow>
      (\<exists>x. wf_resource x \<and> kind x \<and> path_of x = p \<and> c = map snd (params_of x))"
  shows "finds (anchored rs) kind"
  unfolding finds_def
proof (intro conjI allI impI)
  fix x assume "wf_resource x"
  show "FindStringSubmatch (anchored rs) (path_of x) =
      (if kind x then Some (path_of x # map snd (params_of x)) else None)"
  proof (cases "FindStringSubmatch (anchored rs) (path_of x)")
    case None
    from Find_anchored_None [OF None] show ?thesis using \<open>wf_resource x\<close> None by (auto simp: assms)
  next
    case (Some ms)
    from Find_anchored_Some [OF Some] obtain c y where "ms = path_of x # c" "wf_resource y" "kind y"
      "path_of y = path_of x" "c = map snd (params_of y)" by (auto simp: assms)
    then show ?thesis using resource_unique [of y x] \<open>wf_resource x\<close> Some by simp
  qed
next
  fix p assume "FindStringSubmatch (anchored rs) p \<noteq> None"
  then obtain ms where "FindStringSubmatch (anchored rs) p = Some ms" by auto
  from Find_anchored_Some [OF this] show "\<exists>x. wf_resource x \<and> kind x \<and> path_of x = p" by (auto simp: assms)
qed

lemma resource_ex: "(\<exists>x. P x) \<longleftrightarrow> P Base \<or> (\<exists>n d. P (BlobAt n d)) \<or> (\<exists>n. P (Uploads n)) \<or>
    (\<exists>n u. P (UploadAt n u)) \<or> (\<exists>n r. P (ManifestAt n r)) \<or> (\<exists>n. P (TagsOf n)) \<or> (\<exists>n d. P (ReferrersOf n d))"
  by (metis resource.exhaust)

lemma finds_base: "finds (anchored (lit ''/v2/'')) (\<lambda>x. x = Base)"
  by (rule findsI) (auto simp: matches_lit matches_seq_Cons)

lemma finds_blob: "finds (under ''/blobs/'' [RGroup digest_re]) is_BlobAt"
  unfolding under_def
  by (rule findsI) (subst matches_under, auto simp: matches_seq_Cons matches_digest resource_ex)

lemma finds_uploads: "finds (under ''/blobs/uploads/'' []) is_Uploads"
  unfolding under_def
  by (rule findsI) (subst matches_under, auto simp: matches_seq_Cons resource_ex)

lemma finds_upload:
  "finds (under ''/blobs/uploads/'' [RGroup uuid_re]) is_UploadAt"
  unfolding under_def
  by (rule findsI) (subst matches_under, auto simp: matches_seq_Cons matches_uuid resource_ex)

lemma finds_manifest:
  "finds (under ''/manifests/'' [RGroup reference_re]) is_ManifestAt"
  unfolding under_def
  by (rule findsI) (subst matches_under, auto simp: matches_seq_Cons matches_reference resource_ex)

lemma finds_tags: "finds (under ''/tags/list'' []) is_TagsOf"
  unfolding under_def
  by (rule findsI) (subst matches_under, auto simp: matches_seq_Cons resource_ex)

lemma finds_referrers:
  "finds (under ''/referrers/'' [RGroup digest_re]) is_ReferrersOf"
  unfolding under_def
  by (rule findsI) (subst matches_under, auto simp: matches_seq_Cons matches_digest resource_ex)

lemmas finds_table = finds_base finds_blob finds_uploads finds_upload finds_manifest finds_tags finds_referrers

subsection \<open>The router is the reference router\<close>

definition table_route :: "string \<Rightarrow> re \<times> string list \<Rightarrow> endpoint \<Rightarrow> endpoint Route" where
  "table_route m c ep = \<lparr>rt_Method = m, rt_Pattern = fst c, rt_Handler = ep, rt_Params = snd c\<rparr>"

definition octo_router :: "endpoint Router" where
  "octo_router =
     (let blob = (under ''/blobs/'' [RGroup digest_re], [''name'', ''digest'']);
          upload = (under ''/blobs/uploads/'' [RGroup uuid_re], [''name'', ''uuid'']);
          manifest = (under ''/manifests/'' [RGroup reference_re], [''name'', ''reference'']) in
      [table_route ''GET'' (anchored (lit ''/v2/''), []) CheckAPI,
       table_route ''GET'' blob EpGetBlob, table_route ''HEAD'' blob EpHeadBlob, table_route ''DELETE'' blob EpDeleteBlob,
       table_route ''POST'' (under ''/blobs/uploads/'' [], [''name'']) EpStartUpload,
       table_route ''PATCH'' upload EpPatchUpload, table_route ''PUT'' upload EpPutUpload,
       table_route ''GET'' upload EpGetUpload, table_route ''DELETE'' upload EpDeleteUpload,
       table_route ''GET'' manifest EpGetManifest, table_route ''HEAD'' manifest EpHeadManifest,
       table_route ''PUT'' manifest EpPutManifest, table_route ''DELETE'' manifest EpDeleteManifest,
       table_route ''GET'' (under ''/tags/list'' [], [''name'']) EpListTags,
       table_route ''GET'' (under ''/referrers/'' [RGroup digest_re], [''name'', ''digest'']) EpGetReferrers])"

lemma octo_router: "add_routes route_table NewRouter = Some octo_router"
  by (simp add: route_table_def NewRouter_def AddRoute_compiled compiled_root compiled_blob compiled_uploads
      compiled_upload compiled_manifest compiled_tags compiled_referrers octo_router_def table_route_def Let_def)

text \<open>The request the handler of a resource gets.\<close>

definition routed_request :: "resource \<Rightarrow> request \<Rightarrow> request" where
  "routed_request x req =
     req\<lparr>r_Query := fold (\<lambda>(name, v). q_set (''route_'' @ name) v) (params_of x) (r_Query req)\<rparr>"

lemma find_route_none:
  assumes "\<And>rt. rt \<in> set rts \<Longrightarrow> FindStringSubmatch (rt_Pattern rt) (r_Path req) = None"
  shows "find_route rts req = None"
  using assms by (induction rts) auto

lemma finds_at: "finds re kind \<Longrightarrow> wf_resource x \<Longrightarrow>
    FindStringSubmatch re (path_of x) = (if kind x then Some (path_of x # map snd (params_of x)) else None)"
  by (simp add: finds_def)

lemma finds_nowhere: "finds re kind \<Longrightarrow> \<nexists>x. wf_resource x \<and> path_of x = p \<Longrightarrow> FindStringSubmatch re p = None"
  by (auto simp: finds_def)

lemma find_route_nowhere:
  assumes "\<nexists>x. wf_resource x \<and> path_of x = r_Path req"
  shows "find_route octo_router req = None"
  by (rule find_route_none)
    (auto simp: octo_router_def table_route_def Let_def finds_table [THEN finds_nowhere, OF assms])

lemma find_table_route:
  "finds re kind \<Longrightarrow> wf_resource x \<Longrightarrow> r_Path req = path_of x \<Longrightarrow>
   find_route (table_route m (re, ps) ep # rts) req =
     (if m = r_Method req \<and> kind x
      then Some (ep, if params_of x = [] then req else addParamsToRequest req ps (map snd (params_of x)))
      else find_route rts req)"
  using finds_at [of re kind x] by (simp add: table_route_def)

lemma find_route_path:
  assumes "wf_resource x" "r_Path req = path_of x"
  shows "find_route octo_router req = map_option (\<lambda>ep. (ep, routed_request x req)) (endpoint_at (r_Method req) x)"
proof -
  note at = finds_table [THEN find_table_route, OF assms]
  show ?thesis unfolding octo_router_def Let_def at
    by (cases x) (simp_all add: routed_request_def addParamsToRequest_def)
qed

lemma find_route_iff:
  "find_route octo_router req = Some (ep, req') \<longleftrightarrow>
     (\<exists>x. wf_resource x \<and> path_of x = r_Path req \<and> endpoint_at (r_Method req) x = Some ep \<and>
        req' = routed_request x req)"
proof (cases "\<exists>x. wf_resource x \<and> path_of x = r_Path req")
  case True
  then obtain x where x: "wf_resource x" "r_Path req = path_of x" by auto
  have "(\<exists>y. wf_resource y \<and> path_of y = path_of x \<and> Q y) \<longleftrightarrow> Q x" for Q
    using resource_unique [OF _ x(1)] x(1) by blast
  then show ?thesis unfolding find_route_path [OF x] x(2) by auto
next
  case False
  then show ?thesis using find_route_nowhere [OF False] by auto
qed

text \<open>C6. The table compiles, and the first-match search over its expressions finds exactly the
  resources of the registry: a handler is found iff the path is the path of a well-formed resource
  and the method is one the resource has, and it gets the request with exactly the parameters of
  that resource, whatever the order of the routes and however an expression could be matched.\<close>

theorem router_exact:
  "\<exists>router. add_routes route_table NewRouter = Some router \<and>
     (\<forall>req ep req'. find_route router req = Some (ep, req') \<longleftrightarrow>
        (\<exists>x. wf_resource x \<and> path_of x = r_Path req \<and> endpoint_at (r_Method req) x = Some ep \<and>
           req' = routed_request x req))"
  using octo_router find_route_iff by blast

text \<open>The parameters a handler reads.\<close>

lemma routed_request_sel [simp]:
  "r_Method (routed_request x req) = r_Method req" "r_Path (routed_request x req) = r_Path req"
  "r_Header (routed_request x req) = r_Header req" "r_Body (routed_request x req) = r_Body req"
  "r_ContentLength (routed_request x req) = r_ContentLength req"
  by (simp_all add: routed_request_def)

lemma GetParam_routed:
  "map_of (params_of x) p = Some v \<Longrightarrow> GetParam (routed_request x req) p = v"
  by (cases x) (auto simp: routed_request_def GetParam_def split: if_splits)

subsection \<open>Names the router lets through\<close>

text \<open>A closed property of words holds for what a pattern matches if it holds for the patterns it is
  built from.\<close>

fun built_from :: "(re \<Rightarrow> bool) \<Rightarrow> re \<Rightarrow> bool" where
  "built_from A (RSeq r q) = (A (RSeq r q) \<or> built_from A r \<and> built_from A q)"
| "built_from A (RAlt r q) = (A (RAlt r q) \<or> built_from A r \<and> built_from A q)"
| "built_from A (RRepeat r n k) = (A (RRepeat r n k) \<or> built_from A r)"
| "built_from A (RGroup r) = (A (RGroup r) \<or> built_from A r)"
| "built_from A REps = True"
| "built_from A r = A r"

lemma matches_built_from:
  assumes nil: "P []" and app: "\<And>u v. P u \<Longrightarrow> P v \<Longrightarrow> P (u @ v)"
    and atom: "\<And>r b w c t. A r \<Longrightarrow> matches r b w c t \<Longrightarrow> P w"
  shows "built_from A r \<Longrightarrow> matches r b w c t \<Longrightarrow> P w"
proof (induction r arbitrary: b w c t)
  case (RSeq r q)
  then show ?case using atom [of "RSeq r q" b w c t] by (auto intro: app)
next
  case (RRepeat r n k)
  have "rounds M n k cur b w c t \<Longrightarrow> (\<And>b w c t. M b w c t \<Longrightarrow> P w) \<Longrightarrow> P w" for M n k cur b w c t
    by (induction rule: rounds.induct) (auto intro: nil app)
  from this [of "matches r" n k "replicate (ngroups r) []" b w c t] RRepeat show ?case
    using atom [of "RRepeat r n k" b w c t] by (auto simp: matches.simps(7))
next
  case (RAlt r q)
  then show ?case using atom [of "RAlt r q" b w c t] by (cases "A (RAlt r q)") auto
next
  case (RGroup r)
  then show ?case using atom [of "RGroup r" b w c t] by (cases "A (RGroup r)") auto
qed (use atom nil in auto)

definition name_atom :: "re \<Rightarrow> bool" where
  "name_atom r \<longleftrightarrow> r = backslash_any \<or> r = RChar CHR ''_'' \<or> r = RChar CHR ''-'' \<or> r = RChar CHR ''/'' \<or>
     r = RClass False [(CHR ''a'', CHR ''z''), (CHR ''0'', CHR ''9'')]"

lemma name_built_from: "built_from name_atom name_re"
  by (simp add: name_re_def Let_def runs_re_def sep_re_def alnum_re_def seq_of_def lit_def name_atom_def
      backslash_any_def)

text \<open>A dot only comes in after a backslash.\<close>

lemma routed_name_dot:
  assumes "routed_name n" "CHR ''.'' \<in> set n"
  shows "bs \<in> set n"
proof -
  have atom: "CHR ''.'' \<in> set w \<longrightarrow> bs \<in> set w" if "name_atom r" "matches r b w c t" for r b w c t
    using that by (auto simp: name_atom_def backslash_any_def matches_seq_Cons matches_class in_class_def
          simp del: matches.simps(4))
  show ?thesis
    using matches_built_from [of "\<lambda>w. CHR ''.'' \<in> set w \<longrightarrow> bs \<in> set w" name_atom, OF _ _ atom name_built_from]
      assms by (auto simp: routed_name_def)
qed

lemma routed_name_head:
  assumes "routed_name n"
  shows "\<exists>c u. n = c # u \<and> in_class [(CHR ''a'', CHR ''z''), (CHR ''0'', CHR ''9'')] c"
proof -
  obtain w1 w2 where "n = w1 @ w2" and "class_run [(CHR ''a'', CHR ''z''), (CHR ''0'', CHR ''9'')] 1 None w1"
    using assms by (auto simp: routed_name_def name_re_def Let_def matches_seq_Cons alnum_re_def matches_class_run)
  then show ?thesis by (cases w1) (auto simp: class_run_def)
qed

lemma routed_name_repo_ok:
  assumes "routed_name n"
  shows "repo_ok n"
proof -
  obtain c u where n: "n = c # u" and "in_class [(CHR ''a'', CHR ''z''), (CHR ''0'', CHR ''9'')] c"
    using routed_name_head [OF assms] by blast
  then have "c \<noteq> CHR ''.''" "c \<noteq> CHR ''/''" by (auto simp: in_class_def)
  then have "clean_repo n \<noteq> []" "hd (clean_repo n) \<noteq> CHR ''.''" by (simp_all add: n clean_repo_def ReplaceChar_def)
  moreover have "CHR ''/'' \<notin> set (clean_repo n)" unfolding clean_repo_def by (rule set_ReplaceChar) simp
  ultimately show ?thesis unfolding repo_ok_def safe_comp_def by auto
qed

end
