(* ===== verification/StoreView.thy ===== *)
theory StoreView
  imports Endpoints
begin

text \<open>
  A store seen through another: every method of \<open>ops\<close> does to the part \<open>view x\<close> of its state
  what the method of \<open>base\<close> does, with the same result. Whatever contract \<open>base\<close> meets, \<open>ops\<close>
  meets; and a handler over \<open>ops\<close> gives the answers it gives over \<open>base\<close>, because it touches the
  store through the methods only.
\<close>

abbreviation through :: "('x \<Rightarrow> 's) \<Rightarrow> 'r \<times> 'x \<Rightarrow> 'r \<times> 's" where
  "through view \<equiv> apsnd view"

locale store_view =
  fixes ops :: "'x store_ops" and base :: "'s store_ops" and view :: "'x \<Rightarrow> 's"
  assumes view_GetBlob: "op_GetBlob base d (view x) = through view (op_GetBlob ops d x)"
    and view_PutBlob: "op_PutBlob base d rd (view x) = through view (op_PutBlob ops d rd x)"
    and view_BlobExists: "op_BlobExists base d (view x) = through view (op_BlobExists ops d x)"
    and view_DeleteBlob: "op_DeleteBlob base d (view x) = through view (op_DeleteBlob ops d x)"
    and view_GetBlobSize: "op_GetBlobSize base d (view x) = through view (op_GetBlobSize ops d x)"
    and view_GetManifest: "op_GetManifest base repo ref (view x) = through view (op_GetManifest ops repo ref x)"
    and view_PutManifest: "op_PutManifest base repo ref m (view x) = through view (op_PutManifest ops repo ref m x)"
    and view_DeleteManifest: "op_DeleteManifest base repo ref (view x) = through view (op_DeleteManifest ops repo ref x)"
    and view_ListTags: "op_ListTags base repo (view x) = through view (op_ListTags ops repo x)"
    and view_ManifestExists: "op_ManifestExists base repo ref (view x) = through view (op_ManifestExists ops repo ref x)"
    and view_GetReferrers: "op_GetReferrers base repo d (view x) = through view (op_GetReferrers ops repo d x)"
    and view_CreateUpload: "op_CreateUpload base repo (view x) = through view (op_CreateUpload ops repo x)"
    and view_GetUpload: "op_GetUpload base i (view x) = through view (op_GetUpload ops i x)"
    and view_WriteUploadChunk: "op_WriteUploadChunk base i off rd (view x) = through view (op_WriteUploadChunk ops i off rd x)"
    and view_CompleteUpload: "op_CompleteUpload base i d (view x) = through view (op_CompleteUpload ops i d x)"
    and view_CancelUpload: "op_CancelUpload base i (view x) = through view (op_CancelUpload ops i x)"
    and view_GetUploadStatus: "op_GetUploadStatus base i (view x) = through view (op_GetUploadStatus ops i x)"
begin

lemmas views = view_GetBlob view_PutBlob view_BlobExists view_DeleteBlob view_GetBlobSize
  view_GetManifest view_PutManifest view_DeleteManifest view_ListTags view_ManifestExists
  view_GetReferrers view_CreateUpload view_GetUpload view_WriteUploadChunk view_CompleteUpload
  view_CancelUpload view_GetUploadStatus

lemma view_run: "b = through view p \<Longrightarrow> p = (r, x') \<Longrightarrow> b = (r, view x')"
  by simp

text \<open>Every handler commutes with the view.\<close>

lemma blob_handlers_view:
  "BlobHandler_GetBlob base r w (view x) = through view (BlobHandler_GetBlob ops r w x)"
  "BlobHandler_HeadBlob base r w (view x) = through view (BlobHandler_HeadBlob ops r w x)"
  "BlobHandler_DeleteBlob base r w (view x) = through view (BlobHandler_DeleteBlob ops r w x)"
  by (simp_all add: BlobHandler_GetBlob_def BlobHandler_HeadBlob_def BlobHandler_DeleteBlob_def
      views Let_def split: prod.splits sum.splits bool.splits)

lemma start_handlers_view:
  "handleMonolithicUpload base r repo d w (view x) = through view (handleMonolithicUpload ops r repo d w x)"
  "handleBlobMount base repo d w (view x) = through view (handleBlobMount ops repo d w x)"
  by (simp_all add: handleMonolithicUpload_def handleBlobMount_def
      views Let_def split: prod.splits sum.splits bool.splits)

lemma StartUpload_view: "StartUpload base r w (view x) = through view (StartUpload ops r w x)"
  by (simp add: StartUpload_def start_handlers_view views Let_def split: prod.splits sum.splits)

lemma PatchUpload_view: "PatchUpload base r w (view x) = through view (PatchUpload ops r w x)"
  by (simp add: PatchUpload_def views Let_def split: prod.splits sum.splits)

lemma put_final_chunk_view: "put_final_chunk base r i w (view x) = through view (put_final_chunk ops r i w x)"
  by (auto simp: put_final_chunk_def views Let_def split: prod.splits sum.splits)

lemma PutUpload_view: "PutUpload base r w (view x) = through view (PutUpload ops r w x)"
  by (auto simp: PutUpload_def put_final_chunk_view views Let_def split: prod.splits sum.splits)

lemma upload_handlers_view:
  "UploadHandler_GetUpload base r w (view x) = through view (UploadHandler_GetUpload ops r w x)"
  "DeleteUpload base r w (view x) = through view (DeleteUpload ops r w x)"
  by (simp_all add: UploadHandler_GetUpload_def DeleteUpload_def views Let_def split: prod.splits sum.splits)

lemma verify_layers_view: "verify_layers base ls (view x) = through view (verify_layers ops ls x)"
  by (induction ls arbitrary: x) (auto simp: views split: prod.splits sum.splits bool.splits)

lemma verify_view: "verifyManifestBlobs base m (view x) = through view (verifyManifestBlobs ops m x)"
  by (simp add: verifyManifestBlobs_def verify_layers_view views Let_def
      split: prod.splits sum.splits bool.splits)

lemma manifest_handlers_view:
  "ManifestHandler_GetManifest base r w (view x) = through view (ManifestHandler_GetManifest ops r w x)"
  "ManifestHandler_HeadManifest base r w (view x) = through view (ManifestHandler_HeadManifest ops r w x)"
  "ManifestHandler_DeleteManifest base r w (view x) = through view (ManifestHandler_DeleteManifest ops r w x)"
  "ManifestHandler_ListTags base r w (view x) = through view (ManifestHandler_ListTags ops r w x)"
  "ReferrersHandler_GetReferrers base r w (view x) = through view (ReferrersHandler_GetReferrers ops r w x)"
  by (simp_all add: ManifestHandler_GetManifest_def ManifestHandler_HeadManifest_def
      ManifestHandler_DeleteManifest_def ManifestHandler_ListTags_def ReferrersHandler_GetReferrers_def
      views Let_def split: prod.splits sum.splits bool.splits)

lemma PutManifest_handler_view:
  "ManifestHandler_PutManifest base r w (view x) = through view (ManifestHandler_PutManifest ops r w x)"
  by (simp add: ManifestHandler_PutManifest_def verify_view views Let_def
      split: prod.splits sum.splits option.splits)

lemma serve_view: "serve ep base r w (view x) = through view (serve ep ops r w x)"
  by (cases ep) (simp_all add: blob_handlers_view StartUpload_view PatchUpload_view PutUpload_view
      upload_handlers_view manifest_handlers_view PutManifest_handler_view)

end

text \<open>A contract of the base is one of the store over it.\<close>

locale viewed_blobs = store_view ops base view + bb: blob_store base inv blobs
  for ops :: "'x store_ops" and base :: "'s store_ops" and view :: "'x \<Rightarrow> 's" and inv blobs

sublocale viewed_blobs \<subseteq> blob_store ops "\<lambda>x. inv (view x)" "\<lambda>x. blobs (view x)"
proof
  fix x x' d b rg rd r u er rx rz n
  show "sha256_digest b = d" if "inv (view x)" "blobs (view x) d = Some b" using bb.blobs_digest that .
  show "inv (view x') \<and> blobs (view x) \<subseteq>\<^sub>m blobs (view x')"
    if "inv (view x)" "op_GetBlob ops d x = (rg, x')"
    using bb.get_inv [OF that(1) view_run [OF view_GetBlob that(2)]] .
  show "blobs (view x') d = Some (rdata rd)"
    if "inv (view x)" "canonical_digest d" "op_GetBlob ops d x = (Ok rd, x')" "\<not> rfail rd"
    using bb.get_Ok [OF that(1,2) view_run [OF view_GetBlob that(3)] that(4)] .
  show "inv (view x')" if "inv (view x)" "op_PutBlob ops d rd x = (r, x')"
    using bb.put_inv [OF that(1) view_run [OF view_PutBlob that(2)]] .
  show "sha256_digest (rdata rd) = d \<and> blobs (view x') = (blobs (view x))(d \<mapsto> rdata rd)"
    if "inv (view x)" "op_PutBlob ops d rd x = (Ok u, x')"
    using bb.put_Ok [OF that(1) view_run [OF view_PutBlob that(2)]] .
  show "blobs (view x') = blobs (view x)" if "inv (view x)" "op_PutBlob ops d rd x = (Err er, x')"
    using bb.put_Err [OF that(1) view_run [OF view_PutBlob that(2)]] .
  show "inv (view x') \<and> blobs (view x) \<subseteq>\<^sub>m blobs (view x')"
    if "inv (view x)" "op_BlobExists ops d x = (rx, x')"
    using bb.exists_inv [OF that(1) view_run [OF view_BlobExists that(2)]] .
  show "blobs (view x) d = None"
    if "inv (view x)" "canonical_digest d" "op_BlobExists ops d x = (Ok False, x')"
    using bb.exists_False [OF that(1,2) view_run [OF view_BlobExists that(3)]] .
  show "blobs (view x') d = None"
    if "inv (view x)" "canonical_digest d" "op_GetBlob ops d x = (Err ErrBlobNotFound, x')"
    using bb.get_unknown [OF that(1,2) view_run [OF view_GetBlob that(3)]] .
  show "inv (view x') \<and> blobs (view x') = blobs (view x)"
    if "inv (view x)" "op_GetBlobSize ops d x = (rz, x')"
    using bb.size_inv [OF that(1) view_run [OF view_GetBlobSize that(2)]] .
  show "n = int (length b)"
    if "inv (view x)" "canonical_digest d" "op_GetBlobSize ops d x = (Ok n, x')" "blobs (view x) d = Some b"
    using bb.size_Ok [OF that(1,2) view_run [OF view_GetBlobSize that(3)] that(4)] .
  show "inv (view x')" if "inv (view x)" "canonical_digest d" "op_DeleteBlob ops d x = (r, x')"
    using bb.delete_inv [OF that(1,2) view_run [OF view_DeleteBlob that(3)]] .
  show "blobs (view x') = (blobs (view x))(d := None)"
    if "inv (view x)" "canonical_digest d" "op_DeleteBlob ops d x = (Ok u, x')"
    using bb.delete_Ok [OF that(1,2) view_run [OF view_DeleteBlob that(3)]] .
  show "blobs (view x') = blobs (view x)"
    if "inv (view x)" "canonical_digest d" "op_DeleteBlob ops d x = (Err er, x')"
    using bb.delete_Err [OF that(1,2) view_run [OF view_DeleteBlob that(3)]] .
qed

end
