(* ===== verification/MetricsStore.thy ===== *)
theory MetricsStore
  imports StoreView
begin

text \<open>
  \<open>internal/metrics\<close>: the counters and gauges of the registry, and \<open>StorageMetrics\<close>, the wrapper
  that records every storage operation. The wrapper is a store over the pair of the metrics and
  the wrapped store; it meets every contract the wrapped store meets.
\<close>

subsection \<open>The metrics registry\<close>

text \<open>A counter vector counts per label values; a histogram vector keeps what was observed per
  label values, the latest first. Durations and sizes are integers.\<close>

type_synonym counter_vec = "string list \<Rightarrow> nat"
type_synonym histogram_vec = "string list \<Rightarrow> int list"

definition Inc :: "string list \<Rightarrow> counter_vec \<Rightarrow> counter_vec" where
  "Inc labels c = c(labels := Suc (c labels))"

definition Observe :: "string list \<Rightarrow> int \<Rightarrow> histogram_vec \<Rightarrow> histogram_vec" where
  "Observe labels x h = h(labels := x # h labels)"

record Registry =
  httpRequestsTotal :: counter_vec
  httpRequestDuration :: histogram_vec
  httpRequestSize :: histogram_vec
  httpResponseSize :: histogram_vec
  blobOperationsTotal :: counter_vec
  manifestOperationsTotal :: counter_vec
  uploadSessionsActive :: int
  storageOperationDuration :: histogram_vec
  storageErrorsTotal :: counter_vec
  storageDiskUsage :: int
  repositoriesTotal :: int
  tagsTotal :: int

definition NewRegistry :: Registry where
  "NewRegistry = \<lparr>httpRequestsTotal = (\<lambda>_. 0), httpRequestDuration = (\<lambda>_. []), httpRequestSize = (\<lambda>_. []),
     httpResponseSize = (\<lambda>_. []), blobOperationsTotal = (\<lambda>_. 0), manifestOperationsTotal = (\<lambda>_. 0),
     uploadSessionsActive = 0, storageOperationDuration = (\<lambda>_. []), storageErrorsTotal = (\<lambda>_. 0),
     storageDiskUsage = 0, repositoriesTotal = 0, tagsTotal = 0\<rparr>"

definition RecordHTTPRequest :: "string \<Rightarrow> string \<Rightarrow> string \<Rightarrow> int \<Rightarrow> int \<Rightarrow> int \<Rightarrow> Registry \<Rightarrow> Registry" where
  "RecordHTTPRequest meth endpoint st duration requestSize responseSize m =
     (let m1 = m\<lparr>httpRequestsTotal := Inc [meth, endpoint, st] (httpRequestsTotal m),
                 httpRequestDuration := Observe [meth, endpoint] duration (httpRequestDuration m)\<rparr>;
          m2 = (if 0 < requestSize then
                  m1\<lparr>httpRequestSize := Observe [meth, endpoint] requestSize (httpRequestSize m1)\<rparr> else m1)
      in if 0 < responseSize then
           m2\<lparr>httpResponseSize := Observe [meth, endpoint] responseSize (httpResponseSize m2)\<rparr>
         else m2)"

definition RecordBlobOperation :: "string \<Rightarrow> string \<Rightarrow> string \<Rightarrow> Registry \<Rightarrow> Registry" where
  "RecordBlobOperation operation repository st m =
     m\<lparr>blobOperationsTotal := Inc [operation, repository, st] (blobOperationsTotal m)\<rparr>"

definition RecordManifestOperation :: "string \<Rightarrow> string \<Rightarrow> string \<Rightarrow> Registry \<Rightarrow> Registry" where
  "RecordManifestOperation operation repository st m =
     m\<lparr>manifestOperationsTotal := Inc [operation, repository, st] (manifestOperationsTotal m)\<rparr>"

definition SetUploadSessionsActive :: "int \<Rightarrow> Registry \<Rightarrow> Registry" where
  "SetUploadSessionsActive n m = m\<lparr>uploadSessionsActive := n\<rparr>"

definition IncUploadSessionsActive :: "Registry \<Rightarrow> Registry" where
  "IncUploadSessionsActive m = m\<lparr>uploadSessionsActive := uploadSessionsActive m + 1\<rparr>"

definition DecUploadSessionsActive :: "Registry \<Rightarrow> Registry" where
  "DecUploadSessionsActive m = m\<lparr>uploadSessionsActive := uploadSessionsActive m - 1\<rparr>"

definition RecordStorageOperation :: "string \<Rightarrow> string \<Rightarrow> int \<Rightarrow> Registry \<Rightarrow> Registry" where
  "RecordStorageOperation operation st duration m =
     m\<lparr>storageOperationDuration := Observe [operation, st] duration (storageOperationDuration m)\<rparr>"

definition RecordStorageError :: "string \<Rightarrow> string \<Rightarrow> Registry \<Rightarrow> Registry" where
  "RecordStorageError operation errorType m =
     m\<lparr>storageErrorsTotal := Inc [operation, errorType] (storageErrorsTotal m)\<rparr>"

definition SetStorageDiskUsage :: "int \<Rightarrow> Registry \<Rightarrow> Registry" where
  "SetStorageDiskUsage n m = m\<lparr>storageDiskUsage := n\<rparr>"

definition SetRepositoriesTotal :: "int \<Rightarrow> Registry \<Rightarrow> Registry" where
  "SetRepositoriesTotal n m = m\<lparr>repositoriesTotal := n\<rparr>"

definition SetTagsTotal :: "int \<Rightarrow> Registry \<Rightarrow> Registry" where
  "SetTagsTotal n m = m\<lparr>tagsTotal := n\<rparr>"

subsection \<open>Endpoint labels\<close>

text \<open>The loop of \<open>splitPath\<close>: what is left of the path and the segment read so far.\<close>

fun splitPath_loop :: "string \<Rightarrow> string \<Rightarrow> string list" where
  "splitPath_loop seg [] = (if seg = [] then [] else [seg])"
| "splitPath_loop seg (c # cs) =
     (if c = CHR ''/'' then (if seg = [] then splitPath_loop [] cs else seg # splitPath_loop [] cs)
      else splitPath_loop (seg @ [c]) cs)"

definition splitPath :: "string \<Rightarrow> string list" where
  "splitPath path = splitPath_loop [] path"

definition NormalizeEndpoint :: "string \<Rightarrow> string" where
  "NormalizeEndpoint path =
     (if path = ''/v2/'' then ''/v2/''
      else if HasPrefix path ''/v2/'' then
        (case splitPath (drop 4 path) of
           [] \<Rightarrow> ''/v2/''
         | [_, a] \<Rightarrow> if a = ''tags'' then ''/v2/{name}/tags'' else path
         | [_, a, b] \<Rightarrow>
             if a = ''blobs'' then ''/v2/{name}/blobs/{digest}''
             else if a = ''manifests'' then ''/v2/{name}/manifests/{reference}''
             else if a = ''tags'' \<and> b = ''list'' then ''/v2/{name}/tags/list''
             else path
         | [_, a, b, _] \<Rightarrow>
             if a = ''blobs'' \<and> b = ''uploads'' then ''/v2/{name}/blobs/uploads/{uuid}'' else path
         | _ \<Rightarrow> path)
      else path)"

subsection \<open>The storage wrapper\<close>

definition classifyError :: "error \<Rightarrow> string" where
  "classifyError er =
     (case er of
        ErrBlobNotFound \<Rightarrow> ''blob_not_found''
      | ErrManifestNotFound \<Rightarrow> ''manifest_not_found''
      | ErrUploadNotFound \<Rightarrow> ''upload_not_found''
      | ErrInvalidDigest \<Rightarrow> ''invalid_digest''
      | ErrDigestMismatch \<Rightarrow> ''digest_mismatch''
      | ErrInvalidReference \<Rightarrow> ''invalid_reference''
      | _ \<Rightarrow> ''unknown'')"

definition recordOperation :: "string \<Rightarrow> int \<Rightarrow> error + 'a \<Rightarrow> Registry \<Rightarrow> Registry" where
  "recordOperation operation duration res m =
     (case res of
        Err er \<Rightarrow> RecordStorageOperation operation ''error'' duration
                   (RecordStorageError operation (classifyError er) m)
      | Ok _ \<Rightarrow> RecordStorageOperation operation ''success'' duration m)"

text \<open>An operation of the wrapper: run the wrapped one, then record it. \<open>el op\<close> is the time the
  call of that operation took.\<close>

definition recorded :: "(string \<Rightarrow> int) \<Rightarrow> string \<Rightarrow> ('s \<Rightarrow> (error + 'a) \<times> 's) \<Rightarrow>
    Registry \<times> 's \<Rightarrow> (error + 'a) \<times> (Registry \<times> 's)" where
  "recorded el operation f ms =
     (case f (snd ms) of (res, s1) \<Rightarrow> (res, (recordOperation operation (el operation) res (fst ms), s1)))"

definition recorded_manifest :: "(string \<Rightarrow> int) \<Rightarrow> string \<Rightarrow> string \<Rightarrow> string \<Rightarrow> ('s \<Rightarrow> (error + 'a) \<times> 's) \<Rightarrow>
    Registry \<times> 's \<Rightarrow> (error + 'a) \<times> (Registry \<times> 's)" where
  "recorded_manifest el operation kind repo f ms =
     (case recorded el operation f ms of (res, (m, s1)) \<Rightarrow>
        (res, (RecordManifestOperation kind repo (if isOk res then ''success'' else ''error'') m, s1)))"

definition metrics_CreateUpload :: "(string \<Rightarrow> int) \<Rightarrow> 's store_ops \<Rightarrow> string \<Rightarrow>
    Registry \<times> 's \<Rightarrow> (error + Upload) \<times> (Registry \<times> 's)" where
  "metrics_CreateUpload el ops repo ms =
     (case recorded el ''create_upload'' (op_CreateUpload ops repo) ms of (res, (m, s1)) \<Rightarrow>
        (res, (if isOk res then IncUploadSessionsActive m else m, s1)))"

definition metrics_CompleteUpload :: "(string \<Rightarrow> int) \<Rightarrow> 's store_ops \<Rightarrow> string \<Rightarrow> string \<Rightarrow>
    Registry \<times> 's \<Rightarrow> (error + unit) \<times> (Registry \<times> 's)" where
  "metrics_CompleteUpload el ops uploadID digest ms =
     (case recorded el ''complete_upload'' (op_CompleteUpload ops uploadID digest) ms of (res, (m, s1)) \<Rightarrow>
        (let m1 = DecUploadSessionsActive m in
         case res of
           Err er \<Rightarrow> (Err er, (m1, s1))
         | Ok u \<Rightarrow>
             (case op_GetUpload ops uploadID s1 of
                (Ok upload, s2) \<Rightarrow> (Ok u, (RecordBlobOperation ''upload'' (u_Repository upload) ''success'' m1, s2))
              | (Err _, s2) \<Rightarrow> (Ok u, (m1, s2)))))"

definition metrics_CancelUpload :: "(string \<Rightarrow> int) \<Rightarrow> 's store_ops \<Rightarrow> string \<Rightarrow>
    Registry \<times> 's \<Rightarrow> (error + unit) \<times> (Registry \<times> 's)" where
  "metrics_CancelUpload el ops uploadID ms =
     (case recorded el ''cancel_upload'' (op_CancelUpload ops uploadID) ms of (res, (m, s1)) \<Rightarrow>
        (res, (DecUploadSessionsActive m, s1)))"

definition metrics_ops :: "(string \<Rightarrow> int) \<Rightarrow> 's store_ops \<Rightarrow> (Registry \<times> 's) store_ops" where
  "metrics_ops el ops =
     \<lparr>op_GetBlob = (\<lambda>d. recorded el ''get_blob'' (op_GetBlob ops d)),
      op_PutBlob = (\<lambda>d rd. recorded el ''put_blob'' (op_PutBlob ops d rd)),
      op_BlobExists = (\<lambda>d. recorded el ''blob_exists'' (op_BlobExists ops d)),
      op_DeleteBlob = (\<lambda>d. recorded el ''delete_blob'' (op_DeleteBlob ops d)),
      op_GetBlobSize = (\<lambda>d. recorded el ''get_blob_size'' (op_GetBlobSize ops d)),
      op_GetManifest = (\<lambda>repo ref. recorded_manifest el ''get_manifest'' ''get'' repo (op_GetManifest ops repo ref)),
      op_PutManifest = (\<lambda>repo ref m. recorded_manifest el ''put_manifest'' ''put'' repo (op_PutManifest ops repo ref m)),
      op_DeleteManifest = (\<lambda>repo ref. recorded_manifest el ''delete_manifest'' ''delete'' repo (op_DeleteManifest ops repo ref)),
      op_ListTags = (\<lambda>repo. recorded el ''list_tags'' (op_ListTags ops repo)),
      op_ManifestExists = (\<lambda>repo ref. recorded el ''manifest_exists'' (op_ManifestExists ops repo ref)),
      op_GetReferrers = (\<lambda>repo d. recorded el ''get_referrers'' (op_GetReferrers ops repo d)),
      op_CreateUpload = metrics_CreateUpload el ops,
      op_GetUpload = (\<lambda>i. recorded el ''get_upload'' (op_GetUpload ops i)),
      op_WriteUploadChunk = (\<lambda>i off rd. recorded el ''write_upload_chunk'' (op_WriteUploadChunk ops i off rd)),
      op_CompleteUpload = metrics_CompleteUpload el ops,
      op_CancelUpload = metrics_CancelUpload el ops,
      op_GetUploadStatus = (\<lambda>i. recorded el ''get_upload_status'' (op_GetUploadStatus ops i))\<rparr>"

subsection \<open>The wrapper is transparent\<close>

lemma metrics_view:
  assumes "\<And>i s. snd (op_GetUpload ops i s) = s"
  shows "store_view (metrics_ops el ops) ops snd"
proof -
  have getu: "op_GetUpload ops i s = (fst (op_GetUpload ops i s), s)" for i s
    using assms [of i s] by (metis prod.collapse)
  have complete: "op_CompleteUpload ops i d (snd x) = through snd (metrics_CompleteUpload el ops i d x)" for i d x
  proof -
    obtain res s1 where run: "op_CompleteUpload ops i d (snd x) = (res, s1)" by fastforce
    obtain g where g: "op_GetUpload ops i s1 = (g, s1)" using getu by blast
    show ?thesis
      using run g
      by (cases res; cases g) (simp_all add: metrics_CompleteUpload_def recorded_def Let_def)
  qed
  show ?thesis
    by unfold_locales
      (simp_all add: metrics_ops_def complete recorded_def recorded_manifest_def metrics_CreateUpload_def
        metrics_CancelUpload_def split: prod.splits)
qed

interpretation met: viewed_blobs "metrics_ops el (fs_ops e)" "fs_ops e" snd "fs_inv e" fs_blobs for el e
proof -
  have "snd (op_GetUpload (fs_ops e) i s) = s" for i s
    by (simp add: GetUpload_def split: option.splits)
  then show "viewed_blobs (metrics_ops el (fs_ops e)) (fs_ops e) snd (fs_inv e) fs_blobs"
    by (intro viewed_blobs.intro metrics_view fsb.blob_store_axioms)
qed


subsection \<open>What is counted\<close>

text \<open>Every storage call is observed exactly once, in the duration histogram of its name and
  outcome, and a call that fails is counted once under its class of error; the call itself is not
  disturbed.\<close>

theorem operations_recorded:
  "recorded el operation f (m, s) =
     (fst (f s), (case fst (f s) of
        Ok _ \<Rightarrow> m\<lparr>storageOperationDuration := Observe [operation, ''success''] (el operation) (storageOperationDuration m)\<rparr>
      | Err er \<Rightarrow> m\<lparr>storageErrorsTotal := Inc [operation, classifyError er] (storageErrorsTotal m),
          storageOperationDuration := Observe [operation, ''error''] (el operation) (storageOperationDuration m)\<rparr>),
      snd (f s))"
  by (cases "f s"; cases "fst (f s)")
    (simp_all add: recorded_def recordOperation_def RecordStorageOperation_def RecordStorageError_def)

text \<open>The gauge of active sessions after an upload operation.\<close>

lemma recordOperation_gauge [simp]:
  "uploadSessionsActive (recordOperation op n res m) = uploadSessionsActive m"
  "blobOperationsTotal (recordOperation op n res m) = blobOperationsTotal m"
  by (cases res; simp add: recordOperation_def RecordStorageOperation_def RecordStorageError_def)+

lemma CreateUpload_gauge:
  assumes "fs_inv e s" and "metrics_CreateUpload el (fs_ops e) repo (m, s) = (Ok up, (m1, s1))"
  shows "uploadSessionsActive m1 = uploadSessionsActive m + 1" and "fs_sess s1 = (fs_sess s)(u_ID up \<mapsto> (0, []))"
proof -
  from assms(2) have c: "op_CreateUpload (fs_ops e) repo s = (Ok up, s1)"
    and g: "uploadSessionsActive m1 = uploadSessionsActive m + 1"
    by (auto simp: metrics_CreateUpload_def recorded_def IncUploadSessionsActive_def split: prod.splits if_splits)
  show "uploadSessionsActive m1 = uploadSessionsActive m + 1" by (rule g)
  show "fs_sess s1 = (fs_sess s)(u_ID up \<mapsto> (0, []))" by (rule fsu.create_Ok [OF assms(1) c])
qed

text \<open>The gauge of active upload sessions: completing a session takes one away from it whether it
  succeeds, and the session is gone, or fails, and the session stays; so each failed attempt leaves
  the gauge one further below the number of sessions. The count of completed blob uploads never
  moves: the session is gone when its repository is looked up.\<close>

theorem session_gauge:
  assumes "fs_inv e s" and "fs_sess s i = Some x"
    and "metrics_CompleteUpload el (fs_ops e) i d (m, s) = (r, (m', s'))"
  shows "uploadSessionsActive m' = uploadSessionsActive m - 1 \<and> blobOperationsTotal m' = blobOperationsTotal m \<and>
    fs_sess s' = (case r of Ok _ \<Rightarrow> (fs_sess s)(i := None) | Err _ \<Rightarrow> fs_sess s)"
proof -
  obtain n c where x: "fs_sess s i = Some (n, c)" using assms(2) by (cases x) simp
  obtain q t where run: "op_CompleteUpload (fs_ops e) i d s = (q, t)" by fastforce
  show ?thesis
  proof (cases q)
    case (Inl er)
    then have "r = Err er" "t = s'" "m' = DecUploadSessionsActive (recordOperation ''complete_upload'' (el ''complete_upload'') q m)"
      using run assms(3) by (auto simp: metrics_CompleteUpload_def recorded_def Let_def)
    then show ?thesis
      using fsu.complete_Err [OF assms(1) x run [unfolded Inl]] by (simp add: DecUploadSessionsActive_def)
  next
    case (Inr u)
    note fin = fsu.complete_Ok [OF assms(1) x run [unfolded Inr]]
    have "op_GetUpload (fs_ops e) i t = (Err ErrUploadNotFound, t)"
      using fsu.getu_none [OF fsu.complete_inv [OF assms(1) run]] fin by simp
    with run assms(3) Inr have "r = Ok u" "t = s'"
      "m' = DecUploadSessionsActive (recordOperation ''complete_upload'' (el ''complete_upload'') q m)"
      by (auto simp: metrics_CompleteUpload_def recorded_def Let_def)
    then show ?thesis using fin by (simp add: DecUploadSessionsActive_def)
  qed
qed

theorem session_gauge_witness:
  "\<exists>i s m' s' r. fs_sess s i = Some (2, [1, 2]) \<and>
     metrics_CompleteUpload (\<lambda>_. 5) (fs_ops calm) i ''sha256:zz'' (NewRegistry, s) = (r, (m', s')) \<and>
     uploadSessionsActive m' = - 1"
proof -
  obtain i s where inv: "fs_inv calm s" and sess: "fs_sess s i = Some (2, [1, 2])"
    using fresh_session by blast
  obtain r m' s' where run: "metrics_CompleteUpload (\<lambda>_. 5) (fs_ops calm) i ''sha256:zz'' (NewRegistry, s) = (r, (m', s'))"
    by (metis surj_pair)
  have "uploadSessionsActive m' = - 1" using session_gauge [OF inv sess run] by (simp add: NewRegistry_def)
  then show ?thesis using run sess by blast
qed

subsection \<open>Labels\<close>

lemma splitPath_loop_eq:
  "splitPath_loop seg path = filter (\<lambda>p. p \<noteq> []) (case Split CHR ''/'' path of [] \<Rightarrow> [] | p # ps \<Rightarrow> (seg @ p) # ps)"
  by (induction seg path rule: splitPath_loop.induct) (auto split: list.splits)

lemma splitPath_eq: "splitPath path = filter (\<lambda>p. p \<noteq> []) (Split CHR ''/'' path)"
  by (simp add: splitPath_def splitPath_loop_eq split: list.splits)

lemma splitPath_two:
  "CHR ''/'' \<notin> set a \<Longrightarrow> a \<noteq> [] \<Longrightarrow> splitPath (a @ CHR ''/'' # b) = a # splitPath b"
  by (simp add: splitPath_eq Split_append_sep)

lemma splitPath_one: "CHR ''/'' \<notin> set a \<Longrightarrow> a \<noteq> [] \<Longrightarrow> splitPath a = [a]"
  by (simp add: splitPath_eq Split_no_sep)

text \<open>Endpoint labels: the segments of a path are the non-empty parts between its slashes; for
  a repository name of one component the label of a blob or manifest path is the route's
  pattern, whatever the digest; for a name of two components it is the path itself.\<close>

theorem endpoint_labels:
  assumes "CHR ''/'' \<notin> set a" and "a \<noteq> []" and "CHR ''/'' \<notin> set b" and "b \<noteq> []" and "b \<noteq> ''blobs''"
    and "CHR ''/'' \<notin> set d" and "d \<noteq> []"
  shows "splitPath p = filter (\<lambda>q. q \<noteq> []) (Split CHR ''/'' p) \<and>
    NormalizeEndpoint (''/v2/'' @ a @ ''/blobs/'' @ d) = ''/v2/{name}/blobs/{digest}'' \<and>
    NormalizeEndpoint (''/v2/'' @ a @ ''/manifests/'' @ d) = ''/v2/{name}/manifests/{reference}'' \<and>
    NormalizeEndpoint (''/v2/'' @ a @ ''/'' @ b @ ''/blobs/'' @ d) = ''/v2/'' @ a @ ''/'' @ b @ ''/blobs/'' @ d"
proof -
  have parts: "splitPath (a @ ''/blobs/'' @ d) = [a, ''blobs'', d]"
    "splitPath (a @ ''/manifests/'' @ d) = [a, ''manifests'', d]"
    "splitPath (a @ ''/'' @ b @ ''/blobs/'' @ d) = [a, b, ''blobs'', d]"
    using assms splitPath_two [of "''blobs''" d] splitPath_two [of "''manifests''" d]
    by (simp_all add: splitPath_two splitPath_one)
  have label: "NormalizeEndpoint (''/v2/'' @ q) =
      (case xs of [_, x, _] \<Rightarrow> if x = ''blobs'' then ''/v2/{name}/blobs/{digest}''
         else if x = ''manifests'' then ''/v2/{name}/manifests/{reference}'' else NormalizeEndpoint (''/v2/'' @ q)
       | [_, x, y, _] \<Rightarrow> if x = ''blobs'' \<and> y = ''uploads'' then ''/v2/{name}/blobs/uploads/{uuid}'' else ''/v2/'' @ q
       | _ \<Rightarrow> NormalizeEndpoint (''/v2/'' @ q))" if "splitPath q = xs" "q \<noteq> []" for q xs
  proof -
    have "HasPrefix (''/v2/'' @ q) ''/v2/''" by (rule HasPrefix_append)
    moreover have "drop 4 (''/v2/'' @ q) = q" "''/v2/'' @ q \<noteq> ''/v2/''" using that(2) by simp_all
    ultimately show ?thesis using that(1) unfolding NormalizeEndpoint_def
      by (simp only: if_True if_False simp_thms) (simp split: list.splits)
  qed
  have "NormalizeEndpoint (''/v2/'' @ a @ ''/blobs/'' @ d) = ''/v2/{name}/blobs/{digest}''"
    by (subst label [OF parts(1)]) simp_all
  moreover have "NormalizeEndpoint (''/v2/'' @ a @ ''/manifests/'' @ d) = ''/v2/{name}/manifests/{reference}''"
    by (subst label [OF parts(2)]) simp_all
  moreover have "NormalizeEndpoint (''/v2/'' @ a @ ''/'' @ b @ ''/blobs/'' @ d) = ''/v2/'' @ a @ ''/'' @ b @ ''/blobs/'' @ d"
    by (subst label [OF parts(3)]) (simp_all add: assms(5))
  ultimately show ?thesis using splitPath_eq by blast
qed

theorem endpoint_labels_witness:
  "NormalizeEndpoint ''/v2/app/blobs/sha256:ab'' = ''/v2/{name}/blobs/{digest}'' \<and>
   NormalizeEndpoint ''/v2/lib/app/blobs/sha256:ab'' = ''/v2/lib/app/blobs/sha256:ab''"
  using endpoint_labels [of "''lib''" "''app''" "''sha256:ab''"] endpoint_labels [of "''app''" "''x''" "''sha256:ab''"]
  by simp

end
