(* ===== verification/Middleware.thy ===== *)
theory Middleware
  imports Routes MetricsStore
begin

text \<open>
  \<open>internal/api/middleware\<close> and \<open>internal/metrics/middleware.go\<close>: handlers as functions of request,
  response writer and state, what wraps them, and how \<open>Chain\<close> composes the wrappers.
\<close>

type_synonym 's handler = "request \<Rightarrow> rw \<Rightarrow> 's \<Rightarrow> rw \<times> 's"

definition Chain :: "('s handler \<Rightarrow> 's handler) list \<Rightarrow> 's handler \<Rightarrow> 's handler" where
  "Chain middlewares handler = foldr (\<lambda>m h. m h) middlewares handler"

subsection \<open>Validation\<close>

text \<open>The expressions of \<open>validation.go\<close>, compiled when the package is initialised.\<close>

definition repository_pattern :: string where
  "repository_pattern =
     (let part = ''[a-z0-9]+(('' @ [bs] @ ''.|_|__|-+)[a-z0-9]+)*'' in
      ''^'' @ part @ ''('' @ [bs] @ ''/'' @ part @ '')*$'')"

definition tag_pattern :: string where
  "tag_pattern = ''^[a-zA-Z0-9_][a-zA-Z0-9._-]{0,127}$''"

definition digest_pattern :: string where
  "digest_pattern = ''^[a-zA-Z0-9+.-]+:[a-fA-F0-9]+$''"

definition must_match :: "string \<Rightarrow> string \<Rightarrow> bool" where
  "must_match pattern s = (case Compile pattern of None \<Rightarrow> False | Some re \<Rightarrow> MatchString re s)"

definition isValidRepositoryName :: "string \<Rightarrow> bool" where
  "isValidRepositoryName name =
     (if length name = 0 \<or> 255 < length name then False
      else if Contains name ''..'' \<or> HasPrefix name ''/'' \<or> HasSuffix name ''/'' then False
      else must_match repository_pattern name)"

definition isValidTag :: "string \<Rightarrow> bool" where
  "isValidTag tag = (if length tag = 0 \<or> 128 < length tag then False else must_match tag_pattern tag)"

definition middleware_isValidDigest :: "string \<Rightarrow> bool" where
  "middleware_isValidDigest digest = (if length digest = 0 then False else must_match digest_pattern digest)"

definition isValidReference :: "string \<Rightarrow> bool" where
  "isValidReference reference =
     (if length reference = 0 then False
      else if Contains reference '':'' then middleware_isValidDigest reference
      else isValidTag reference)"

definition validated :: "string \<Rightarrow> (string \<Rightarrow> bool) \<Rightarrow> (string \<Rightarrow> OCIError) \<Rightarrow> 's handler \<Rightarrow> 's handler" where
  "validated param valid complaint nxt r w s =
     (let v = GetParam r param in
      if v = [] then nxt r w s
      else if \<not> valid v then (WriteErrorResponse 400 [complaint v] w, s)
      else nxt r w s)"

definition ValidateRepository :: "'s handler \<Rightarrow> 's handler" where
  "ValidateRepository = validated ''name'' isValidRepositoryName NameInvalid"

definition ValidateReference :: "'s handler \<Rightarrow> 's handler" where
  "ValidateReference =
     validated ''reference'' isValidReference (NewOCIError ''REFERENCE_INVALID'' ''invalid reference'')"

definition ValidateDigest :: "'s handler \<Rightarrow> 's handler" where
  "ValidateDigest = validated ''digest'' middleware_isValidDigest DigestInvalid"

subsection \<open>Headers\<close>

definition cors_headers :: "rw \<Rightarrow> rw" where
  "cors_headers w =
     SetHeader ''Access-Control-Allow-Headers''
       ''Authorization, Content-Type, Content-Length, Content-Range, Docker-Content-Digest''
     (SetHeader ''Access-Control-Allow-Methods'' ''GET, POST, PUT, PATCH, DELETE, HEAD, OPTIONS''
     (SetHeader ''Access-Control-Allow-Origin'' ''*'' w))"

definition SetCORSHeaders :: "'s handler \<Rightarrow> 's handler" where
  "SetCORSHeaders nxt r w s =
     (let w1 = cors_headers w in
      if r_Method r = ''OPTIONS'' then (WriteHeader 200 w1, s) else nxt r w1 s)"

definition SetDockerHeaders :: "'s handler \<Rightarrow> 's handler" where
  "SetDockerHeaders nxt r w s = nxt r (SetHeader ''Docker-Distribution-API-Version'' ''registry/2.0'' w) s"

subsection \<open>Logging and metrics\<close>

text \<open>The state of the server: the metrics registry, the store, and the log. What a request took is a
  parameter; the bytes written are those the wrapped writer counts.\<close>

record log_entry =
  le_method :: string
  le_path :: string
  le_query :: url_values
  le_status :: nat
  le_size :: nat
  le_duration :: int
  le_agent :: string

record 's web =
  wb_registry :: Registry
  wb_store :: 's
  wb_log :: "log_entry list"

definition written :: "rw \<Rightarrow> rw \<Rightarrow> nat" where
  "written w w' = length (w_body w') - length (w_body w)"

definition RequestLogger :: "(request \<Rightarrow> int) \<Rightarrow> 's web handler \<Rightarrow> 's web handler" where
  "RequestLogger took nxt r w x =
     (case nxt r w x of (w1, x1) \<Rightarrow>
        (w1, x1\<lparr>wb_log := wb_log x1 @
           [\<lparr>le_method = r_Method r, le_path = r_Path r, le_query = r_Query r, le_status = status w1,
             le_size = written w w1, le_duration = took r, le_agent = h_get (r_Header r) ''User-Agent''\<rparr>]\<rparr>))"

definition HTTPMetrics :: "bool \<Rightarrow> (request \<Rightarrow> int) \<Rightarrow> 's web handler \<Rightarrow> 's web handler" where
  "HTTPMetrics registered took nxt r w x =
     (if \<not> registered then nxt r w x
      else
        (let requestSize = (if r_ContentLength r < 0 then 0 else r_ContentLength r) in
         case nxt r w x of (w1, x1) \<Rightarrow>
           (w1, x1\<lparr>wb_registry :=
              RecordHTTPRequest (r_Method r) (NormalizeEndpoint (r_Path r)) (Itoa (int (status w1))) (took r)
                requestSize (int (written w w1)) (wb_registry x1)\<rparr>)))"

definition SkipMetricsEndpoint :: "string \<Rightarrow> 's handler \<Rightarrow> 's handler" where
  "SkipMetricsEndpoint metricsPath nxt r w s =
     (if r_Path r = metricsPath then nxt r w s else nxt r w s)"

subsection \<open>The server of \<open>main.go\<close>\<close>

text \<open>The handlers over a store whose state is the metrics registry and the state of the store below.\<close>

definition run_endpoint :: "(Registry \<times> 's) store_ops \<Rightarrow> endpoint \<Rightarrow> 's web handler" where
  "run_endpoint ops ep r w x =
     (case serve ep ops r w (wb_registry x, wb_store x) of
        (w1, m1, s1) \<Rightarrow> (w1, x\<lparr>wb_registry := m1, wb_store := s1\<rparr>))"

definition web_middlewares :: "(request \<Rightarrow> int) \<Rightarrow> ('s web handler \<Rightarrow> 's web handler) list" where
  "web_middlewares took =
     [SetCORSHeaders, SetDockerHeaders, RequestLogger took, ValidateRepository, ValidateReference, ValidateDigest]"

definition metered_middlewares :: "string \<Rightarrow> (request \<Rightarrow> int) \<Rightarrow> ('s web handler \<Rightarrow> 's web handler) list" where
  "metered_middlewares path took = [SkipMetricsEndpoint path, HTTPMetrics True took] @ web_middlewares took"

definition octoserve :: "('s web handler \<Rightarrow> 's web handler) list \<Rightarrow> (Registry \<times> 's) store_ops \<Rightarrow> 's web handler" where
  "octoserve middlewares ops = Chain middlewares (Router_ServeHTTP (run_endpoint ops) octo_router)"

end
