(* ===== verification/Server.thy ===== *)
theory Server
  imports Middleware FsTrace
begin

text \<open>
  The server as a whole: what a handler does to its store is a sequence of store calls, so a property
  of the store every call keeps is one every request keeps, through the router and the middleware.
\<close>

subsection \<open>Properties of the store that every call keeps\<close>

text \<open>What a request must satisfy to touch manifests safely, as the router guarantees but for the
  references \<open>.\<close> and \<open>..\<close>. Reading counts: a store may keep what it fetches elsewhere.\<close>

definition safe_params :: "endpoint \<Rightarrow> request \<Rightarrow> bool" where
  "safe_params ep r \<longleftrightarrow>
     ep \<in> {EpGetManifest, EpHeadManifest, EpPutManifest, EpDeleteManifest} \<longrightarrow> repo_ok (GetParam r ''name'') \<and> safe_comp (GetParam r ''reference'')"

locale kept =
  fixes ops :: "'s store_ops" and I :: "'s \<Rightarrow> bool"
  assumes keep_GetBlob: "I s \<Longrightarrow> I (snd (op_GetBlob ops d s))"
    and keep_PutBlob: "I s \<Longrightarrow> I (snd (op_PutBlob ops d rd s))"
    and keep_BlobExists: "I s \<Longrightarrow> I (snd (op_BlobExists ops d s))"
    and keep_DeleteBlob: "I s \<Longrightarrow> I (snd (op_DeleteBlob ops d s))"
    and keep_GetBlobSize: "I s \<Longrightarrow> I (snd (op_GetBlobSize ops d s))"
    and keep_GetManifest: "I s \<Longrightarrow> repo_ok repo \<Longrightarrow> safe_comp ref \<Longrightarrow> I (snd (op_GetManifest ops repo ref s))"
    and keep_PutManifest: "I s \<Longrightarrow> man_args repo ref m \<Longrightarrow> I (snd (op_PutManifest ops repo ref m s))"
    and keep_DeleteManifest: "I s \<Longrightarrow> repo_ok repo \<Longrightarrow> safe_comp ref \<Longrightarrow> I (snd (op_DeleteManifest ops repo ref s))"
    and keep_ListTags: "I s \<Longrightarrow> I (snd (op_ListTags ops repo s))"
    and keep_ManifestExists: "I s \<Longrightarrow> I (snd (op_ManifestExists ops repo ref s))"
    and keep_GetReferrers: "I s \<Longrightarrow> I (snd (op_GetReferrers ops repo d s))"
    and keep_CreateUpload: "I s \<Longrightarrow> I (snd (op_CreateUpload ops repo s))"
    and keep_GetUpload: "I s \<Longrightarrow> I (snd (op_GetUpload ops i s))"
    and keep_WriteUploadChunk: "I s \<Longrightarrow> I (snd (op_WriteUploadChunk ops i off rd s))"
    and keep_CompleteUpload: "I s \<Longrightarrow> I (snd (op_CompleteUpload ops i d s))"
    and keep_CancelUpload: "I s \<Longrightarrow> I (snd (op_CancelUpload ops i s))"
    and keep_GetUploadStatus: "I s \<Longrightarrow> I (snd (op_GetUploadStatus ops i s))"
begin

lemmas keeps = keep_GetBlob keep_PutBlob keep_BlobExists keep_DeleteBlob keep_GetBlobSize keep_GetManifest
  keep_ListTags keep_ManifestExists keep_GetReferrers keep_CreateUpload keep_GetUpload keep_WriteUploadChunk
  keep_CompleteUpload keep_CancelUpload keep_GetUploadStatus

lemma keep_bind:
  assumes "I (snd p)" and "\<And>x s'. I s' \<Longrightarrow> I (snd (f x s'))"
  shows "I (snd (case p of (x, s') \<Rightarrow> f x s'))"
  using assms by (cases p) simp

lemma keep_blob_handlers:
  assumes "I s"
  shows "I (snd (BlobHandler_GetBlob ops r w s))" "I (snd (BlobHandler_HeadBlob ops r w s))"
    "I (snd (BlobHandler_DeleteBlob ops r w s))"
  unfolding BlobHandler_GetBlob_def BlobHandler_HeadBlob_def BlobHandler_DeleteBlob_def Let_def
  using assms by (auto intro!: keep_bind keeps split: sum.split bool.split)

lemma keep_start:
  assumes "I s"
  shows "I (snd (handleMonolithicUpload ops r repo d w s))" "I (snd (handleBlobMount ops repo d w s))"
  unfolding handleMonolithicUpload_def handleBlobMount_def
  using assms by (auto intro!: keep_bind keeps split: sum.split bool.split)

lemma keep_upload_handlers:
  assumes "I s"
  shows "I (snd (StartUpload ops r w s))" "I (snd (PatchUpload ops r w s))"
    "I (snd (UploadHandler_GetUpload ops r w s))" "I (snd (DeleteUpload ops r w s))"
  unfolding StartUpload_def PatchUpload_def UploadHandler_GetUpload_def DeleteUpload_def Let_def
  using assms by (auto intro!: keep_bind keeps keep_start split: sum.split)

lemma keep_final_chunk:
  assumes "I s"
  shows "I (snd (put_final_chunk ops r i w s))"
  unfolding put_final_chunk_def Let_def
  using assms by (auto intro!: keep_bind keeps split: sum.split)

lemma keep_PutUpload:
  assumes "I s"
  shows "I (snd (PutUpload ops r w s))"
  unfolding PutUpload_def Let_def
  using assms by (auto intro!: keep_bind keeps keep_final_chunk split: sum.split)

lemma keep_layers: "I s \<Longrightarrow> I (snd (verify_layers ops ls s))"
  by (induction ls arbitrary: s) (auto intro!: keep_bind keeps split: sum.split bool.split)

lemma keep_verify: "I s \<Longrightarrow> I (snd (verifyManifestBlobs ops m s))"
  unfolding verifyManifestBlobs_def Let_def
  by (auto intro!: keep_bind keeps keep_layers split: sum.split bool.split)

lemma keep_manifest_handlers:
  assumes "I s" and "repo_ok (GetParam r ''name'')" and "safe_comp (GetParam r ''reference'')"
  shows "I (snd (ManifestHandler_GetManifest ops r w s))" "I (snd (ManifestHandler_HeadManifest ops r w s))"
  unfolding ManifestHandler_GetManifest_def ManifestHandler_HeadManifest_def Let_def
  using assms by (auto intro!: keep_bind keeps split: sum.split bool.split)

lemma keep_referrers:
  assumes "I s"
  shows "I (snd (ReferrersHandler_GetReferrers ops r w s))"
  unfolding ReferrersHandler_GetReferrers_def Let_def
  using assms by (auto intro!: keep_bind keeps split: sum.split bool.split)

lemma keep_tags_handler:
  assumes "I s"
  shows "I (snd (ManifestHandler_ListTags ops r w s))"
  using keep_ListTags [OF assms, of "GetParam r ''name''"]
  by (auto simp: ManifestHandler_ListTags_def Let_def split: prod.split sum.split)

lemma keep_manifest_changes:
  assumes "I s" and "repo_ok (GetParam r ''name'')" and "safe_comp (GetParam r ''reference'')"
  shows "I (snd (ManifestHandler_PutManifest ops r w s))" "I (snd (ManifestHandler_DeleteManifest ops r w s))"
proof -
  have "man_args (GetParam r ''name'') (GetParam r ''reference'') (put_manifest_of r m data)" for m data
    using assms by (simp add: man_args_def put_manifest_of_def calculateDigest_def Let_def)
  then show "I (snd (ManifestHandler_PutManifest ops r w s))"
    unfolding ManifestHandler_PutManifest_def Let_def
    using assms(1) by (auto intro!: keep_bind keep_PutManifest keep_verify split: sum.split option.split)
  show "I (snd (ManifestHandler_DeleteManifest ops r w s))"
    unfolding ManifestHandler_DeleteManifest_def Let_def
    using assms by (auto intro!: keep_bind keeps keep_DeleteManifest split: sum.split bool.split)
qed

lemma keep_serve:
  assumes "I s" and "safe_params ep r"
  shows "I (snd (serve ep ops r w s))"
  using assms
  by (cases ep) (simp_all add: safe_params_def keep_blob_handlers keep_upload_handlers keep_PutUpload
      keep_manifest_handlers keep_referrers keep_tags_handler keep_manifest_changes)

end

text \<open>Being reached from a fresh start of the filesystem store is such a property, and a view keeps it.\<close>

lemma fs_step_reachable: "reachable base t s \<Longrightarrow> (\<And>r s'. p = (r, s') \<Longrightarrow> fs_step c s s') \<Longrightarrow> reachable base t (snd p)"
  by (cases p) (auto intro: reachable.step)

lemma reads_reachable: "reachable base t s \<Longrightarrow> (\<And>r s'. p = (r, s') \<Longrightarrow> s' = s) \<Longrightarrow> reachable base t (snd p)"
  by (cases p) auto

lemma view_keep: "b = apsnd view p \<Longrightarrow> I (snd b) \<Longrightarrow> I (view (snd p))"
  by (cases p) simp

interpretation run: kept "fs_ops e" "\<lambda>s. digest_ok e \<and> uuid_ok e \<and> reachable base t s" for e base t
proof (unfold_locales, unfold fs_ops_sel)
  fix s d rd repo ref m i off
  assume "digest_ok e \<and> uuid_ok e \<and> reachable base t s"
  then have e: "digest_ok e" "uuid_ok e" and s: "reachable base t s" by simp_all
  note step = fs_step_reachable [OF s] and read = reads_reachable [OF s]
  show "digest_ok e \<and> uuid_ok e \<and> reachable base t (snd (GetBlob e d s))"
    "digest_ok e \<and> uuid_ok e \<and> reachable base t (snd (BlobExists e d s))"
    "digest_ok e \<and> uuid_ok e \<and> reachable base t (snd (GetBlobSize e d s))"
    "digest_ok e \<and> uuid_ok e \<and> reachable base t (snd (GetManifest e repo ref s))"
    "digest_ok e \<and> uuid_ok e \<and> reachable base t (snd (ListTags e repo s))"
    "digest_ok e \<and> uuid_ok e \<and> reachable base t (snd (ManifestExists e repo ref s))"
    "digest_ok e \<and> uuid_ok e \<and> reachable base t (snd (GetReferrers e repo d s))"
    "digest_ok e \<and> uuid_ok e \<and> reachable base t (snd (GetUpload i s))"
    "digest_ok e \<and> uuid_ok e \<and> reachable base t (snd (GetUploadStatus i s))"
    using e by (auto intro!: read dest: reads_keep_state)
  show "digest_ok e \<and> uuid_ok e \<and> reachable base t (snd (PutBlob e d rd s))"
    using e by (auto intro!: step fs_step.put_blob)
  show "digest_ok e \<and> uuid_ok e \<and> reachable base t (snd (DeleteBlob e d s))"
    using e by (auto intro!: step fs_step.delete_blob)
  show "digest_ok e \<and> uuid_ok e \<and> reachable base t (snd (CreateUpload e repo s))"
    using e by (auto intro!: step fs_step.create_upload)
  show "digest_ok e \<and> uuid_ok e \<and> reachable base t (snd (WriteUploadChunk e i off rd s))"
    using e by (auto intro!: step fs_step.write_chunk)
  show "digest_ok e \<and> uuid_ok e \<and> reachable base t (snd (CompleteUpload e i d s))"
    using e by (auto intro!: step fs_step.complete_upload)
  show "digest_ok e \<and> uuid_ok e \<and> reachable base t (snd (CancelUpload e i s))"
    using e by (auto intro!: step fs_step.cancel_upload)
  show "digest_ok e \<and> uuid_ok e \<and> reachable base t (snd (PutManifest e repo ref m s))" if "man_args repo ref m"
    using e man_args_put [OF that] by (auto intro!: step fs_step.put_manifest)
  show "digest_ok e \<and> uuid_ok e \<and> reachable base t (snd (DeleteManifest e repo ref s))"
    if "repo_ok repo" "safe_comp ref"
    using e that by (auto intro!: step fs_step.delete_manifest)
qed

locale viewed_kept = store_view ops base view + kb: kept base I
  for ops :: "'x store_ops" and base :: "'s store_ops" and view :: "'x \<Rightarrow> 's" and I

sublocale viewed_kept \<subseteq> kept ops "\<lambda>x. I (view x)"
proof
  fix x d rd repo ref m i off
  assume kept: "I (view x)"
  note vk = view_keep [where I = I and view = view]
  note k = kb.keeps [OF kept] kb.keep_PutManifest [OF kept] kb.keep_DeleteManifest [OF kept]
  show "I (view (snd (op_GetBlob ops d x)))" by (rule vk [OF view_GetBlob k(1)])
  show "I (view (snd (op_PutBlob ops d rd x)))" by (rule vk [OF view_PutBlob k(2)])
  show "I (view (snd (op_BlobExists ops d x)))" by (rule vk [OF view_BlobExists k(3)])
  show "I (view (snd (op_DeleteBlob ops d x)))" by (rule vk [OF view_DeleteBlob k(4)])
  show "I (view (snd (op_GetBlobSize ops d x)))" by (rule vk [OF view_GetBlobSize k(5)])
  show "I (view (snd (op_GetManifest ops repo ref x)))" if "repo_ok repo" "safe_comp ref"
    by (rule vk [OF view_GetManifest k(6) [OF that]])
  show "I (view (snd (op_ListTags ops repo x)))" by (rule vk [OF view_ListTags k(7)])
  show "I (view (snd (op_ManifestExists ops repo ref x)))" by (rule vk [OF view_ManifestExists k(8)])
  show "I (view (snd (op_GetReferrers ops repo d x)))" by (rule vk [OF view_GetReferrers k(9)])
  show "I (view (snd (op_CreateUpload ops repo x)))" by (rule vk [OF view_CreateUpload k(10)])
  show "I (view (snd (op_GetUpload ops i x)))" by (rule vk [OF view_GetUpload k(11)])
  show "I (view (snd (op_WriteUploadChunk ops i off rd x)))" by (rule vk [OF view_WriteUploadChunk k(12)])
  show "I (view (snd (op_CompleteUpload ops i d x)))" by (rule vk [OF view_CompleteUpload k(13)])
  show "I (view (snd (op_CancelUpload ops i x)))" by (rule vk [OF view_CancelUpload k(14)])
  show "I (view (snd (op_GetUploadStatus ops i x)))" by (rule vk [OF view_GetUploadStatus k(15)])
  show "I (view (snd (op_PutManifest ops repo ref m x)))" if "man_args repo ref m"
    by (rule vk [OF view_PutManifest k(16) [OF that]])
  show "I (view (snd (op_DeleteManifest ops repo ref x)))" if "repo_ok repo" "safe_comp ref"
    by (rule vk [OF view_DeleteManifest k(17) [OF that]])
qed

interpretation metered: viewed_kept "metrics_ops el (fs_ops e)" "fs_ops e" snd
  "\<lambda>s. digest_ok e \<and> uuid_ok e \<and> reachable base t s" for el e base t
  by (intro viewed_kept.intro met.store_view_axioms run.kept_axioms)

end
