(* ===== verification/ServerProperties.thy ===== *)
theory ServerProperties
  imports Server
begin

text \<open>
  What clients of the whole server can rely on: requests through the middleware, the router and the
  handlers, on the metered filesystem store, from a fresh start on.
\<close>

subsection \<open>What becomes of a request\<close>

lemma validated_cases:
  assumes "validated p valid complaint nxt r w s = (w', s')"
  obtains "s' = s" and "unsent w \<Longrightarrow> status w' = 400" | "nxt r w s = (w', s')"
  using assms by (auto simp: validated_def Let_def split: if_splits)

text \<open>The writer the router gets.\<close>

definition docker_headers :: "rw \<Rightarrow> rw" where
  "docker_headers w = SetHeader ''Docker-Distribution-API-Version'' ''registry/2.0'' (cors_headers w)"

lemma unsent_docker_headers [simp]: "unsent (docker_headers w) = unsent w"
  by (simp add: docker_headers_def cors_headers_def)

lemma web_chain_cases:
  assumes "Chain (web_middlewares took) inner req w x = (w', x')" and "unsent w"
  obtains (options) "r_Method req = ''OPTIONS''" "wb_store x' = wb_store x" "status w' = 200"
  | (refused) "wb_store x' = wb_store x" "status w' = 400"
  | (inside) x1 where "inner req (docker_headers w) x = (w', x1)" "wb_store x' = wb_store x1"
proof (cases "r_Method req = ''OPTIONS''")
  case True
  then have "wb_store x' = wb_store x" "status w' = 200"
    using assms by (auto simp: web_middlewares_def Chain_def SetCORSHeaders_def cors_headers_def Let_def)
  then show thesis using options True by blast
next
  case False
  let ?w = "docker_headers w"
  obtain x1 where run: "ValidateRepository (ValidateReference (ValidateDigest inner)) req ?w x = (w', x1)"
    and x': "wb_store x' = wb_store x1"
    using assms(1) False by (auto simp: web_middlewares_def Chain_def SetCORSHeaders_def SetDockerHeaders_def
        RequestLogger_def docker_headers_def Let_def split: prod.splits)
  have stop: thesis if "x1 = x" "status w' = 400" using refused that x' by simp
  from run show thesis unfolding ValidateRepository_def
  proof (cases rule: validated_cases)
    case 2
    then show ?thesis unfolding ValidateReference_def
    proof (cases rule: validated_cases)
      case 2
      then show ?thesis unfolding ValidateDigest_def
        by (cases rule: validated_cases) (use stop inside x' assms(2) in auto)
    qed (use stop assms(2) in auto)
  qed (use stop assms(2) in auto)
qed

text \<open>The metrics of a request change the registry only.\<close>

lemma metered_chain:
  assumes "Chain (metered_middlewares p took) inner req w x = (w', x')"
  obtains x1 where "Chain (web_middlewares took) inner req w x = (w', x1)" "wb_store x' = wb_store x1"
  using assms by (auto simp: metered_middlewares_def Chain_def SkipMetricsEndpoint_def HTTPMetrics_def Let_def
      split: prod.splits if_splits)

lemma octoserve_cases:
  assumes "octoserve (metered_middlewares p took) ops req w x = (w', x')" and "unsent w"
  obtains (options) "r_Method req = ''OPTIONS''" "wb_store x' = wb_store x" "status w' = 200"
  | (refused) "wb_store x' = wb_store x" "status w' \<in> {400, 404}"
  | (handled) ep req' w1 x1 where "find_route octo_router req = Some (ep, req')" "unsent w1"
      "run_endpoint ops ep req' w1 x = (w', x1)" "wb_store x' = wb_store x1"
proof -
  let ?inner = "Router_ServeHTTP (run_endpoint ops) octo_router"
  obtain x2 where web: "Chain (web_middlewares took) ?inner req w x = (w', x2)" and x2: "wb_store x' = wb_store x2"
    using metered_chain assms(1) unfolding octoserve_def by blast
  from web assms(2) show thesis
  proof (cases rule: web_chain_cases)
    case (inside x1)
    show ?thesis
    proof (cases "find_route octo_router req")
      case None
      then show ?thesis using refused inside x2 assms(2) by (auto simp: Router_ServeHTTP_def NotFound_def)
    next
      case (Some hr)
      then show ?thesis using handled [of "fst hr" "snd hr" "docker_headers w" x1] inside x2 assms(2)
        by (cases hr) (simp add: Router_ServeHTTP_def)
    qed
  qed (use options refused x2 in auto)
qed

subsection \<open>Reachable states of the server\<close>

text \<open>A request may come in any environment; a reference that is \<open>.\<close> or \<open>..\<close> is left out (the route
  admits them, and the path of such a manifest is a directory).\<close>

inductive web_reach :: "path \<Rightarrow> fs \<Rightarrow> Store web \<Rightarrow> bool" for base t where
  start: "New e base t = Ok s \<Longrightarrow> web_reach base t \<lparr>wb_registry = NewRegistry, wb_store = s, wb_log = []\<rparr>"
| request: "web_reach base t x'" if "web_reach base t x" "digest_ok e" "uuid_ok e"
    "last_seg (r_Path req) \<notin> {''.'', ''..''}"
    "octoserve (metered_middlewares p took) (metrics_ops el (fs_ops e)) req new_rw x = (w, x')"

lemma routed_safe_params:
  assumes "find_route octo_router req = Some (ep, req')" and "last_seg (r_Path req) \<notin> {''.'', ''..''}"
  shows "safe_params ep req'"
proof -
  from assms(1) obtain x where x: "wf_resource x" "path_of x = r_Path req" "endpoint_at (r_Method req) x = Some ep"
    "req' = routed_request x req" by (auto simp: find_route_iff)
  have "repo_ok (GetParam req' ''name'') \<and> safe_comp (GetParam req' ''reference'')"
    if ep: "ep \<in> {EpGetManifest, EpHeadManifest, EpPutManifest, EpDeleteManifest}"
  proof -
    from x(3) ep obtain n ref where m: "x = ManifestAt n ref" by (cases x) (auto split: if_splits)
    then have "routed_name n" and ref: "reference_word ref" using x(1) by simp_all
    have "last_seg (r_Path req) = ref"
      using segs_path(5) [OF words_no_slash(2) [OF ref], of n] x(2) m by (simp add: segs_def del: path_of.simps)
    then have "safe_comp ref" using ref assms(2) words_no_slash(2) [OF ref] by (auto simp: safe_comp_def)
    moreover have "GetParam req' ''name'' = n" "GetParam req' ''reference'' = ref"
      unfolding x(4) by (rule GetParam_routed; simp add: m)+
    ultimately show ?thesis using routed_name_repo_ok [OF \<open>routed_name n\<close>] by simp
  qed
  then show ?thesis unfolding safe_params_def by blast
qed

lemma web_reach_store: "web_reach base t x \<Longrightarrow> reachable base t (wb_store x)"
proof (induction rule: web_reach.induct)
  case (start e s)
  then show ?case by (simp add: reachable.start)
next
  case (request x e req p took el w x')
  from request.hyps(5) unsent_new show ?case
  proof (cases rule: octoserve_cases)
    case (handled ep req' w1 x1)
    have "digest_ok e \<and> uuid_ok e \<and> reachable base t (snd (wb_registry x, wb_store x))"
      using request by simp
    from metered.keep_serve [OF this routed_safe_params [OF handled(1) request.hyps(4)], where el = el and w = w1]
      handled(3,4)
    show ?thesis by (auto simp: run_endpoint_def split: prod.splits)
  qed (use request.IH in simp_all)
qed

lemma blob_path_only:
  assumes "wf_resource x" "path_of x = path_of (BlobAt n d)" "CHR ''/'' \<notin> set d"
  shows "x = BlobAt n d"
proof -
  have "segs (path_of x) = segs (path_of (BlobAt n d))" using assms(2) by simp
  with assms(1,3) show ?thesis by (cases x) (auto simp: segs_path words_no_slash simp del: path_of.simps)
qed

lemma canonical_no_slash: "canonical_digest d \<Longrightarrow> CHR ''/'' \<notin> set d"
  using canonical_safe by (auto simp: safe_comp_def)

text \<open>A request for a blob that is answered with a success was answered by the blob handler.\<close>

lemma get_blob_handled:
  assumes "octoserve (metered_middlewares p took) (metrics_ops el (fs_ops e)) req new_rw x = (w, x')"
    and "r_Method req = ''GET''" and "r_Path req = path_of (BlobAt n d)" and "CHR ''/'' \<notin> set d" and "status w < 300"
  obtains w1 req' where "BlobHandler_GetBlob (fs_ops e) req' w1 (wb_store x) = (w, wb_store x')" "unsent w1"
    "GetParam req' ''digest'' = d"
proof -
  from assms(1) unsent_new show thesis
  proof (cases rule: octoserve_cases)
    case (handled ep req' w1 x1)
    then obtain y where y: "wf_resource y" "path_of y = path_of (BlobAt n d)" "endpoint_at ''GET'' y = Some ep"
      and req': "req' = routed_request y req" using assms(2,3) by (auto simp: find_route_iff)
    have "y = BlobAt n d" using blob_path_only [OF y(1,2) assms(4)] .
    then have "ep = EpGetBlob" "GetParam req' ''digest'' = d"
      using y(3) GetParam_routed [of y "''digest''" d req] by (simp_all add: req')
    moreover have "BlobHandler_GetBlob (fs_ops e) req' w1 (wb_store x) = (w, wb_store x')"
      using met.serve_view [of EpGetBlob e req' w1 "(wb_registry x, wb_store x)" el] handled(3,4)
      by (auto simp: run_endpoint_def \<open>ep = EpGetBlob\<close> split: prod.splits)
    ultimately show ?thesis using that handled(2) by blast
  qed (use assms(2,5) in auto)
qed

subsection \<open>Requests that carry no parameters\<close>

definition no_route_params :: "request \<Rightarrow> bool" where
  "no_route_params req \<longleftrightarrow> (\<forall>p \<in> {''name'', ''reference'', ''digest''}. GetParam req p = [])"

lemma validated_pass: "GetParam r p = [] \<Longrightarrow> validated p valid complaint nxt r w s = nxt r w s"
  by (simp add: validated_def)

lemma validators_pass:
  "no_route_params req \<Longrightarrow> ValidateRepository (ValidateReference (ValidateDigest nxt)) req w x = nxt req w x"
  by (simp add: no_route_params_def ValidateRepository_def ValidateReference_def ValidateDigest_def validated_pass)

lemma octoserve_routes:
  assumes "no_route_params req" and "r_Method req \<noteq> ''OPTIONS''"
    and "find_route octo_router req = Some (ep, req')"
    and "serve ep ops req' (docker_headers w) (wb_registry x, wb_store x) = (w', m, s')"
  shows "\<exists>x'. octoserve (metered_middlewares p took) ops req w x = (w', x') \<and> wb_store x' = s'"
  using assms(2-)
  by (simp add: octoserve_def metered_middlewares_def web_middlewares_def Chain_def SkipMetricsEndpoint_def
      HTTPMetrics_def SetCORSHeaders_def SetDockerHeaders_def RequestLogger_def validators_pass [OF assms(1)]
      Router_ServeHTTP_def run_endpoint_def docker_headers_def Let_def)

lemma served_on_store:
  assumes "serve ep (fs_ops e) req' w s = (w', s')"
  shows "\<exists>m'. serve ep (metrics_ops el (fs_ops e)) req' w (m, s) = (w', m', s')"
  using met.serve_view [of ep e req' w "(m, s)" el] assms
  by (cases "serve ep (metrics_ops el (fs_ops e)) req' w (m, s)") auto

text \<open>Validation never sees what the router parses: the validating middleware runs before the
  router and reads the parameters the router adds later, so a request without \<open>route_\<close> parameters
  of its own is handed to the router unexamined, whatever its path; and a client that sends
  \<open>route_name\<close> in its query has its request for a valid path refused for it.\<close>

theorem validation_before_routing:
  "(no_route_params req \<longrightarrow>
      ValidateRepository (ValidateReference (ValidateDigest router)) req w x = router req w x) \<and>
   (GetParam req ''name'' \<noteq> [] \<and> \<not> isValidRepositoryName (GetParam req ''name'') \<longrightarrow>
      ValidateRepository (ValidateReference (ValidateDigest router)) req w x =
        (WriteErrorResponse 400 [NameInvalid (GetParam req ''name'')] w, x))"
  by (intro conjI impI, erule validators_pass) (simp add: ValidateRepository_def validated_def)

definition plain_request :: "string \<Rightarrow> string \<Rightarrow> url_values \<Rightarrow> bytes \<Rightarrow> request" where
  "plain_request m p q b = \<lparr>r_Method = m, r_Path = p, r_Query = q, r_Header = [], r_Body = bytes_reader b,
     r_ContentLength = int (length b)\<rparr>"

lemma plain_request_sel [simp]:
  "r_Method (plain_request m p q b) = m" "r_Path (plain_request m p q b) = p" "r_Query (plain_request m p q b) = q"
  "r_Header (plain_request m p q b) = []" "r_Body (plain_request m p q b) = bytes_reader b"
  by (simp_all add: plain_request_def)

text \<open>A tag the validation refuses reaches the handler; the same request with a foreign parameter does not.\<close>

theorem validation_before_routing_witness:
  "\<not> isValidReference ''-rc'' \<and> \<not> isValidRepositoryName ''X'' \<and>
   ValidateRepository (ValidateReference (ValidateDigest (\<lambda>r w (n :: nat). (w, Suc n))))
     (plain_request ''PUT'' ''/v2/app/manifests/-rc'' [] []) new_rw 0 = (new_rw, 1) \<and>
   ValidateRepository (ValidateReference (ValidateDigest (\<lambda>r w (n :: nat). (w, Suc n))))
     (plain_request ''PUT'' ''/v2/app/manifests/rc'' [(''route_name'', [''X''])] []) new_rw 0 =
       (WriteErrorResponse 400 [NameInvalid ''X''] new_rw, 0)"
proof -
  have ref: "\<not> isValidReference ''-rc''" and name: "\<not> isValidRepositoryName ''X''" by code_simp+
  have plain: "no_route_params (plain_request ''PUT'' ''/v2/app/manifests/-rc'' [] [])"
    by (simp add: no_route_params_def GetParam_def q_get_def)
  have foreign: "GetParam (plain_request ''PUT'' ''/v2/app/manifests/rc'' [(''route_name'', [''X''])] []) ''name'' = ''X''"
    by (simp add: GetParam_def q_get_def)
  show ?thesis
    using ref name validation_before_routing [of "plain_request ''PUT'' ''/v2/app/manifests/-rc'' [] []"
        "\<lambda>r w (n :: nat). (w, Suc n)" new_rw 0] plain
      validation_before_routing [of "plain_request ''PUT'' ''/v2/app/manifests/rc'' [(''route_name'', [''X''])] []"
        "\<lambda>r w (n :: nat). (w, Suc n)" new_rw 0] foreign
    by simp
qed

subsection \<open>Content through the whole server\<close>

lemma canonical_digest_word: "canonical_digest d \<Longrightarrow> digest_word d"
proof -
  assume can: "canonical_digest d"
  then have d: "d = ''sha256'' @ CHR '':'' # drop 7 d" and hex: "canonical_hex (drop 7 d)"
    by (auto simp: canonical_digest_def HasPrefix_iff)
  have "in_class hex_class c" if "is_hex_lower c" for c
    using that by (auto simp: is_hex_lower_def in_class_def hex_class_def less_eq_char_def)
  then have "class_run hex_class 1 None (drop 7 d)" using hex by (auto simp: canonical_hex_def class_run_def)
  moreover have "class_run algorithm_class 1 None ''sha256''" by code_simp
  ultimately show "digest_word d" unfolding digest_word_def using d by blast
qed

text \<open>The two requests of a client, and what the endpoints make of them on any store.\<close>

definition push_request :: "string \<Rightarrow> string \<Rightarrow> bytes \<Rightarrow> request" where
  "push_request n d b = plain_request ''POST'' (path_of (Uploads n)) [(''digest'', [d])] b"

definition pull_request :: "string \<Rightarrow> string \<Rightarrow> request" where
  "pull_request n d = plain_request ''GET'' (path_of (BlobAt n d)) [] []"

lemma request_sel [simp]:
  "r_Method (push_request n d b) = ''POST''" "r_Path (push_request n d b) = path_of (Uploads n)"
  "r_Method (pull_request n d) = ''GET''" "r_Path (pull_request n d) = path_of (BlobAt n d)"
  "no_route_params (push_request n d b)" "no_route_params (pull_request n d)"
  by (simp_all add: push_request_def pull_request_def no_route_params_def GetParam_def q_get_def del: path_of.simps)

lemma push_routed:
  "routed_name n \<Longrightarrow> find_route octo_router (push_request n d b) = Some (EpStartUpload, routed_request (Uploads n) (push_request n d b))"
  using find_route_path [of "Uploads n" "push_request n d b"] by simp

lemma pull_routed:
  assumes "routed_name n" and "canonical_digest d"
  shows "find_route octo_router (pull_request n d) = Some (EpGetBlob, routed_request (BlobAt n d) (pull_request n d))"
  using find_route_path [of "BlobAt n d" "pull_request n d"] assms canonical_digest_word by simp

lemma push_served:
  assumes "op_PutBlob ops d (bytes_reader b) s = (Ok (), s')" and "d \<noteq> []" and "unsent w"
  shows "\<exists>w'. serve EpStartUpload ops (routed_request (Uploads n) (push_request n d b)) w s = (w', s') \<and> status w' = 201"
  using assms
  by (simp add: StartUpload_def handleMonolithicUpload_def blob_created_def Let_def push_request_def routed_request_def
      q_get_def q_set_def)

lemma pull_served:
  assumes "op_BlobExists ops d s = (Ok True, s1)" and "op_GetBlob ops d s1 = (Ok (bytes_reader b), s2)"
    and "op_GetBlobSize ops d s2 = (Ok z, s')" and "unsent w"
  shows "\<exists>w'. serve EpGetBlob ops (routed_request (BlobAt n d) (pull_request n d)) w s = (w', s') \<and>
    status w' = 200 \<and> w_body w' = b \<and> \<not> w_cut w'"
proof -
  have "GetParam (routed_request (BlobAt n d) (pull_request n d)) ''digest'' = d" by (rule GetParam_routed) simp
  then show ?thesis using assms
    by (simp add: BlobHandler_GetBlob_def Let_def blob_headers_def h_get_def pull_request_def)
qed

lemma push_pull:
  assumes "quiet e" and "fs_safe e (wb_store x)" and "slot_free (wb_store x) d" and "sha256_digest b = d"
    and "routed_name n" and "routed_name n'"
  shows "\<exists>w x' w' x''.
    octoserve (metered_middlewares p took) (metrics_ops el (fs_ops e)) (push_request n d b) new_rw x = (w, x') \<and>
    status w = 201 \<and>
    octoserve (metered_middlewares p took) (metrics_ops el (fs_ops e)) (pull_request n' d) new_rw x' = (w', x'') \<and>
    status w' = 200 \<and> w_body w' = b \<and> \<not> w_cut w'"
proof -
  let ?ops = "metrics_ops el (fs_ops e)" and ?mws = "metered_middlewares p took"
  have ok: "digest_ok e" "wf_fs (s_disk (wb_store x))" using assms(2) by (simp_all add: fs_safe_def)
  have can: "canonical_digest d" using assms(4) canonical_sha256_digest by metis
  then have "d \<noteq> []" by (auto simp: canonical_digest_def HasPrefix_iff)
  obtain s' where put: "PutBlob e d (bytes_reader b) (wb_store x) = (Ok (), s')"
    using PutBlob_succeeds [OF assms(1) ok assms(3), of "bytes_reader b"] assms(4) by auto
  with push_served [of "fs_ops e" d b "wb_store x" s' "docker_headers new_rw" n] \<open>d \<noteq> []\<close> obtain w where
    w: "serve EpStartUpload (fs_ops e) (routed_request (Uploads n) (push_request n d b)) (docker_headers new_rw) (wb_store x) = (w, s')"
      "status w = 201" by auto
  from served_on_store [OF w(1)] obtain m where "serve EpStartUpload ?ops (routed_request (Uploads n) (push_request n d b))
      (docker_headers new_rw) (wb_registry x, wb_store x) = (w, m, s')" by blast
  from octoserve_routes [OF _ _ push_routed [OF assms(5)] this, of p took] obtain x' where
    post: "octoserve ?mws ?ops (push_request n d b) new_rw x = (w, x')" "wb_store x' = s'" by auto
  note present = GetBlob_present [OF assms(1) put_present(2,1) [OF put assms(2) ok(1)]]
  from pull_served [of "fs_ops e" d s' s' b s' _ s' "docker_headers new_rw" n'] present obtain w' where
    w': "serve EpGetBlob (fs_ops e) (routed_request (BlobAt n' d) (pull_request n' d)) (docker_headers new_rw) s' = (w', s')"
      "status w' = 200" "w_body w' = b" "\<not> w_cut w'" by auto
  from served_on_store [OF w'(1)] obtain m' where "serve EpGetBlob ?ops (routed_request (BlobAt n' d) (pull_request n' d))
      (docker_headers new_rw) (wb_registry x', wb_store x') = (w', m', s')" unfolding post(2) by blast
  from octoserve_routes [OF _ _ pull_routed [OF assms(6) can] this, of p took] obtain x'' where
    "octoserve ?mws ?ops (pull_request n' d) new_rw x' = (w', x'')" by auto
  with post w w' show ?thesis by blast
qed

text \<open>Push and pull through the whole server: with nothing failing, bytes pushed with POST under
  their digest to a repository the routes admit are answered 201, and a GET of the blob's path, in
  any repository, is then answered 200 with exactly those bytes.\<close>

theorem server_push_pull:
  assumes "quiet e" and "fs_safe e (wb_store x)" and "slot_free (wb_store x) d" and "sha256_digest b = d"
    and "routed_name n" and "routed_name n'"
  shows "\<exists>w x' w' x''.
    octoserve (metered_middlewares p took) (metrics_ops el (fs_ops e))
      (push_request n d b) new_rw x = (w, x') \<and> status w = 201 \<and>
    octoserve (metered_middlewares p took) (metrics_ops el (fs_ops e))
      (pull_request n' d) new_rw x' = (w', x'') \<and>
    status w' = 200 \<and> w_body w' = b \<and> \<not> w_cut w'"
  by (rule push_pull [OF assms])

lemma routed_app: "routed_name ''app''"
proof -
  have "(''app'', [], ''/'') \<in> set (mt name_re False ''app/'')" by code_simp
  then show ?thesis using mt_sound unfolding routed_name_def by blast
qed

definition fresh_server :: "Store web" where
  "fresh_server = \<lparr>wb_registry = NewRegistry, wb_store = fresh, wb_log = []\<rparr>"

lemma fresh_server_ok: "fs_safe calm (wb_store fresh_server)" "slot_free (wb_store fresh_server) d"
  using fresh_inv by (simp_all add: fresh_server_def fs_inv_def)

theorem server_push_pull_witness:
  "\<exists>w x' w' x''.
    octoserve (metered_middlewares ''/metrics'' (\<lambda>_. 1)) (metrics_ops (\<lambda>_. 1) (fs_ops calm))
      (push_request ''app'' (sha256_digest [1]) [1]) new_rw fresh_server = (w, x') \<and>
    status w = 201 \<and>
    octoserve (metered_middlewares ''/metrics'' (\<lambda>_. 1)) (metrics_ops (\<lambda>_. 1) (fs_ops calm))
      (pull_request ''app'' (sha256_digest [1])) new_rw x' = (w', x'') \<and>
    status w' = 200 \<and> w_body w' = [1] \<and> \<not> w_cut w'"
  by (rule server_push_pull [OF quiet_calm fresh_server_ok refl routed_app routed_app])

text \<open>The registry as its clients see it: after any sequence of HTTP requests, well-formed or not,
  through the middleware, the router, the handlers and the metered filesystem store, in
  environments that may fail anywhere, a GET of the path of a blob that is answered with a success
  and read to the end delivers bytes that hash to the digest in the path.\<close>

theorem server_serves_hash:
  assumes "disk_ok base t" and "web_reach base t x" and "digest_ok e"
    and "r_Method req = ''GET''" and "r_Path req = path_of (BlobAt n d)" and "canonical_digest d"
    and "octoserve (metered_middlewares p took) (metrics_ops el (fs_ops e)) req new_rw x = (w, x')"
    and "status w < 300" and "\<not> w_cut w"
  shows "sha256_digest (w_body w) = d"
proof -
  obtain w1 req' where get: "BlobHandler_GetBlob (fs_ops e) req' w1 (wb_store x) = (w, wb_store x')" "unsent w1"
    and d: "GetParam req' ''digest'' = d"
    by (rule get_blob_handled [OF assms(7,4,5) canonical_no_slash [OF assms(6)] assms(8)])
  from get obtain s1 s2 rd n where run: "op_BlobExists (fs_ops e) d (wb_store x) = (Ok True, s1)"
      "op_GetBlob (fs_ops e) d s1 = (Ok rd, s2)" and w: "w_body w = rdata rd" "w_cut w = rfail rd"
    unfolding d [symmetric] by (rule GetBlob_handler_cases) (use assms(8) in auto)
  have "s1 = wb_store x" using run(1) reads_keep_state(2) by simp
  then have "reachable base t s1" using web_reach_store [OF assms(2)] by simp
  then have "addressed s1" using reachable_store_ok assms(1) by (simp add: store_ok_def)
  moreover have "fs_blobs s1 d = Some (rdata rd)"
    using GetBlob_Ok [of e d s1 rd s2] run(2) assms(3,6,9) w(2) by (simp add: fs_blobs_path)
  ultimately show ?thesis using w(1) by (simp add: addressed_def)
qed

theorem server_serves_hash_witness:
  "\<exists>x w x'. web_reach [''data''] [] x \<and>
    octoserve (metered_middlewares ''/metrics'' (\<lambda>_. 1)) (metrics_ops (\<lambda>_. 1) (fs_ops calm))
      (pull_request ''app'' (sha256_digest [1])) new_rw x = (w, x') \<and>
    w_body w = [1] \<and> sha256_digest (w_body w) = sha256_digest [1]"
proof -
  let ?mws = "metered_middlewares ''/metrics'' (\<lambda>_. 1)" and ?ops = "metrics_ops (\<lambda>_. 1) (fs_ops calm)"
  let ?post = "push_request ''app'' (sha256_digest [1]) [1]"
  let ?get = "pull_request ''app'' (sha256_digest [1])"
  obtain w x' w' x'' where post: "octoserve ?mws ?ops ?post new_rw fresh_server = (w, x')"
    and get: "octoserve ?mws ?ops ?get new_rw x' = (w', x'')" and w': "status w' = 200" "w_body w' = [1]" "\<not> w_cut w'"
    using push_pull [OF quiet_calm fresh_server_ok refl routed_app routed_app] by blast
  have "web_reach [''data''] [] fresh_server"
    unfolding fresh_server_def by (rule web_reach.start [OF New_fresh])
  moreover have "last_seg (r_Path ?post) \<notin> {''.'', ''..''}" by (simp add: last_seg_def)
  ultimately have reach: "web_reach [''data''] [] x'"
    by (rule web_reach.request [OF _ digest_ok_calm uuid_ok_calm _ post])
  have "sha256_digest (w_body w') = sha256_digest [1]"
    by (rule server_serves_hash [OF fresh_disk_ok reach digest_ok_calm _ _ _ get]) (simp_all add: w')
  with reach get w' show ?thesis by blast
qed

end
