(* ===== verification/MetricsHandler.thy ===== *)
theory MetricsHandler
  imports ServerProperties
begin

text \<open>
  \<open>internal/metrics/handler.go\<close>: the metrics endpoint and its basic authentication. The handler
  of the Prometheus library that prints the registry is a parameter.
\<close>

subsection \<open>Credentials of a request\<close>

text \<open>\<open>Request.BasicAuth\<close>: the scheme in any case, then the credentials in base64, cut at the first
  colon; with no colon there are none.\<close>

definition parseBasicAuth :: "string \<Rightarrow> (string \<times> string) option" where
  "parseBasicAuth auth =
     (if length auth < 6 \<or> map lower1 (take 6 auth) \<noteq> ''basic '' then None
      else
        (case b64_decode (drop 6 auth) of
           None \<Rightarrow> None
         | Some c \<Rightarrow>
             (let cs = string_of c in
              if CHR '':'' \<in> set cs then
                Some (takeWhile (\<lambda>x. x \<noteq> CHR '':'') cs, tl (dropWhile (\<lambda>x. x \<noteq> CHR '':'') cs))
              else None)))"

definition BasicAuth :: "request \<Rightarrow> (string \<times> string) option" where
  "BasicAuth r =
     (let auth = h_get (r_Header r) ''Authorization'' in if auth = [] then None else parseBasicAuth auth)"

text \<open>\<open>subtle.ConstantTimeCompare\<close>.\<close>

definition ConstantTimeCompare :: "string \<Rightarrow> string \<Rightarrow> nat" where
  "ConstantTimeCompare x y = (if x = y then 1 else 0)"

subsection \<open>The handler\<close>

definition unauthorized :: "rw \<Rightarrow> rw" where
  "unauthorized w =
     WriteBody (bytes_of (''Unauthorized'' @ [CHR 0x0A]))
       (WriteHeader 401 (SetHeader ''WWW-Authenticate'' (''Basic realm='' @ [CHR 0x22] @ ''Metrics'' @ [CHR 0x22]) w))"

definition basicAuth :: "'s handler \<Rightarrow> string \<Rightarrow> string \<Rightarrow> 's handler" where
  "basicAuth handler username password r w s =
     (case BasicAuth r of
        None \<Rightarrow> (unauthorized w, s)
      | Some (user, pass) \<Rightarrow>
          if ConstantTimeCompare user username \<noteq> 1 \<or> ConstantTimeCompare pass password \<noteq> 1
          then (unauthorized w, s)
          else handler r w s)"

definition metrics_Handler :: "(Registry \<Rightarrow> request \<Rightarrow> rw \<Rightarrow> rw) \<Rightarrow> bool \<Rightarrow> string \<Rightarrow> string \<Rightarrow> 's web handler" where
  "metrics_Handler prom registered username password =
     (if \<not> registered then (\<lambda>r w x. (NotFound w, x))
      else
        (let promHandler = (\<lambda>r w x. (prom (wb_registry x) r w, x)) in
         if username = [] \<or> password = [] then promHandler
         else basicAuth promHandler username password))"

subsection \<open>Who sees the metrics\<close>

text \<open>The header a client sends for its credentials.\<close>

definition credentials :: "string \<Rightarrow> string \<Rightarrow> string" where
  "credentials user pass = ''Basic '' @ b64_encode (bytes_of (user @ '':'' @ pass))"

lemma parseBasicAuth_credentials:
  assumes "CHR '':'' \<notin> set user"
  shows "parseBasicAuth (credentials user pass) = Some (user, pass)"
proof -
  have "map lower1 ''Basic '' = ''basic ''" by code_simp
  moreover have "takeWhile (\<lambda>x. x \<noteq> CHR '':'') (user @ CHR '':'' # pass) = user"
    "dropWhile (\<lambda>x. x \<noteq> CHR '':'') (user @ CHR '':'' # pass) = CHR '':'' # pass"
    using assms by (auto simp: takeWhile_append dropWhile_append)
  ultimately show ?thesis
    by (simp add: parseBasicAuth_def credentials_def eval_nat_numeral)
qed

lemma parseBasicAuth_user: "parseBasicAuth auth = Some (user, pass) \<Longrightarrow> CHR '':'' \<notin> set user"
  by (auto simp: parseBasicAuth_def Let_def split: if_splits option.splits dest: set_takeWhileD)

lemma BasicAuth_user: "BasicAuth r = Some (user, pass) \<Longrightarrow> CHR '':'' \<notin> set user"
  by (auto simp: BasicAuth_def Let_def split: if_splits dest: parseBasicAuth_user)

lemma basicAuth_passes:
  "basicAuth handler u p r w s = (if BasicAuth r = Some (u, p) then handler r w s else (unauthorized w, s))"
  by (auto simp: basicAuth_def ConstantTimeCompare_def split: option.splits)

text \<open>C23. The metrics are shown to exactly those who may see them: with a registry and both credentials
  configured a request is answered by the metrics handler iff its header carries that user and
  that password, and otherwise with 401 and a challenge, the state untouched; a client that sends
  the configured credentials is let in when the user name has no colon, and nobody is when it has
  one. Without a registry the answer is 404, and with only one of the credentials configured
  everybody is let in.\<close>

theorem metrics_auth_exact:
  "metrics_Handler prom False u p r w x = (NotFound w, x) \<and>
   (u = [] \<or> p = [] \<longrightarrow> metrics_Handler prom True u p r w x = (prom (wb_registry x) r w, x)) \<and>
   (u \<noteq> [] \<and> p \<noteq> [] \<longrightarrow>
      metrics_Handler prom True u p r w x =
        (if BasicAuth r = Some (u, p) then (prom (wb_registry x) r w, x) else (unauthorized w, x)) \<and>
      (unsent w \<longrightarrow> status (unauthorized w) = 401) \<and>
      (CHR '':'' \<notin> set u \<longrightarrow> h_get (r_Header r) ''Authorization'' = credentials u p \<longrightarrow>
         metrics_Handler prom True u p r w x = (prom (wb_registry x) r w, x)) \<and>
      (CHR '':'' \<in> set u \<longrightarrow> metrics_Handler prom True u p r w x = (unauthorized w, x)))"
proof -
  have "BasicAuth r = Some (u, p)" if "CHR '':'' \<notin> set u" "h_get (r_Header r) ''Authorization'' = credentials u p"
    using that parseBasicAuth_credentials by (simp add: BasicAuth_def credentials_def)
  moreover have "BasicAuth r \<noteq> Some (u, p)" if "CHR '':'' \<in> set u"
    using that BasicAuth_user by blast
  moreover have "unsent w \<Longrightarrow> status (unauthorized w) = 401"
    by (simp add: unauthorized_def)
  ultimately show ?thesis by (auto simp: metrics_Handler_def basicAuth_passes)
qed

theorem metrics_auth_exact_witness:
  "let r = (plain_request ''GET'' ''/metrics'' [] [])\<lparr>r_Header := h_set ''Authorization'' (credentials ''prom'' ''s:t'') []\<rparr> in
   metrics_Handler (\<lambda>_ _. WriteHeader 200) True ''prom'' ''s:t'' r new_rw fresh_server = (WriteHeader 200 new_rw, fresh_server) \<and>
   status (fst (metrics_Handler (\<lambda>_ _. WriteHeader 200) True ''a:b'' ''s:t'' r new_rw fresh_server)) = 401 \<and>
   metrics_Handler (\<lambda>_ _. WriteHeader 200) True [] ''s:t'' r new_rw fresh_server = (WriteHeader 200 new_rw, fresh_server)"
proof -
  let ?r = "(plain_request ''GET'' ''/metrics'' [] [])\<lparr>r_Header := h_set ''Authorization'' (credentials ''prom'' ''s:t'') []\<rparr>"
  have cred: "h_get (r_Header ?r) ''Authorization'' = credentials ''prom'' ''s:t''" by simp
  have plain: "''prom'' \<noteq> []" "''a:b'' \<noteq> []" "''s:t'' \<noteq> []" "CHR '':'' \<notin> set ''prom''" "CHR '':'' \<in> set ''a:b''" by simp_all
  have "metrics_Handler (\<lambda>_ _. WriteHeader 200) True ''prom'' ''s:t'' ?r new_rw fresh_server =
      (WriteHeader 200 new_rw, fresh_server)"
    using metrics_auth_exact [of "\<lambda>_ _. WriteHeader 200" "''prom''" "''s:t''" ?r new_rw fresh_server] cred plain by blast
  moreover have "metrics_Handler (\<lambda>_ _. WriteHeader 200) True ''a:b'' ''s:t'' ?r new_rw fresh_server =
      (unauthorized new_rw, fresh_server)" and "status (unauthorized new_rw) = 401"
    using metrics_auth_exact [of "\<lambda>_ _. WriteHeader 200" "''a:b''" "''s:t''" ?r new_rw fresh_server] unsent_new plain
    by blast+
  moreover have "metrics_Handler (\<lambda>_ _. WriteHeader 200) True [] ''s:t'' ?r new_rw fresh_server =
      (WriteHeader 200 new_rw, fresh_server)"
    using metrics_auth_exact [of "\<lambda>_ _. WriteHeader 200" "[]" "''s:t''" ?r new_rw fresh_server] by simp
  ultimately show ?thesis unfolding Let_def by simp
qed

end
