(* ===== verification/GoDuration.thy ===== *)
theory GoDuration
  imports GoTime "HOL-Library.Log_Nat"
begin

text \<open>
  \<open>time.ParseDuration\<close>, and that it reads back what \<open>Duration.String\<close> prints. Its fractions go
  through 64-bit floating point, modelled as rationals rounded to 53 bits, to nearest and ties to
  even; the values that occur are far from overflow, and what would underflow is less than a
  nanosecond.
\<close>

subsection \<open>Floating point\<close>

definition binade :: "rat \<Rightarrow> int" where
  "binade x =
     (case quotient_of x of (p, q) \<Rightarrow>
        (let n = bitlen p - bitlen q in if x < 2 powi n then n - 1 else n))"

definition round_half_even :: "rat \<Rightarrow> int" where
  "round_half_even y =
     (let f = \<lfloor>y\<rfloor>; r = y - of_int f in
      if r < 1 / 2 then f else if 1 / 2 < r then f + 1 else if even f then f else f + 1)"

definition float64 :: "rat \<Rightarrow> rat" where
  "float64 x =
     (if x = 0 then 0
      else (let ulp = 2 powi (binade x - 52) in of_int (round_half_even (x / ulp)) * ulp))"

lemma round_half_even_int [simp]: "round_half_even (of_int i) = i"
  by (simp add: round_half_even_def)

lemma binade_nat: "0 < n \<Longrightarrow> n < 2 ^ 53 \<Longrightarrow> binade (of_nat n) \<le> 52"
proof -
  assume n: "0 < n" "n < (2 :: nat) ^ 53"
  have "quotient_of (of_nat n :: rat) = (int n, 1)"
    using quotient_of_int [of "int n"] by simp
  moreover have "bitlen (int n) \<le> 53" using n less_power_nat_iff_bitlen [of n 53] by simp
  moreover have "bitlen 1 = 1" by (simp add: bitlen_alt_def)
  ultimately show ?thesis by (simp add: binade_def Let_def)
qed

lemma float64_nat: "n < 2 ^ 53 \<Longrightarrow> float64 (of_nat n) = of_nat n"
proof (cases "n = 0")
  case False
  assume n: "n < 2 ^ 53"
  define k where "k = nat (52 - binade (of_nat n))"
  have "binade (of_nat n) - 52 = - int k" using binade_nat [of n] n False by (simp add: k_def)
  then have ulp: "(2 :: rat) powi (binade (of_nat n) - 52) = 1 / 2 ^ k" by (simp add: power_int_minus_divide)
  have "(of_nat n :: rat) / (1 / 2 ^ k) = of_int (int (n * 2 ^ k))" by simp
  then have "round_half_even (of_nat n / (1 / 2 ^ k)) = int (n * 2 ^ k)" by (simp only: round_half_even_int)
  then show ?thesis using False by (simp add: float64_def ulp)
qed (simp add: float64_def)

subsection \<open>Parsing\<close>

text \<open>\<open>None\<close> is an error.\<close>

fun leadingInt :: "nat \<Rightarrow> string \<Rightarrow> (nat \<times> string) option" where
  "leadingInt x [] = Some (x, [])"
| "leadingInt x (c # s) =
     (case digit_val c of
        None \<Rightarrow> Some (x, c # s)
      | Some d \<Rightarrow>
          if 2 ^ 63 div 10 < x then None
          else if 2 ^ 63 < x * 10 + d then None
          else leadingInt (x * 10 + d) s)"

fun leadingFraction :: "nat \<Rightarrow> rat \<Rightarrow> bool \<Rightarrow> string \<Rightarrow> nat \<times> rat \<times> string" where
  "leadingFraction x scale overflow [] = (x, scale, [])"
| "leadingFraction x scale overflow (c # s) =
     (case digit_val c of
        None \<Rightarrow> (x, scale, c # s)
      | Some d \<Rightarrow>
          if overflow \<or> (2 ^ 63 - 1) div 10 < x \<or> 2 ^ 63 < x * 10 + d
          then leadingFraction x scale True s
          else leadingFraction (x * 10 + d) (float64 (scale * 10)) False s)"

definition unitMap :: "(string \<times> nat) list" where
  "unitMap =
     [(''ns'', 1), (''us'', 1000), ([CHR 0xC2, CHR 0xB5, CHR ''s''], 1000),
      ([CHR 0xCE, CHR 0xBC, CHR ''s''], 1000), (''ms'', 1000000), (''s'', 1000000000),
      (''m'', 60000000000), (''h'', 3600000000000)]"

definition unit_char :: "char \<Rightarrow> bool" where
  "unit_char c \<longleftrightarrow> c \<noteq> CHR ''.'' \<and> digit_val c = None"

text \<open>One number with its unit, and the rest.\<close>

definition duration_segment :: "string \<Rightarrow> (nat \<times> string) option" where
  "duration_segment s =
     (if s = [] \<or> (hd s \<noteq> CHR ''.'' \<and> digit_val (hd s) = None) then None
      else
        (case leadingInt 0 s of
           None \<Rightarrow> None
         | Some (v, s1) \<Rightarrow>
             (let pre = length s \<noteq> length s1;
                  (f, scale, s2) = (if s1 \<noteq> [] \<and> hd s1 = CHR ''.'' then leadingFraction 0 1 False (tl s1) else (0, 1, s1));
                  post = (s1 \<noteq> [] \<and> hd s1 = CHR ''.'' \<and> length (tl s1) \<noteq> length s2);
                  u = takeWhile unit_char s2
              in
              if \<not> pre \<and> \<not> post then None
              else if u = [] then None
              else
                (case map_of unitMap u of
                   None \<Rightarrow> None
                 | Some unt \<Rightarrow>
                     if 2 ^ 63 div unt < v then None
                     else
                       (let v1 = v * unt;
                            v2 = (if 0 < f then v1 + nat \<lfloor>float64 (float64 (of_nat f) * float64 (of_nat unt / scale))\<rfloor> else v1)
                        in if 0 < f \<and> 2 ^ 63 < v2 then None
                           else Some (v2, dropWhile unit_char s2))))))"

lemma leadingInt_length: "leadingInt x s = Some (v, r) \<Longrightarrow> length r \<le> length s"
  by (induction x s rule: leadingInt.induct) (auto split: option.splits if_splits)

lemma leadingFraction_length: "leadingFraction x sc ov s = (f, sc', r) \<Longrightarrow> length r \<le> length s"
  by (induction x sc ov s rule: leadingFraction.induct) (auto split: option.splits if_splits)

lemma duration_segment_length: "duration_segment s = Some (v, r) \<Longrightarrow> length r < length s"
proof -
  assume run: "duration_segment s = Some (v, r)"
  then obtain v1 s1 where int: "leadingInt 0 s = Some (v1, s1)"
    by (auto simp: duration_segment_def split: if_splits option.splits)
  obtain f scale s2 where fm: "(f, scale, s2) =
      (if s1 \<noteq> [] \<and> hd s1 = CHR ''.'' then leadingFraction 0 1 False (tl s1) else (0, 1, s1))"
    by (metis prod_cases3)
  then have "length s2 \<le> length s1"
    by (auto dest: sym [THEN leadingFraction_length] split: if_splits)
  moreover have "length s1 \<le> length s" using leadingInt_length [OF int] .
  moreover have "takeWhile unit_char s2 \<noteq> [] \<and> r = dropWhile unit_char s2"
    using run int fm [symmetric] by (auto simp: duration_segment_def Let_def split: if_splits option.splits)
  moreover have "length s2 = length (takeWhile unit_char s2) + length (dropWhile unit_char s2)"
    by (metis length_append takeWhile_dropWhile_id)
  ultimately show ?thesis by (cases "takeWhile unit_char s2") auto
qed

text \<open>The sum is a 64-bit unsigned integer.\<close>

function duration_sum :: "nat \<Rightarrow> string \<Rightarrow> nat option" where
  "duration_sum d s =
     (if s = [] then Some d
      else
        (case duration_segment s of
           None \<Rightarrow> None
         | Some (v, r) \<Rightarrow>
             (let d' = (d + v) mod 2 ^ 64 in if 2 ^ 63 < d' then None else duration_sum d' r)))"
  by auto

termination
  by (relation "measure (\<lambda>(d, s). length s)") (auto dest: duration_segment_length)

declare duration_sum.simps [simp del]

definition ParseDuration :: "string \<Rightarrow> int option" where
  "ParseDuration orig =
     (let neg = (orig \<noteq> [] \<and> hd orig = CHR ''-'');
          s = (if orig \<noteq> [] \<and> (hd orig = CHR ''-'' \<or> hd orig = CHR ''+'') then tl orig else orig)
      in
      if s = ''0'' then Some 0
      else if s = [] then None
      else
        (case duration_sum 0 s of
           None \<Rightarrow> None
         | Some d \<Rightarrow>
             if neg then Some (- int d) else if 2 ^ 63 - 1 < d then None else Some (int d)))"

subsection \<open>What is printed is read back\<close>

definition digits_only :: "string \<Rightarrow> bool" where
  "digits_only ds \<longleftrightarrow> (\<forall>c \<in> set ds. digit_val c \<noteq> None)"

definition no_digit_first :: "string \<Rightarrow> bool" where
  "no_digit_first r \<longleftrightarrow> (case r of [] \<Rightarrow> True | c # _ \<Rightarrow> digit_val c = None)"

lemma parse_digits_le: "parse_digits x ds = Some n \<Longrightarrow> x \<le> n"
  by (induction x ds rule: parse_digits.induct) (auto split: option.splits)

lemma parse_digits_bound: "parse_digits x ds = Some n \<Longrightarrow> x < 10 ^ i \<Longrightarrow> n < 10 ^ (i + length ds)"
proof (induction x ds arbitrary: i rule: parse_digits.induct)
  case (2 x c cs)
  then obtain d where d: "digit_val c = Some d" "parse_digits (x * 10 + d) cs = Some n" by (auto split: option.splits)
  then have "d < 10" by (auto simp: digit_val_def Let_def split: if_splits)
  then have "x * 10 + d < 10 ^ Suc i" using 2(3) by simp
  from "2.IH" [OF d this] show ?case by simp
qed simp

lemma leadingInt_digits:
  "parse_digits x ds = Some n \<Longrightarrow> n \<le> 2 ^ 63 \<Longrightarrow> no_digit_first r \<Longrightarrow> leadingInt x (ds @ r) = Some (n, r)"
proof (induction x ds rule: parse_digits.induct)
  case (1 x)
  then show ?case by (cases r) (simp_all add: no_digit_first_def)
next
  case (2 x c cs)
  then obtain d where d: "digit_val c = Some d" "parse_digits (x * 10 + d) cs = Some n" by (auto split: option.splits)
  then have "x * 10 + d \<le> 2 ^ 63" using parse_digits_le [OF d(2)] 2(3) by linarith
  moreover have "\<not> 2 ^ 63 div 10 < x" using calculation by linarith
  ultimately show ?case using 2(1) [OF d 2(3,4)] d by simp
qed

lemma leadingFraction_digits:
  "parse_digits x ds = Some n \<Longrightarrow> x < 10 ^ i \<Longrightarrow> i + length ds \<le> 15 \<Longrightarrow> no_digit_first r \<Longrightarrow>
   leadingFraction x (10 ^ i) False (ds @ r) = (n, 10 ^ (i + length ds), r)"
proof (induction x ds arbitrary: i rule: parse_digits.induct)
  case (1 x)
  then show ?case by (cases r) (simp_all add: no_digit_first_def)
next
  case (2 x c cs)
  then obtain d where d: "digit_val c = Some d" "parse_digits (x * 10 + d) cs = Some n" by (auto split: option.splits)
  then have "d < 10" by (auto simp: digit_val_def Let_def split: if_splits)
  then have lt: "x * 10 + d < 10 ^ Suc i" using 2(3) by simp
  have "(10 :: nat) ^ Suc i \<le> 10 ^ 15" using 2(4) by (intro power_increasing) auto
  then have small: "x * 10 + d < 10 ^ 15" "10 ^ Suc i < (2 :: nat) ^ 53" using lt by simp_all
  then have "\<not> (2 ^ 63 - 1) div 10 < x" "\<not> 2 ^ 63 < x * 10 + d" by simp_all
  moreover have "float64 (10 ^ i * 10) = 10 ^ Suc i" using float64_nat [OF small(2)] by (simp add: mult.commute)
  ultimately show ?case using 2(1) [OF d lt] 2(4,5) d by simp
qed

text \<open>The fraction printed: its digits and their value.\<close>

lemma digit_val_of: "digit_val (digit (v mod 10)) = Some (v mod 10)"
  by (rule digit_val_digit) simp

lemma fmtFrac_more:
  "\<exists>ds. fmtFrac k v True acc = (CHR ''.'' # ds @ acc, v div 10 ^ k) \<and> length ds = k \<and>
     (\<forall>x. parse_digits x ds = Some (x * 10 ^ k + v mod 10 ^ k))"
proof (induction k arbitrary: v acc)
  case (Suc k)
  from Suc [of "v div 10" "digit (v mod 10) # acc"] obtain ds where
    ds: "fmtFrac k (v div 10) True (digit (v mod 10) # acc) = (CHR ''.'' # ds @ digit (v mod 10) # acc, v div 10 div 10 ^ k)"
      "length ds = k" "\<forall>x. parse_digits x ds = Some (x * 10 ^ k + v div 10 mod 10 ^ k)" by blast
  have "v mod 10 ^ Suc k = (v div 10 mod 10 ^ k) * 10 + v mod 10" by (simp add: mod_mult2_eq algebra_simps)
  then show ?case using ds
    by (intro exI [of _ "ds @ [digit (v mod 10)]"])
      (simp add: Let_def div_mult2_eq parse_digits_append digit_val_of algebra_simps)
qed simp

lemma fmtFrac_spec:
  "(v mod 10 ^ k = 0 \<and> fmtFrac k v False [] = ([], v div 10 ^ k)) \<or>
   (\<exists>ds f. fmtFrac k v False [] = (CHR ''.'' # ds, v div 10 ^ k) \<and> ds \<noteq> [] \<and> length ds \<le> k \<and>
      parse_digits 0 ds = Some f \<and> 0 < f \<and> v mod 10 ^ k = f * 10 ^ (k - length ds))"
proof (induction k arbitrary: v)
  case (Suc k)
  have step: "v mod 10 ^ Suc k = (v div 10 mod 10 ^ k) * 10 + v mod 10" by (simp add: mod_mult2_eq algebra_simps)
  show ?case
  proof (cases "v mod 10 = 0")
    case True
    from Suc [of "v div 10"] show ?thesis
    proof (elim disjE exE conjE)
      assume "v div 10 mod 10 ^ k = 0" "fmtFrac k (v div 10) False [] = ([], v div 10 div 10 ^ k)"
      then show ?thesis using True step by (simp add: div_mult2_eq)
    next
      fix ds f
      assume *: "fmtFrac k (v div 10) False [] = (CHR ''.'' # ds, v div 10 div 10 ^ k)" "ds \<noteq> []" "length ds \<le> k"
        "parse_digits 0 ds = Some f" "0 < f" "v div 10 mod 10 ^ k = f * 10 ^ (k - length ds)"
      then have "v mod 10 ^ Suc k = f * 10 ^ (Suc k - length ds)"
        using True step by (simp add: Suc_diff_le)
      then show ?thesis using * True by (auto simp: div_mult2_eq)
    qed
  next
    case False
    obtain ds where ds: "fmtFrac k (v div 10) True [digit (v mod 10)] =
        (CHR ''.'' # ds @ [digit (v mod 10)], v div 10 div 10 ^ k)"
      "length ds = k" "\<forall>x. parse_digits x ds = Some (x * 10 ^ k + v div 10 mod 10 ^ k)"
      using fmtFrac_more by blast
    then have "parse_digits 0 (ds @ [digit (v mod 10)]) = Some (v mod 10 ^ Suc k)"
      using step by (simp add: parse_digits_append digit_val_of)
    moreover have "0 < v mod 10 ^ Suc k" using False step by simp
    ultimately show ?thesis using ds False
      by (intro disjI2 exI [of _ "ds @ [digit (v mod 10)]"] exI [of _ "v mod 10 ^ Suc k"])
        (simp add: div_mult2_eq)
  qed
qed simp

lemma fmtFrac_snd: "fmtFrac k v False [] = (ft, w) \<Longrightarrow> w = v div 10 ^ k"
  using fmtFrac_spec [of v k] by auto

lemma fmtFrac_fst: "v mod 10 ^ k = w mod 10 ^ k \<Longrightarrow> fst (fmtFrac k v pr acc) = fst (fmtFrac k w pr acc)"
proof (induction k arbitrary: v w pr acc)
  case (Suc k)
  have split: "x mod 10 = (x mod 10 ^ Suc k) mod 10" "x div 10 mod 10 ^ k = (x mod 10 ^ Suc k) div 10" for x :: nat
  proof -
    have eq: "x mod 10 ^ Suc k = 10 * (x div 10 mod 10 ^ k) + x mod 10" by (simp only: power_Suc mod_mult2_eq)
    show "x mod 10 = (x mod 10 ^ Suc k) mod 10" "x div 10 mod 10 ^ k = (x mod 10 ^ Suc k) div 10"
      unfolding eq by simp_all
  qed
  have "v mod 10 = w mod 10" "v div 10 mod 10 ^ k = w div 10 mod 10 ^ k"
    using split(1) [of v] split(2) [of v] unfolding Suc.prems split(1) [of w, symmetric] split(2) [of w, symmetric] .
  then show ?case using Suc.IH [of "v div 10" "w div 10"] by (simp only: fmtFrac.simps Let_def)
qed simp

lemma numeral_pow: "(10 :: nat) ^ 9 = 1000000000"
  by simp

lemma hms:
  "m * 60 + ss = s \<Longrightarrow> h * 60 + mm = m \<Longrightarrow> s * 1000000000 + f = u \<Longrightarrow>
     h * 3600000000000 + mm * 60000000000 + (ss * 1000000000 + f) = (u :: nat)"
  by linarith

text \<open>A segment as it is printed, the rest empty or starting with a digit.\<close>

definition unit_name :: "string \<Rightarrow> nat \<Rightarrow> bool" where
  "unit_name us unt \<longleftrightarrow> us \<noteq> [] \<and> list_all unit_char us \<and> map_of unitMap us = Some unt"

definition digit_first :: "string \<Rightarrow> bool" where
  "digit_first r \<longleftrightarrow> r = [] \<or> digit_val (hd r) \<noteq> None"

lemma unit_names:
  "unit_name ''ns'' 1" "unit_name [CHR 0xC2, CHR 0xB5, CHR ''s''] 1000" "unit_name ''ms'' 1000000"
  "unit_name ''s'' 1000000000" "unit_name ''m'' 60000000000" "unit_name ''h'' 3600000000000"
  by (simp_all add: unit_name_def unitMap_def unit_char_def digit_val_def)

lemma unit_split:
  assumes "unit_name us unt" and "digit_first r"
  shows "takeWhile unit_char (us @ r) = us" and "dropWhile unit_char (us @ r) = r"
proof -
  have all: "\<forall>c \<in> set us. unit_char c" using assms(1) by (simp add: unit_name_def list_all_iff)
  have "takeWhile unit_char r = [] \<and> dropWhile unit_char r = r"
    using assms(2) by (cases r) (auto simp: digit_first_def unit_char_def)
  then show "takeWhile unit_char (us @ r) = us" "dropWhile unit_char (us @ r) = r" using all by simp_all
qed

lemma unit_no_digit: "unit_name us unt \<Longrightarrow> no_digit_first (us @ r) \<and> us @ r \<noteq> [] \<and> hd (us @ r) \<noteq> CHR ''.''"
  by (cases us) (auto simp: unit_name_def no_digit_first_def unit_char_def)

lemma nat_digits_head: "nat_digits n @ r \<noteq> [] \<and> digit_val (hd (nat_digits n @ r)) \<noteq> None"
proof -
  obtain c cs where eq: "nat_digits n = c # cs" using nat_digits_nonempty [of n] by (cases "nat_digits n") auto
  then show ?thesis using nat_digits_digits [of c n] by auto
qed

lemma segment_start:
  assumes "v \<le> 2 ^ 63" and "no_digit_first r"
  shows "leadingInt 0 (nat_digits v @ r) = Some (v, r)"
  using leadingInt_digits [OF parse_nat_digits assms] .

lemma segment_whole:
  assumes "unit_name us unt" and "digit_first r" and "v \<le> 2 ^ 63 div unt"
  shows "duration_segment (nat_digits v @ us @ r) = Some (v * unt, r)"
proof -
  have "v \<le> 2 ^ 63" using assms(3) div_le_dividend [of "2 ^ 63" unt] by linarith
  moreover note rest = unit_no_digit [OF assms(1), of r]
  ultimately have int: "leadingInt 0 (nat_digits v @ us @ r) = Some (v, us @ r)" using segment_start by blast
  have "us \<noteq> []" "map_of unitMap us = Some unt" using assms(1) by (simp_all add: unit_name_def)
  then show ?thesis
    using int rest nat_digits_head [of v "us @ r"] unit_split [OF assms(1,2)] assms(3)
    by (simp add: duration_segment_def)
qed

lemma segment_frac:
  assumes "unit_name us (10 ^ k)" and "k \<le> 9" and "digit_first r" and "u \<le> 2 ^ 63"
    and "fmtFrac k u False [] = (ft, v)"
  shows "duration_segment (nat_digits v @ ft @ us @ r) = Some (u, r)"
proof -
  have v: "v = u div 10 ^ k" using fmtFrac_spec [of u k] assms(5) by auto
  have small: "v \<le> 2 ^ 63 div 10 ^ k" using assms(4) unfolding v by (rule div_le_mono)
  from fmtFrac_spec [of u k] show ?thesis
  proof (elim disjE exE conjE)
    assume "u mod 10 ^ k = 0" and "fmtFrac k u False [] = ([], u div 10 ^ k)"
    then show ?thesis using segment_whole [OF assms(1,3) small] assms(5) v by (auto simp: div_mult_swap)
  next
    fix ds f
    assume fm: "fmtFrac k u False [] = (CHR ''.'' # ds, u div 10 ^ k)" and ds: "ds \<noteq> []" "length ds \<le> k"
      "parse_digits 0 ds = Some f" "0 < f" "u mod 10 ^ k = f * 10 ^ (k - length ds)"
    have eq: "ft = CHR ''.'' # ds" using fm assms(5) by simp
    note rest = unit_no_digit [OF assms(1), of r]
    have "v \<le> 2 ^ 63" using small div_le_dividend [of "2 ^ 63" "10 ^ k"] by linarith
    then have int: "leadingInt 0 (nat_digits v @ ft @ us @ r) = Some (v, ft @ us @ r)"
      by (rule segment_start) (simp add: eq no_digit_first_def digit_val_def)
    have lf: "leadingFraction 0 1 False (ds @ us @ r) = (f, 10 ^ length ds, us @ r)"
      using leadingFraction_digits [OF ds(3), of 0 "us @ r"] ds(2) assms(2) rest by simp
    have "f < 10 ^ length ds" using parse_digits_bound [OF ds(3), of 0] by simp
    also have "\<dots> \<le> 10 ^ 9" using ds(2) assms(2) by (intro power_increasing) auto
    finally have f: "f < 2 ^ 53" by simp
    have "(10 :: nat) ^ (k - length ds) \<le> 10 ^ 9" using assms(2) by (intro power_increasing) auto
    then have w: "10 ^ (k - length ds) < (2 :: nat) ^ 53" by simp
    have m: "f * 10 ^ (k - length ds) < 2 ^ 53"
    proof -
      have "u mod 10 ^ k < 10 ^ k" by simp
      also have "(10 :: nat) ^ k \<le> 10 ^ 9" using assms(2) by (intro power_increasing) auto
      finally show ?thesis using ds(5) by simp
    qed
    have scale: "(of_nat (10 ^ k) :: rat) / 10 ^ length ds = of_nat (10 ^ (k - length ds))"
      unfolding of_nat_power of_nat_numeral
      using ds(2) by (simp add: power_diff [of "10 :: rat"])
    have "float64 (float64 (of_nat f) * float64 (of_nat (10 ^ k) / 10 ^ length ds)) = of_nat (f * 10 ^ (k - length ds))"
      unfolding scale using float64_nat [OF f] float64_nat [OF w] float64_nat [OF m] by simp
    then have val: "nat \<lfloor>float64 (float64 (of_nat f) * float64 (of_nat (10 ^ k) / 10 ^ length ds))\<rfloor> = u mod 10 ^ k"
      using ds(5) by (simp only: floor_of_nat nat_int)
    have "v * 10 ^ k + u mod 10 ^ k = u" unfolding v by (rule div_mult_mod_eq)
    moreover have "us \<noteq> []" "map_of unitMap us = Some (10 ^ k)" using assms(1) by (simp_all add: unit_name_def)
    ultimately show ?thesis
      using int rest nat_digits_head [of v "ft @ us @ r"] unit_split [OF assms(1,3)] small lf val assms(4) ds(4)
      by (simp add: duration_segment_def eq)
  qed
qed

lemma duration_sum_step:
  assumes "duration_segment s = Some (v, r)" and "d + v \<le> 2 ^ 63"
  shows "duration_sum d s = duration_sum (d + v) r"
proof -
  have "s \<noteq> []" using assms(1) by (auto simp: duration_segment_def)
  moreover have "(d + v) mod 2 ^ 64 = d + v" using assms(2) by simp
  ultimately show ?thesis using assms by (subst duration_sum.simps) (simp add: Let_def)
qed

lemma duration_sum_end [simp]: "duration_sum d [] = Some d"
  by (simp add: duration_sum.simps)

lemma sum_frac:
  assumes "unit_name us (10 ^ k)" and "k \<le> 9" and "d + u \<le> 2 ^ 63" and "fmtFrac k u False [] = (ft, v)"
  shows "duration_sum d (nat_digits v @ ft @ us) = Some (d + u)"
  using duration_sum_step [of _ u "[]" d] segment_frac [OF assms(1,2) _ _ assms(4), of "[]"] assms(3)
  by (simp add: digit_first_def)

lemma sum_whole:
  assumes "unit_name us unt" and "0 < unt" and "digit_first r" and "d + v * unt \<le> 2 ^ 63"
  shows "duration_sum d (nat_digits v @ us @ r) = duration_sum (d + v * unt) r"
proof -
  have "v \<le> 2 ^ 63 div unt" using assms(2,4) by (simp add: less_eq_div_iff_mult_less_eq)
  from duration_sum_step [OF segment_whole [OF assms(1,3) this] assms(4)] show ?thesis .
qed

lemma digit_first_digits [simp]: "digit_first (nat_digits n @ r)"
  using nat_digits_head by (simp add: digit_first_def)

lemma sum_abs:
  assumes "u \<le> 2 ^ 63"
  shows "duration_sum 0 (abs_duration_string u) = Some u"
proof -
  have sub: "duration_sum 0 (fmt_unit k us u) = Some u" if "unit_name us (10 ^ k)" "k \<le> 9" for k us
    using sum_frac [OF that, of 0 u] assms by (cases "fmtFrac k u False []") (simp add: fmt_unit_def)
  have zero: "duration_sum 0 ''0s'' = Some 0"
    using sum_whole [OF unit_names(4), of "[]" 0 0] by (simp add: digit_first_def nat_digits_eval digit_def)
  obtain ft s where frac: "fmtFrac 9 u False [] = (ft, s)" by fastforce
  have s: "s = u div 10 ^ 9" by (rule fmtFrac_snd [OF frac])
  let ?m = "s div 60" let ?h = "?m div 60" let ?u = "(s mod 60) * 1000000000 + u mod 1000000000"
  have total: "?h * 3600000000000 + (?m mod 60) * 60000000000 + ?u = u"
  proof -
    have "?m * 60 + s mod 60 = s" "?h * 60 + ?m mod 60 = ?m" by (rule div_mult_mod_eq)+
    moreover have "s * 1000000000 + u mod 1000000000 = u"
      unfolding s numeral_pow by (rule div_mult_mod_eq)
    ultimately show ?thesis by (rule hms)
  qed
  have "?u mod 10 ^ 9 = u mod 10 ^ 9" "?u div 10 ^ 9 = s mod 60" unfolding numeral_pow by simp_all
  then have sec: "fmtFrac 9 ?u False [] = (ft, s mod 60)"
    using fmtFrac_fst [of ?u 9 u False "[]"] fmtFrac_snd [of 9 ?u] frac
    by (cases "fmtFrac 9 ?u False []") simp
  have last: "duration_sum d (nat_digits (s mod 60) @ ft @ ''s'') = Some (d + ?u)" if "d + ?u \<le> 2 ^ 63" for d
    using sum_frac [of "''s''" 9, OF _ _ that sec] unit_names(4) by simp
  have mins: "duration_sum d (nat_digits (?m mod 60) @ ''m'' @ nat_digits (s mod 60) @ ft @ ''s'') =
      Some (d + (?m mod 60) * 60000000000 + ?u)" if "d + (?m mod 60) * 60000000000 + ?u \<le> 2 ^ 63" for d
    using sum_whole [OF unit_names(5), of _ d "?m mod 60"] last [of "d + (?m mod 60) * 60000000000"] that by simp
  have hours: "duration_sum 0 (nat_digits ?h @ ''h'' @ nat_digits (?m mod 60) @ ''m'' @ nat_digits (s mod 60) @ ft @ ''s'') = Some u"
    using sum_whole [OF unit_names(6), of _ 0 ?h] mins [of "?h * 3600000000000"] total assms by simp
  have big: "duration_sum 0 (abs_duration_string u) = Some u" if "10 ^ 9 \<le> u"
  proof -
    have shape: "abs_duration_string u =
        (if ?m = 0 then [] else (if ?h = 0 then [] else nat_digits ?h @ ''h'') @ nat_digits (?m mod 60) @ ''m'')
        @ nat_digits (s mod 60) @ ft @ ''s''"
      using that frac by (simp add: abs_duration_string_def Let_def)
    consider "?m = 0" | "?m \<noteq> 0" "?h = 0" | "?m \<noteq> 0" "?h \<noteq> 0" by blast
    then show ?thesis
    proof cases
      case 1
      then have "?u = u" using total by simp
      then show ?thesis using 1 last [of 0] assms unfolding shape by simp
    next
      case 2
      then have "(?m mod 60) * 60000000000 + ?u = u" using total by simp
      then show ?thesis using 2 mins [of 0] assms unfolding shape by simp
    next
      case 3
      then show ?thesis using hours unfolding shape by simp
    qed
  qed
  show ?thesis
    using zero big sub [OF unit_names(1) [folded power_0 [of "10 :: nat"]]] sub [of "[CHR 0xC2, CHR 0xB5, CHR ''s'']" 3]
      sub [of "''ms''" 6] unit_names
    by (cases "10 ^ 9 \<le> u") (simp_all add: abs_duration_string_def)
qed

lemma nat_digits_cons: "\<exists>c cs. nat_digits n @ r = c # cs \<and> c \<noteq> CHR ''-'' \<and> c \<noteq> CHR ''+'' \<and> length r \<le> length cs"
proof -
  obtain c cs where eq: "nat_digits n = c # cs" using nat_digits_nonempty [of n] by (cases "nat_digits n") auto
  then show ?thesis using nat_digits_no_sign [of c n] by auto
qed

lemma abs_duration_head:
  "\<exists>c cs. abs_duration_string u = c # cs \<and> c \<noteq> CHR ''-'' \<and> c \<noteq> CHR ''+'' \<and> cs \<noteq> []"
proof -
  have digits: "\<exists>c cs. nat_digits n @ r @ us = c # cs \<and> c \<noteq> CHR ''-'' \<and> c \<noteq> CHR ''+'' \<and> cs \<noteq> []"
    if "us \<noteq> []" for n r us
    using nat_digits_cons [of n "r @ us"] that by auto
  have unit: "\<exists>c cs. fmt_unit k us u = c # cs \<and> c \<noteq> CHR ''-'' \<and> c \<noteq> CHR ''+'' \<and> cs \<noteq> []" if "us \<noteq> []" for k us
    using digits [OF that] by (simp add: fmt_unit_def split: prod.split)
  obtain ft s where frac: "fmtFrac 9 u False [] = (ft, s)" by fastforce
  consider "u < 1000000000" | "1000000000 \<le> u" "s div 60 = 0" | "1000000000 \<le> u" "s div 60 \<noteq> 0" "s div 60 div 60 = 0"
    | "1000000000 \<le> u" "s div 60 \<noteq> 0" "s div 60 div 60 \<noteq> 0" by linarith
  then show ?thesis
  proof cases
    case 1
    then show ?thesis using unit by (simp add: abs_duration_string_def)
  next
    case 2
    then show ?thesis using digits [of "''s''" "s mod 60" ft] by (simp add: abs_duration_string_def frac Let_def)
  next
    case 3
    then show ?thesis using digits [of "''s''" "s div 60 mod 60" "''m'' @ nat_digits (s mod 60) @ ft"]
      by (simp add: abs_duration_string_def frac Let_def)
  next
    case 4
    then show ?thesis
      using digits [of "''s''" "s div 60 div 60" "''h'' @ nat_digits (s div 60 mod 60) @ ''m'' @ nat_digits (s mod 60) @ ft"]
      by (simp add: abs_duration_string_def frac Let_def)
  qed
qed

text \<open>Every 64-bit duration, the least included, is read back from its text.\<close>

lemma parse_duration_string:
  assumes "in_int64 d"
  shows "ParseDuration (Duration_String d) = Some d"
proof -
  have run: "duration_sum 0 (abs_duration_string (nat \<bar>d\<bar>)) = Some (nat \<bar>d\<bar>)"
    using assms by (intro sum_abs) (simp add: in_int64_def nat_le_iff abs_le_iff)
  obtain c cs where abs: "abs_duration_string (nat \<bar>d\<bar>) = c # cs" and c: "c \<noteq> CHR ''-''" "c \<noteq> CHR ''+''"
    and cs: "cs \<noteq> []"
    using abs_duration_head [of "nat \<bar>d\<bar>"] by blast
  note run' = run [unfolded abs]
  show ?thesis
  proof (cases "d < 0")
    case True
    then have "Duration_String d = CHR ''-'' # c # cs" using abs by (simp add: Duration_String_def)
    then show ?thesis using run' True cs by (simp add: ParseDuration_def)
  next
    case False
    then have "Duration_String d = c # cs" using abs by (simp add: Duration_String_def)
    moreover have "nat d \<le> 2 ^ 63 - 1" using assms False by (simp add: in_int64_def)
    ultimately show ?thesis using run' False c cs by (simp add: ParseDuration_def)
  qed
qed

end
