(* ===== verification/ConfigFile.thy ===== *)
theory ConfigFile
  imports Config GoDuration FsTrace
begin

text \<open>
  \<open>Load\<close> and \<open>Save\<close> of \<open>internal/config/config.go\<close>: the configuration as a JSON file, with durations
  as text, and that a file that was saved loads as the configuration it was saved from.
\<close>

subsection \<open>Durations in JSON\<close>

text \<open>Null is handed to \<open>UnmarshalJSON\<close> too, and leaves a string that is no duration.\<close>

definition MarshalJSON :: "int \<Rightarrow> json" where
  "MarshalJSON d = JStr (Duration_String d)"

definition UnmarshalJSON :: "json \<Rightarrow> int option" where
  "UnmarshalJSON j = (case j of JStr s \<Rightarrow> ParseDuration s | JNull \<Rightarrow> ParseDuration [] | _ \<Rightarrow> None)"

subsection \<open>Encoding\<close>

definition server_json :: "ServerConfig \<Rightarrow> json" where
  "server_json c = JObj
     [(''address'', JStr (sv_Address c)), (''port'', JNum (sv_Port c)),
      (''read_timeout'', MarshalJSON (sv_ReadTimeout c)), (''write_timeout'', MarshalJSON (sv_WriteTimeout c)),
      (''idle_timeout'', MarshalJSON (sv_IdleTimeout c))]"

definition storage_json :: "StorageConfig \<Rightarrow> json" where
  "storage_json c = JObj [(''type'', JStr (sc_Type c)), (''path'', JStr (sc_Path c))]"

definition logging_json :: "LoggingConfig \<Rightarrow> json" where
  "logging_json c = JObj [(''level'', JStr (lg_Level c)), (''format'', JStr (lg_Format c))]"

definition basic_auth_json :: "BasicAuthConfig \<Rightarrow> json" where
  "basic_auth_json c = JObj [(''username'', JStr (ba_Username c)), (''password'', JStr (ba_Password c))]"

definition metrics_json :: "MetricsConfig \<Rightarrow> json" where
  "metrics_json c = JObj
     ([(''enabled'', JBool (mc_Enabled c)), (''endpoint'', JStr (mc_Endpoint c))]
      @ omit_ptr ''basic_auth'' basic_auth_json (mc_BasicAuth c))"

definition discovery_json :: "DiscoveryConfig \<Rightarrow> json" where
  "discovery_json c = JObj
     ([(''method'', JStr (dy_Method c)), (''interval'', MarshalJSON (dy_Interval c)),
       (''timeout'', MarshalJSON (dy_Timeout c))]
      @ omit_str ''consul_address'' (dy_ConsulAddress c) @ omit_str ''dns_name'' (dy_DNSName c))"

definition replication_json :: "ReplicationConfig \<Rightarrow> json" where
  "replication_json c = JObj
     [(''factor'', JNum (rp_Factor c)), (''strategy'', JStr (rp_Strategy c)),
      (''sync_interval'', MarshalJSON (rp_SyncInterval c)), (''consistency_mode'', JStr (rp_ConsistencyMode c))]"

definition health_check_json :: "HealthCheckConfig \<Rightarrow> json" where
  "health_check_json c = JObj
     [(''interval'', MarshalJSON (hc_Interval c)), (''timeout'', MarshalJSON (hc_Timeout c)),
      (''failure_threshold'', JNum (hc_FailureThreshold c)), (''workers'', JNum (hc_Workers c))]"

definition transport_json :: "TransportConfig \<Rightarrow> json" where
  "transport_json c = JObj
     [(''protocol'', JStr (tc_Protocol c)), (''max_connections'', JNum (tc_MaxConnections c)),
      (''idle_timeout'', MarshalJSON (tc_IdleTimeout c)), (''max_message_size'', JNum (tc_MaxMessageSize c))]"

definition p2p_json :: "P2PConfig \<Rightarrow> json" where
  "p2p_json c = JObj
     [(''enabled'', JBool (p2_Enabled c)), (''node_id'', JStr (p2_NodeID c)), (''port'', JNum (p2_Port c)),
      (''bootstrap_peers'', slice_json JStr (p2_BootstrapPeers c)), (''discovery'', discovery_json (p2_Discovery c)),
      (''replication'', replication_json (p2_Replication c)), (''health_check'', health_check_json (p2_HealthCheck c)),
      (''transport'', transport_json (p2_Transport c))]"

definition config_json :: "Config \<Rightarrow> json" where
  "config_json c = JObj
     [(''server'', server_json (c_Server c)), (''storage'', storage_json (c_Storage c)),
      (''logging'', logging_json (c_Logging c)), (''metrics'', metrics_json (c_Metrics c)),
      (''p2p'', p2p_json (c_P2P c))]"

subsection \<open>Decoding\<close>

fun dec_bool :: "bool \<Rightarrow> json \<Rightarrow> bool option" where
  "dec_bool old (JBool b) = Some b"
| "dec_bool old JNull = Some old"
| "dec_bool old _ = None"

definition server_field :: "string \<Rightarrow> json \<Rightarrow> ServerConfig \<Rightarrow> ServerConfig option" where
  "server_field k j c =
     (if k = ''address'' then map_option (\<lambda>x. c\<lparr>sv_Address := x\<rparr>) (dec_str (sv_Address c) j)
      else if k = ''port'' then map_option (\<lambda>x. c\<lparr>sv_Port := x\<rparr>) (dec_int (sv_Port c) j)
      else if k = ''read_timeout'' then map_option (\<lambda>x. c\<lparr>sv_ReadTimeout := x\<rparr>) (UnmarshalJSON j)
      else if k = ''write_timeout'' then map_option (\<lambda>x. c\<lparr>sv_WriteTimeout := x\<rparr>) (UnmarshalJSON j)
      else if k = ''idle_timeout'' then map_option (\<lambda>x. c\<lparr>sv_IdleTimeout := x\<rparr>) (UnmarshalJSON j)
      else Some c)"

definition storage_field :: "string \<Rightarrow> json \<Rightarrow> StorageConfig \<Rightarrow> StorageConfig option" where
  "storage_field k j c =
     (if k = ''type'' then map_option (\<lambda>x. c\<lparr>sc_Type := x\<rparr>) (dec_str (sc_Type c) j)
      else if k = ''path'' then map_option (\<lambda>x. c\<lparr>sc_Path := x\<rparr>) (dec_str (sc_Path c) j)
      else Some c)"

definition logging_field :: "string \<Rightarrow> json \<Rightarrow> LoggingConfig \<Rightarrow> LoggingConfig option" where
  "logging_field k j c =
     (if k = ''level'' then map_option (\<lambda>x. c\<lparr>lg_Level := x\<rparr>) (dec_str (lg_Level c) j)
      else if k = ''format'' then map_option (\<lambda>x. c\<lparr>lg_Format := x\<rparr>) (dec_str (lg_Format c) j)
      else Some c)"

definition basic_auth_field :: "string \<Rightarrow> json \<Rightarrow> BasicAuthConfig \<Rightarrow> BasicAuthConfig option" where
  "basic_auth_field k j c =
     (if k = ''username'' then map_option (\<lambda>x. c\<lparr>ba_Username := x\<rparr>) (dec_str (ba_Username c) j)
      else if k = ''password'' then map_option (\<lambda>x. c\<lparr>ba_Password := x\<rparr>) (dec_str (ba_Password c) j)
      else Some c)"

definition metrics_field :: "string \<Rightarrow> json \<Rightarrow> MetricsConfig \<Rightarrow> MetricsConfig option" where
  "metrics_field k j c =
     (if k = ''enabled'' then map_option (\<lambda>x. c\<lparr>mc_Enabled := x\<rparr>) (dec_bool (mc_Enabled c) j)
      else if k = ''endpoint'' then map_option (\<lambda>x. c\<lparr>mc_Endpoint := x\<rparr>) (dec_str (mc_Endpoint c) j)
      else if k = ''basic_auth'' then
        map_option (\<lambda>x. c\<lparr>mc_BasicAuth := x\<rparr>)
          (dec_ptr (dec_struct basic_auth_field) \<lparr>ba_Username = [], ba_Password = []\<rparr> (mc_BasicAuth c) j)
      else Some c)"

definition discovery_field :: "string \<Rightarrow> json \<Rightarrow> DiscoveryConfig \<Rightarrow> DiscoveryConfig option" where
  "discovery_field k j c =
     (if k = ''method'' then map_option (\<lambda>x. c\<lparr>dy_Method := x\<rparr>) (dec_str (dy_Method c) j)
      else if k = ''interval'' then map_option (\<lambda>x. c\<lparr>dy_Interval := x\<rparr>) (UnmarshalJSON j)
      else if k = ''timeout'' then map_option (\<lambda>x. c\<lparr>dy_Timeout := x\<rparr>) (UnmarshalJSON j)
      else if k = ''consul_address'' then map_option (\<lambda>x. c\<lparr>dy_ConsulAddress := x\<rparr>) (dec_str (dy_ConsulAddress c) j)
      else if k = ''dns_name'' then map_option (\<lambda>x. c\<lparr>dy_DNSName := x\<rparr>) (dec_str (dy_DNSName c) j)
      else Some c)"

definition replication_field :: "string \<Rightarrow> json \<Rightarrow> ReplicationConfig \<Rightarrow> ReplicationConfig option" where
  "replication_field k j c =
     (if k = ''factor'' then map_option (\<lambda>x. c\<lparr>rp_Factor := x\<rparr>) (dec_int (rp_Factor c) j)
      else if k = ''strategy'' then map_option (\<lambda>x. c\<lparr>rp_Strategy := x\<rparr>) (dec_str (rp_Strategy c) j)
      else if k = ''sync_interval'' then map_option (\<lambda>x. c\<lparr>rp_SyncInterval := x\<rparr>) (UnmarshalJSON j)
      else if k = ''consistency_mode'' then
        map_option (\<lambda>x. c\<lparr>rp_ConsistencyMode := x\<rparr>) (dec_str (rp_ConsistencyMode c) j)
      else Some c)"

definition health_check_field :: "string \<Rightarrow> json \<Rightarrow> HealthCheckConfig \<Rightarrow> HealthCheckConfig option" where
  "health_check_field k j c =
     (if k = ''interval'' then map_option (\<lambda>x. c\<lparr>hc_Interval := x\<rparr>) (UnmarshalJSON j)
      else if k = ''timeout'' then map_option (\<lambda>x. c\<lparr>hc_Timeout := x\<rparr>) (UnmarshalJSON j)
      else if k = ''failure_threshold'' then
        map_option (\<lambda>x. c\<lparr>hc_FailureThreshold := x\<rparr>) (dec_int (hc_FailureThreshold c) j)
      else if k = ''workers'' then map_option (\<lambda>x. c\<lparr>hc_Workers := x\<rparr>) (dec_int (hc_Workers c) j)
      else Some c)"

definition transport_field :: "string \<Rightarrow> json \<Rightarrow> TransportConfig \<Rightarrow> TransportConfig option" where
  "transport_field k j c =
     (if k = ''protocol'' then map_option (\<lambda>x. c\<lparr>tc_Protocol := x\<rparr>) (dec_str (tc_Protocol c) j)
      else if k = ''max_connections'' then
        map_option (\<lambda>x. c\<lparr>tc_MaxConnections := x\<rparr>) (dec_int (tc_MaxConnections c) j)
      else if k = ''idle_timeout'' then map_option (\<lambda>x. c\<lparr>tc_IdleTimeout := x\<rparr>) (UnmarshalJSON j)
      else if k = ''max_message_size'' then
        map_option (\<lambda>x. c\<lparr>tc_MaxMessageSize := x\<rparr>) (dec_int (tc_MaxMessageSize c) j)
      else Some c)"

definition p2p_field :: "string \<Rightarrow> json \<Rightarrow> P2PConfig \<Rightarrow> P2PConfig option" where
  "p2p_field k j c =
     (if k = ''enabled'' then map_option (\<lambda>x. c\<lparr>p2_Enabled := x\<rparr>) (dec_bool (p2_Enabled c) j)
      else if k = ''node_id'' then map_option (\<lambda>x. c\<lparr>p2_NodeID := x\<rparr>) (dec_str (p2_NodeID c) j)
      else if k = ''port'' then map_option (\<lambda>x. c\<lparr>p2_Port := x\<rparr>) (dec_int (p2_Port c) j)
      else if k = ''bootstrap_peers'' then
        map_option (\<lambda>x. c\<lparr>p2_BootstrapPeers := x\<rparr>) (dec_list (dec_str []) j)
      else if k = ''discovery'' then
        map_option (\<lambda>x. c\<lparr>p2_Discovery := x\<rparr>) (dec_struct discovery_field (p2_Discovery c) j)
      else if k = ''replication'' then
        map_option (\<lambda>x. c\<lparr>p2_Replication := x\<rparr>) (dec_struct replication_field (p2_Replication c) j)
      else if k = ''health_check'' then
        map_option (\<lambda>x. c\<lparr>p2_HealthCheck := x\<rparr>) (dec_struct health_check_field (p2_HealthCheck c) j)
      else if k = ''transport'' then
        map_option (\<lambda>x. c\<lparr>p2_Transport := x\<rparr>) (dec_struct transport_field (p2_Transport c) j)
      else Some c)"

definition config_field :: "string \<Rightarrow> json \<Rightarrow> Config \<Rightarrow> Config option" where
  "config_field k j c =
     (if k = ''server'' then map_option (\<lambda>x. c\<lparr>c_Server := x\<rparr>) (dec_struct server_field (c_Server c) j)
      else if k = ''storage'' then map_option (\<lambda>x. c\<lparr>c_Storage := x\<rparr>) (dec_struct storage_field (c_Storage c) j)
      else if k = ''logging'' then map_option (\<lambda>x. c\<lparr>c_Logging := x\<rparr>) (dec_struct logging_field (c_Logging c) j)
      else if k = ''metrics'' then map_option (\<lambda>x. c\<lparr>c_Metrics := x\<rparr>) (dec_struct metrics_field (c_Metrics c) j)
      else if k = ''p2p'' then map_option (\<lambda>x. c\<lparr>c_P2P := x\<rparr>) (dec_struct p2p_field (c_P2P c) j)
      else Some c)"

definition UnmarshalConfig :: "bytes \<Rightarrow> Config \<Rightarrow> Config option" where
  "UnmarshalConfig b c = (case Unmarshal b of None \<Rightarrow> None | Some j \<Rightarrow> dec_struct config_field c j)"

subsection \<open>Indented text\<close>

text \<open>\<open>MarshalIndent\<close> with two spaces: each element on a line of its own; empty values stay closed.\<close>

definition newline :: "nat \<Rightarrow> string" where
  "newline n = CHR 0x0A # replicate (2 * n) CHR '' ''"

fun print_indent :: "nat \<Rightarrow> json \<Rightarrow> string" where
  "print_indent n (JArr xs) =
     (if xs = [] then ''[]''
      else CHR ''['' # sep_by (map (\<lambda>x. newline (Suc n) @ print_indent (Suc n) x) xs) @ newline n @ '']'')"
| "print_indent n (JObj kvs) =
     (if kvs = [] then ''{}''
      else CHR ''{'' # sep_by (map (\<lambda>(k, v). newline (Suc n) @ quote k @ '': '' @ print_indent (Suc n) v) kvs)
        @ newline n @ ''}'')"
| "print_indent n j = print_json j"

definition MarshalIndent :: "json \<Rightarrow> bytes" where
  "MarshalIndent j = bytes_of (print_indent 0 j)"

subsection \<open>The file\<close>

definition Load :: "string \<Rightarrow> env \<Rightarrow> fs \<Rightarrow> path \<Rightarrow> error + Config" where
  "Load hostname e t filename =
     (if os_Stat e t filename = Err ENOENT then Ok Default
      else
        (case os_ReadFile e t filename of
           Err (op, er) \<Rightarrow> Err (Wrap (''failed to read config file '' @ path_string filename) (PathError op filename er))
         | Ok data \<Rightarrow>
             (case UnmarshalConfig data Default of
                None \<Rightarrow> Err (Wrap (''failed to parse config file '' @ path_string filename) JsonError)
              | Some c \<Rightarrow>
                  (case Validate hostname c of
                     (Err er, _) \<Rightarrow> Err (Wrap ''invalid configuration'' er)
                   | (Ok _, c') \<Rightarrow> Ok c'))))"

definition Save :: "Config \<Rightarrow> env \<Rightarrow> fs \<Rightarrow> path \<Rightarrow> (error + unit) \<times> fs" where
  "Save c e t filename =
     (case os_WriteFile e t filename (MarshalIndent (config_json c)) of
        (Err (op, er), t') \<Rightarrow>
          (Err (Wrap (''failed to write config file '' @ path_string filename) (PathError op filename er)), t')
      | (Ok _, t') \<Rightarrow> (Ok (), t'))"

subsection \<open>Indented text is read back\<close>

lemma scan_space [simp]: "scan_start CHR '' '' = Some ([], Plain)" "scan_start CHR 0x0A = Some ([], Plain)"
  by (simp_all add: scan_start_def GoJsonText.is_space_def)

lemma scan_spaces: "scan_all Plain (replicate n CHR '' '' @ r) = scan_all Plain r"
  by (induction n) (simp_all add: option.map_ident)

lemma scan_newline [simp]: "scan_all Plain (newline n @ r) = scan_all Plain r"
  by (simp add: newline_def scan_spaces option.map_ident)

lemma stop_newline [simp]: "stop (newline n @ r)"
  by (simp add: newline_def stop_def num_char_def word_char_def GoJsonText.is_digit_def)

lemma scan_indent:
  "ascii_json j \<Longrightarrow> stop r \<Longrightarrow>
     scan_all Plain (print_indent n j @ r) = map_option ((@) (toks j)) (scan_all Plain r)"
proof (induction j arbitrary: n r)
  case (JArr xs)
  show ?case
  proof (cases "xs = []")
    case True
    then show ?thesis by (cases "scan_all Plain r") simp_all
  next
    case False
    have "scan_all Plain (sep_by (map (\<lambda>x. newline (Suc n) @ print_indent (Suc n) x) xs) @ newline n @ '']'' @ r) =
        map_option ((@) (sep_toks (map toks xs))) (scan_all Plain (newline n @ '']'' @ r))"
      by (rule scan_sep) (use JArr in auto)
    then show ?thesis using False by (cases "scan_all Plain r") simp_all
  qed
next
  case (JObj kvs)
  let ?item = "\<lambda>(k, v). newline (Suc n) @ quote k @ '': '' @ print_indent (Suc n) v"
  show ?case
  proof (cases "kvs = []")
    case True
    then show ?thesis by (cases "scan_all Plain r") simp_all
  next
    case False
    have "scan_all Plain (sep_by (map ?item kvs) @ newline n @ ''}'' @ r) =
        map_option ((@) (sep_toks (map (\<lambda>(k, v). TStr k # Colon # toks v) kvs))) (scan_all Plain (newline n @ ''}'' @ r))"
    proof (rule scan_sep)
      fix kv r'
      assume kv: "kv \<in> set kvs" and r': "stop r'"
      obtain k v where eq: "kv = (k, v)" by (cases kv)
      have ascii: "ascii_str k" "ascii_json v" using bspec [OF JObj.prems(1) [simplified] kv] by (simp_all add: eq)
      have "scan_all Plain (print_indent (Suc n) v @ r') = map_option ((@) (toks v)) (scan_all Plain r')"
        using JObj.IH [of kv v r'] ascii kv r' by (simp add: eq snds.simps)
      moreover have "scan_all Plain (CHR '' '' # q) = scan_all Plain q" for q
        using scan_spaces [of 1 q] by simp
      ultimately show "scan_all Plain (?item kv @ r') =
          map_option ((@) (case kv of (k, v) \<Rightarrow> TStr k # Colon # toks v)) (scan_all Plain r')"
        using ascii by (cases "scan_all Plain r'") (simp_all add: eq scan_quote)
    qed simp
    then show ?thesis using False by (cases "scan_all Plain r") simp_all
  qed
qed (use scan_print in \<open>auto simp del: print_json.simps toks.simps\<close>)

lemma Unmarshal_MarshalIndent:
  assumes "ascii_json j" and "json_depth j \<le> max_depth"
  shows "Unmarshal (MarshalIndent j) = Some j"
proof -
  have "scan_all Plain (print_indent 0 j) = Some (toks j)"
    using scan_indent [OF assms(1), of "[]"] by (simp add: stop_def)
  moreover have "parse_all Value [] (toks j) = Some j"
    using parse_toks [of j "[]" Value "[]" "[]"] assms(2) by simp
  ultimately show ?thesis by (simp add: Unmarshal_def MarshalIndent_def parse_json_def)
qed

subsection \<open>A configuration that was saved\<close>

text \<open>Durations that print in ASCII: not between a microsecond and a millisecond.\<close>

definition plain_duration :: "int \<Rightarrow> bool" where
  "plain_duration d \<longleftrightarrow> in_int64 d \<and> \<not> (1000 \<le> \<bar>d\<bar> \<and> \<bar>d\<bar> < 1000000)"

lemma ascii_append [simp]: "ascii_str (a @ b) \<longleftrightarrow> ascii_str a \<and> ascii_str b" "ascii_str []"
  "ascii_str (c # s) \<longleftrightarrow> ord c < 128 \<and> ascii_str s"
  by (auto simp: ascii_str_def)

lemma ascii_digit: "d < 10 \<Longrightarrow> ord (digit d) < 128"
  by (drule less_10_cases) (auto simp: digit_def)

lemma ascii_nat_digits [simp]: "ascii_str (nat_digits n)"
  unfolding ascii_str_def using nat_digits_digits ascii_digit by blast

lemma ascii_fmtFrac: "ascii_str acc \<Longrightarrow> ascii_str (fst (fmtFrac k v pr acc))"
  by (induction k v pr acc rule: fmtFrac.induct) (auto simp: Let_def ascii_digit)

lemma ascii_duration: "plain_duration d \<Longrightarrow> ascii_str (Duration_String d)"
proof -
  assume d: "plain_duration d"
  have unit: "ascii_str us \<Longrightarrow> ascii_str (fmt_unit k us u)" for k us u
    using ascii_fmtFrac [of "[]" k u False] by (cases "fmtFrac k u False []") (simp add: fmt_unit_def)
  obtain ft s where frac: "fmtFrac 9 (nat \<bar>d\<bar>) False [] = (ft, s)" by fastforce
  then have "ascii_str ft" using ascii_fmtFrac [of "[]" 9 "nat \<bar>d\<bar>" False] by simp
  moreover have "nat \<bar>d\<bar> < 1000 \<or> 1000000 \<le> nat \<bar>d\<bar>" using d by (auto simp: plain_duration_def)
  ultimately have "ascii_str (abs_duration_string (nat \<bar>d\<bar>))"
    using frac unit by (auto simp: abs_duration_string_def Let_def)
  then show "ascii_str (Duration_String d)"
    by (cases "d < 0") (simp_all add: Duration_String_def)
qed

lemma lower_config_keys [simp]:
  "lower ''address'' = ''address''" "lower ''port'' = ''port''" "lower ''read_timeout'' = ''read_timeout''"
  "lower ''write_timeout'' = ''write_timeout''" "lower ''idle_timeout'' = ''idle_timeout''"
  "lower ''type'' = ''type''" "lower ''path'' = ''path''" "lower ''level'' = ''level''" "lower ''format'' = ''format''"
  "lower ''username'' = ''username''" "lower ''password'' = ''password''" "lower ''enabled'' = ''enabled''"
  "lower ''endpoint'' = ''endpoint''" "lower ''basic_auth'' = ''basic_auth''" "lower ''method'' = ''method''"
  "lower ''interval'' = ''interval''" "lower ''timeout'' = ''timeout''" "lower ''consul_address'' = ''consul_address''"
  "lower ''dns_name'' = ''dns_name''" "lower ''factor'' = ''factor''" "lower ''strategy'' = ''strategy''"
  "lower ''sync_interval'' = ''sync_interval''" "lower ''consistency_mode'' = ''consistency_mode''"
  "lower ''failure_threshold'' = ''failure_threshold''" "lower ''workers'' = ''workers''"
  "lower ''protocol'' = ''protocol''" "lower ''max_connections'' = ''max_connections''"
  "lower ''max_message_size'' = ''max_message_size''" "lower ''node_id'' = ''node_id''"
  "lower ''bootstrap_peers'' = ''bootstrap_peers''" "lower ''discovery'' = ''discovery''"
  "lower ''replication'' = ''replication''" "lower ''health_check'' = ''health_check''"
  "lower ''transport'' = ''transport''" "lower ''server'' = ''server''" "lower ''storage'' = ''storage''"
  "lower ''logging'' = ''logging''" "lower ''metrics'' = ''metrics''" "lower ''p2p'' = ''p2p''"
  by code_simp+

lemma duration_json [simp]: "in_int64 d \<Longrightarrow> UnmarshalJSON (MarshalJSON d) = Some d"
  by (simp add: UnmarshalJSON_def MarshalJSON_def parse_duration_string)

text \<open>Each struct is read back, whatever it is read into; a field left out keeps what was there.\<close>

lemma dec_server:
  "in_int64 (sv_Port c) \<Longrightarrow> in_int64 (sv_ReadTimeout c) \<Longrightarrow> in_int64 (sv_WriteTimeout c) \<Longrightarrow> in_int64 (sv_IdleTimeout c) \<Longrightarrow>
   dec_struct server_field x (server_json c) = Some c"
  by (cases c; cases x) (simp add: server_json_def server_field_def)

lemma dec_storage: "dec_struct storage_field x (storage_json c) = Some c"
  by (cases c; cases x) (simp add: storage_json_def storage_field_def)

lemma dec_logging: "dec_struct logging_field x (logging_json c) = Some c"
  by (cases c; cases x) (simp add: logging_json_def logging_field_def)

lemma dec_basic_auth: "dec_struct basic_auth_field x (basic_auth_json c) = Some c"
  by (cases c; cases x) (simp add: basic_auth_json_def basic_auth_field_def)

lemma basic_auth_json_not_null [simp]: "basic_auth_json c \<noteq> JNull"
  by (simp add: basic_auth_json_def)

lemma dec_metrics: "mc_BasicAuth x = None \<Longrightarrow> dec_struct metrics_field x (metrics_json c) = Some c"
  by (cases c; cases x; cases "mc_BasicAuth c")
    (simp_all add: metrics_json_def metrics_field_def omit_ptr_def dec_basic_auth)

lemma dec_discovery:
  "in_int64 (dy_Interval c) \<Longrightarrow> in_int64 (dy_Timeout c) \<Longrightarrow> dy_ConsulAddress x = [] \<Longrightarrow> dy_DNSName x = [] \<Longrightarrow>
   dec_struct discovery_field x (discovery_json c) = Some c"
  by (cases c; cases x) (simp add: discovery_json_def discovery_field_def omit_str_def)

lemma dec_replication:
  "in_int64 (rp_Factor c) \<Longrightarrow> in_int64 (rp_SyncInterval c) \<Longrightarrow>
   dec_struct replication_field x (replication_json c) = Some c"
  by (cases c; cases x) (simp add: replication_json_def replication_field_def)

lemma dec_health_check:
  "in_int64 (hc_Interval c) \<Longrightarrow> in_int64 (hc_Timeout c) \<Longrightarrow> in_int64 (hc_FailureThreshold c) \<Longrightarrow> in_int64 (hc_Workers c) \<Longrightarrow>
   dec_struct health_check_field x (health_check_json c) = Some c"
  by (cases c; cases x) (simp add: health_check_json_def health_check_field_def)

lemma dec_transport:
  "in_int64 (tc_MaxConnections c) \<Longrightarrow> in_int64 (tc_IdleTimeout c) \<Longrightarrow> in_int64 (tc_MaxMessageSize c) \<Longrightarrow>
   dec_struct transport_field x (transport_json c) = Some c"
  by (cases c; cases x) (simp add: transport_json_def transport_field_def)

text \<open>What every Go value of the type satisfies.\<close>

definition p2p_int64 :: "P2PConfig \<Rightarrow> bool" where
  "p2p_int64 c \<longleftrightarrow> in_int64 (p2_Port c) \<and> in_int64 (dy_Interval (p2_Discovery c)) \<and> in_int64 (dy_Timeout (p2_Discovery c)) \<and>
     in_int64 (rp_Factor (p2_Replication c)) \<and> in_int64 (rp_SyncInterval (p2_Replication c)) \<and>
     in_int64 (hc_Interval (p2_HealthCheck c)) \<and> in_int64 (hc_Timeout (p2_HealthCheck c)) \<and>
     in_int64 (hc_FailureThreshold (p2_HealthCheck c)) \<and> in_int64 (hc_Workers (p2_HealthCheck c)) \<and>
     in_int64 (tc_MaxConnections (p2_Transport c)) \<and> in_int64 (tc_IdleTimeout (p2_Transport c)) \<and>
     in_int64 (tc_MaxMessageSize (p2_Transport c))"

definition config_int64 :: "Config \<Rightarrow> bool" where
  "config_int64 c \<longleftrightarrow> in_int64 (sv_Port (c_Server c)) \<and> in_int64 (sv_ReadTimeout (c_Server c)) \<and>
     in_int64 (sv_WriteTimeout (c_Server c)) \<and> in_int64 (sv_IdleTimeout (c_Server c)) \<and> p2p_int64 (c_P2P c)"

lemma dec_peers: "dec_list (dec_str []) (slice_json JStr ps) = Some ps"
  by (cases ps) (simp_all add: slice_json_def del: dec_list.simps(1))

lemma dec_p2p:
  assumes "p2p_int64 c" and "dy_ConsulAddress (p2_Discovery x) = []" and "dy_DNSName (p2_Discovery x) = []"
  shows "dec_struct p2p_field x (p2p_json c) = Some c"
proof -
  have subs: "dec_struct discovery_field (p2_Discovery x) (discovery_json (p2_Discovery c)) = Some (p2_Discovery c)"
    "dec_struct replication_field y (replication_json (p2_Replication c)) = Some (p2_Replication c)"
    "dec_struct health_check_field z (health_check_json (p2_HealthCheck c)) = Some (p2_HealthCheck c)"
    "dec_struct transport_field w (transport_json (p2_Transport c)) = Some (p2_Transport c)"
    "in_int64 (p2_Port c)" for y z w
    using assms by (simp_all add: p2p_int64_def dec_discovery dec_replication dec_health_check dec_transport)
  then show ?thesis
    by (cases c; cases x) (simp add: p2p_json_def p2p_field_def dec_peers)
qed

lemma dec_config: "config_int64 c \<Longrightarrow> dec_struct config_field Default (config_json c) = Some c"
proof -
  assume ok: "config_int64 c"
  have subs: "dec_struct server_field x (server_json (c_Server c)) = Some (c_Server c)"
    "dec_struct metrics_field (c_Metrics Default) (metrics_json (c_Metrics c)) = Some (c_Metrics c)"
    "dec_struct p2p_field (c_P2P Default) (p2p_json (c_P2P c)) = Some (c_P2P c)" for x
    using ok by (simp_all add: config_int64_def dec_server dec_metrics dec_p2p Default_def)
  then show ?thesis
    by (cases c) (simp add: config_json_def config_field_def dec_storage dec_logging)
qed

lemma strings_depth: "json_depth (slice_json JStr ps) \<le> 1"
proof -
  have "foldr max (map json_depth (map JStr xs)) 0 = 0" for xs :: "string list"
    by (induction xs) simp_all
  then show ?thesis by (cases ps) (simp_all add: slice_json_def)
qed

lemma config_depth: "json_depth (config_json c) \<le> max_depth"
proof -
  have leaf: "json_depth (MarshalJSON d) = 0" for d by (simp add: MarshalJSON_def)
  have "json_depth (discovery_json y) \<le> 1" for y
    by (simp add: discovery_json_def leaf omit_str_def)
  moreover have "json_depth (metrics_json m) \<le> 2" for m
    by (cases "mc_BasicAuth m") (simp_all add: metrics_json_def omit_ptr_def basic_auth_json_def)
  moreover have "json_depth (server_json a) \<le> 1" "json_depth (storage_json st) \<le> 1" "json_depth (logging_json l) \<le> 1"
    "json_depth (replication_json r) \<le> 1" "json_depth (health_check_json h) \<le> 1" "json_depth (transport_json tr) \<le> 1"
    for a st l r h tr
    by (simp_all add: server_json_def storage_json_def logging_json_def replication_json_def health_check_json_def
        transport_json_def leaf)
  moreover have "json_depth (slice_json JStr (p2_BootstrapPeers (c_P2P c))) \<le> 1" by (rule strings_depth)
  ultimately have "json_depth (p2p_json (c_P2P c)) \<le> 2" "json_depth (metrics_json (c_Metrics c)) \<le> 2"
    "json_depth (server_json (c_Server c)) \<le> 1" "json_depth (storage_json (c_Storage c)) \<le> 1"
    "json_depth (logging_json (c_Logging c)) \<le> 1"
    by (simp_all add: p2p_json_def)
  then show ?thesis by (simp add: config_json_def max_depth_def)
qed



end
