(* ===== verification/Program.thy ===== *)
theory Program
  imports MetricsHandler Manager ConfigFile
begin

text \<open>
  \<open>cmd/octoserve/main.go\<close>: from the configuration to the running server. The store, the router, the
  middleware and the peer manager are put together as the configuration says; the request handler
  is the one the listener calls, and the shutdown undoes the start.
\<close>

subsection \<open>Logging\<close>

datatype Level = LevelDebug | LevelInfo | LevelWarn | LevelError

text \<open>The level, and whether lines are JSON.\<close>

definition setupLogger :: "LoggingConfig \<Rightarrow> Level \<times> bool" where
  "setupLogger cfg =
     (if lg_Level cfg = ''debug'' then LevelDebug
      else if lg_Level cfg = ''info'' then LevelInfo
      else if lg_Level cfg = ''warn'' then LevelWarn
      else if lg_Level cfg = ''error'' then LevelError
      else LevelInfo,
      lg_Format cfg = ''json'')"

subsection \<open>The store and the handlers\<close>

definition distributed_config :: "Config \<Rightarrow> dconfig" where
  "distributed_config cfg =
     (let r = p2_Replication (c_P2P cfg) in
      \<lparr>dc_ReplicationFactor = rp_Factor r, dc_Strategy = rp_Strategy r, dc_ConsistencyMode = rp_ConsistencyMode r,
       dc_RequestTimeout = 30 * Second\<rparr>)"

text \<open>The state of the process is the registry of metrics, the log, and the filesystem store with what
  the distributed store adds; without peers the handlers work on the filesystem store alone, and
  without metrics on the store itself.\<close>

definition program_endpoint :: "Config \<Rightarrow> (string \<Rightarrow> int) \<Rightarrow> net \<Rightarrow> env \<Rightarrow> endpoint \<Rightarrow> Store dstate web handler" where
  "program_endpoint cfg el nt e ep r w x =
     (if p2_Enabled (c_P2P cfg) then
        (let store = distributed_ops (distributed_config cfg) nt (fs_ops e) in
         if mc_Enabled (c_Metrics cfg) then run_endpoint (metrics_ops el store) ep r w x
         else
           (case serve ep store r w (wb_store x) of
              (w1, st1) \<Rightarrow> (w1, x\<lparr>wb_store := st1\<rparr>)))
      else if mc_Enabled (c_Metrics cfg) then
        (case serve ep (metrics_ops el (fs_ops e)) r w (wb_registry x, d_local (wb_store x)) of
           (w1, m1, s1) \<Rightarrow> (w1, x\<lparr>wb_registry := m1, wb_store := (wb_store x)\<lparr>d_local := s1\<rparr>\<rparr>))
      else
        (case serve ep (fs_ops e) r w (d_local (wb_store x)) of
           (w1, s1) \<Rightarrow> (w1, x\<lparr>wb_store := (wb_store x)\<lparr>d_local := s1\<rparr>\<rparr>)))"

subsection \<open>The routes\<close>

text \<open>\<open>None\<close> is the handler of the metrics.\<close>

definition main_table :: "Config \<Rightarrow> (string \<times> string \<times> endpoint option) list" where
  "main_table cfg =
     map (\<lambda>(m, p, ep). (m, p, Some ep)) route_table @
     (if mc_Enabled (c_Metrics cfg) then [(''GET'', mc_Endpoint (c_Metrics cfg), None)] else [])"

definition main_router :: "Config \<Rightarrow> endpoint option Router option" where
  "main_router cfg = add_routes (main_table cfg) NewRouter"

definition program_route :: "Config \<Rightarrow> (Registry \<Rightarrow> request \<Rightarrow> rw \<Rightarrow> rw) \<Rightarrow> (string \<Rightarrow> int) \<Rightarrow> net \<Rightarrow> env \<Rightarrow>
    endpoint option \<Rightarrow> Store dstate web handler" where
  "program_route cfg prom el nt e target =
     (case target of
        Some ep \<Rightarrow> program_endpoint cfg el nt e ep
      | None \<Rightarrow>
          (let auth = basic_auth (c_Metrics cfg) in
           metrics_Handler prom (mc_Enabled (c_Metrics cfg)) (ba_Username auth) (ba_Password auth)))"

definition main_middlewares :: "Config \<Rightarrow> (request \<Rightarrow> int) \<Rightarrow> ('s web handler \<Rightarrow> 's web handler) list" where
  "main_middlewares cfg took =
     (if mc_Enabled (c_Metrics cfg) then metered_middlewares (mc_Endpoint (c_Metrics cfg)) took
      else web_middlewares took)"

definition main_handler :: "Config \<Rightarrow> endpoint option Router \<Rightarrow> (request \<Rightarrow> int) \<Rightarrow> (Registry \<Rightarrow> request \<Rightarrow> rw \<Rightarrow> rw) \<Rightarrow>
    (string \<Rightarrow> int) \<Rightarrow> net \<Rightarrow> env \<Rightarrow> Store dstate web handler" where
  "main_handler cfg router took prom el nt e =
     Chain (main_middlewares cfg took) (Router_ServeHTTP (program_route cfg prom el nt e) router)"

subsection \<open>Start and shutdown\<close>

record http_server =
  hs_Addr :: string
  hs_ReadTimeout :: int
  hs_WriteTimeout :: int
  hs_IdleTimeout :: int

record program =
  pg_config :: Config
  pg_logger :: "Level \<times> bool"
  pg_router :: "endpoint option Router"
  pg_manager :: "Manager option"
  pg_server :: http_server
  pg_web :: "Store dstate web"

text \<open>How the process ends early: an exit code with what is printed, or a panic.\<close>

datatype exit = Exit int string | Crash error

definition main_server :: "Config \<Rightarrow> http_server" where
  "main_server cfg =
     \<lparr>hs_Addr = GetServerAddress cfg, hs_ReadTimeout = sv_ReadTimeout (c_Server cfg),
      hs_WriteTimeout = sv_WriteTimeout (c_Server cfg), hs_IdleTimeout = sv_IdleTimeout (c_Server cfg)\<rparr>"

text \<open>The directory of the store, where the process runs in \<open>workdir\<close>.\<close>

definition storage_path :: "path \<Rightarrow> string \<Rightarrow> path" where
  "storage_path workdir p = clean_onto (if HasPrefix p ''/'' then [] else workdir) (Split CHR ''/'' p)"

definition new_manager :: "string \<Rightarrow> int \<Rightarrow> Config \<Rightarrow> error + Manager option" where
  "new_manager uuid clock cfg =
     (if p2_Enabled (c_P2P cfg) then
        (case NewManager uuid clock (c_P2P cfg) of Err er \<Rightarrow> Err er | Ok m \<Rightarrow> Ok (Some m))
      else Ok None)"

definition start_manager :: "error option \<Rightarrow> Manager option \<Rightarrow> error + Manager option" where
  "start_manager listen mgr =
     (case mgr of
        None \<Rightarrow> Ok None
      | Some m \<Rightarrow> (case manager_Start listen m of (Err er, _) \<Rightarrow> Err er | (Ok _, m') \<Rightarrow> Ok (Some m')))"

text \<open>\<open>listen\<close> is the error of the transport's listener, if any.\<close>

definition main_start :: "bool \<Rightarrow> bool \<Rightarrow> string \<Rightarrow> int \<Rightarrow> string \<Rightarrow> (string \<Rightarrow> string) \<Rightarrow> env \<Rightarrow> fs \<Rightarrow> path \<Rightarrow> path \<Rightarrow>
    error option \<Rightarrow> exit + program" where
  "main_start showHelp version uuid clock hostname getenv e t configFile workdir listen =
     (if showHelp then Err (Exit 0 ''usage'')
      else if version then Err (Exit 0 ''octoserve v0.1.0 - Minimal OCI Registry'')
      else case Load hostname e t configFile of
        Err er \<Rightarrow> Err (Exit 1 (''Failed to load configuration: '' @ Error er))
      | Ok cfg0 \<Rightarrow>
          (let cfg = LoadFromEnv getenv cfg0 in
           case New e (storage_path workdir (sc_Path (c_Storage cfg))) t of
             Err er \<Rightarrow> Err (Exit 1 ''Failed to initialize storage'')
           | Ok baseStore \<Rightarrow>
               (case new_manager uuid clock cfg of
                  Err er \<Rightarrow> Err (Exit 1 ''Failed to create P2P manager'')
                | Ok p2pManager \<Rightarrow>
                    (case main_router cfg of
                       None \<Rightarrow> Err (Crash (RuntimePanic ''regexp: Compile''))
                     | Some router \<Rightarrow>
                         (case start_manager listen p2pManager of
                            Err er \<Rightarrow> Err (Exit 1 ''Failed to start P2P manager'')
                          | Ok started \<Rightarrow>
                              Ok \<lparr>pg_config = cfg, pg_logger = setupLogger (c_Logging cfg), pg_router = router,
                                 pg_manager = started, pg_server = main_server cfg,
                                 pg_web = \<lparr>wb_registry = NewRegistry,
                                   wb_store = \<lparr>d_local = baseStore, d_tasks = [], d_sent = []\<rparr>, wb_log = []\<rparr>\<rparr>)))))"

text \<open>The manager first, whose errors are logged only, then the server.\<close>

definition main_shutdown :: "error option \<Rightarrow> program \<Rightarrow> exit option \<times> program" where
  "main_shutdown halted p =
     (case (case pg_manager p of None \<Rightarrow> (Ok (), None)
            | Some m \<Rightarrow> (case manager_Stop m of (r, m') \<Rightarrow> (r, Some m'))) of
        (Err (RuntimePanic msg), mgr) \<Rightarrow> (Some (Crash (RuntimePanic msg)), p\<lparr>pg_manager := mgr\<rparr>)
      | (_, mgr) \<Rightarrow>
          (case halted of Some er \<Rightarrow> Some (Exit 1 ''Server forced to shutdown'') | None \<Rightarrow> None,
           p\<lparr>pg_manager := mgr\<rparr>))"

end
