(* ===== verification/ProgramProperties.thy ===== *)
theory ProgramProperties
  imports Program
begin

text \<open>
  The routes of the running program: the table of the registry with the metrics behind it, and which
  handler gets which request.
\<close>

subsection \<open>Routers in two parts\<close>

definition retarget :: "('a \<Rightarrow> 'b) \<Rightarrow> 'a Route \<Rightarrow> 'b Route" where
  "retarget f route = \<lparr>rt_Method = rt_Method route, rt_Pattern = rt_Pattern route,
     rt_Handler = f (rt_Handler route), rt_Params = rt_Params route\<rparr>"

lemma retarget_sel [simp]:
  "rt_Method (retarget f route) = rt_Method route" "rt_Pattern (retarget f route) = rt_Pattern route"
  "rt_Handler (retarget f route) = f (rt_Handler route)" "rt_Params (retarget f route) = rt_Params route"
  by (simp_all add: retarget_def)

lemma find_route_append:
  "find_route (rs @ rs') req = (case find_route rs req of None \<Rightarrow> find_route rs' req | Some found \<Rightarrow> Some found)"
  by (induction rs) (auto split: option.splits)

lemma find_route_retarget:
  "find_route (map (retarget f) rs) req = map_option (\<lambda>(h, req'). (f h, req')) (find_route rs req)"
  by (induction rs) (auto split: option.splits)

lemma find_route_handler: "find_route rs req = Some (h, req') \<Longrightarrow> h \<in> rt_Handler ` set rs"
  by (induction rs) (auto split: if_splits option.splits)

lemma add_routes_append:
  "add_routes (ts @ ts') r = (case add_routes ts r of None \<Rightarrow> None | Some r' \<Rightarrow> add_routes ts' r')"
  by (induction ts arbitrary: r) (auto split: option.splits)

lemma add_routes_retarget:
  "add_routes (map (\<lambda>(m, p, h). (m, p, f h)) ts) (map (retarget f) r) =
     map_option (map (retarget f)) (add_routes ts r)"
proof (induction ts arbitrary: r)
  case (Cons t ts)
  obtain m p h where t: "t = (m, p, h)" by (rule prod_cases3)
  have "AddRoute m p (f h) (map (retarget f) r) = map_option (map (retarget f)) (AddRoute m p h r)"
    by (auto simp: AddRoute_compiled retarget_def split: option.splits)
  with Cons.IH show ?case by (cases "AddRoute m p h r") (simp_all add: t)
qed simp

subsection \<open>The program's router\<close>

text \<open>The routes of the registry come first and lead to its endpoints; what follows leads to the metrics.\<close>

lemma main_router_split:
  assumes "main_router cfg = Some router"
  obtains more where "router = map (retarget Some) octo_router @ more" "\<forall>route \<in> set more. rt_Handler route = None"
    "\<not> mc_Enabled (c_Metrics cfg) \<Longrightarrow> more = []"
    "\<And>re ps. mc_Enabled (c_Metrics cfg) \<Longrightarrow> compiled (mc_Endpoint (c_Metrics cfg)) = Some (re, ps) \<Longrightarrow>
       more = [\<lparr>rt_Method = ''GET'', rt_Pattern = re, rt_Handler = None, rt_Params = ps\<rparr>]"
proof -
  have table: "add_routes (map (\<lambda>(m, p, ep). (m, p, Some ep)) route_table) NewRouter =
      Some (map (retarget Some) octo_router)"
    using add_routes_retarget [of Some route_table "[]"] octo_router by (simp add: NewRouter_def)
  show thesis
  proof (cases "mc_Enabled (c_Metrics cfg)")
    case True
    then show ?thesis using assms table that
      by (auto simp: main_router_def main_table_def add_routes_append AddRoute_compiled split: option.splits)
  next
    case False
    then show ?thesis using assms table that by (auto simp: main_router_def main_table_def)
  qed
qed

lemma main_router_endpoint:
  assumes "main_router cfg = Some router"
  shows "find_route router req = Some (Some ep, req') \<longleftrightarrow> find_route octo_router req = Some (ep, req')"
proof -
  obtain more where router: "router = map (retarget Some) octo_router @ more"
    and more: "\<forall>route \<in> set more. rt_Handler route = None"
    using assms by (rule main_router_split)
  have "h = None" if "find_route more req = Some (h, r)" for h r
    using find_route_handler [OF that] more by auto
  then show ?thesis by (auto simp: router find_route_append find_route_retarget split: option.splits)
qed

lemma Find_literal: "FindStringSubmatch (anchored (lit s)) p = (if p = s then Some [s] else None)"
proof (cases "FindStringSubmatch (anchored (lit s)) p")
  case None
  from Find_anchored_None [OF None] show ?thesis using None by (auto simp: matches_lit matches_seq_Cons)
next
  case (Some ms)
  from Find_anchored_Some [OF Some] show ?thesis using Some by (auto simp: matches_lit matches_seq_Cons)
qed

lemma main_router_metrics:
  assumes "main_router cfg = Some router" and "compiled (mc_Endpoint (c_Metrics cfg)) = Some (anchored (lit p), [])"
  shows "find_route router req = Some (None, req') \<longleftrightarrow>
    mc_Enabled (c_Metrics cfg) \<and> r_Method req = ''GET'' \<and> r_Path req = p \<and> req' = req \<and> find_route octo_router req = None"
proof (cases "mc_Enabled (c_Metrics cfg)")
  case True
  obtain more where "router = map (retarget Some) octo_router @ more"
    "more = [\<lparr>rt_Method = ''GET'', rt_Pattern = anchored (lit p), rt_Handler = None, rt_Params = []\<rparr>]"
    using assms True by (metis main_router_split)
  then show ?thesis using True
    by (auto simp: find_route_append find_route_retarget Find_literal split: option.splits)
next
  case False
  obtain more where "router = map (retarget Some) octo_router @ more" "more = []"
    using assms(1) False by (metis main_router_split)
  then show ?thesis using False by (auto simp: find_route_retarget)
qed


lemma compiled_metrics: "compiled ''/metrics'' = Some (anchored (lit ''/metrics''), [])"
  by code_simp

lemma Default_router: "\<exists>router. main_router Default = Some router"
proof -
  have "add_routes (map (\<lambda>(m, p, ep). (m, p, Some ep)) route_table) NewRouter =
      Some (map (retarget Some) octo_router)"
    using add_routes_retarget [of Some route_table "[]"] octo_router by (simp add: NewRouter_def)
  then show ?thesis
    by (simp add: main_router_def main_table_def Default_def add_routes_append AddRoute_compiled compiled_metrics)
qed


end
