(* ===== verification/Node.thy ===== *)
theory Node
  imports ProgramProperties DistributedProperties
begin

text \<open>
  A node over its whole life: it starts with whatever configuration it finds, serves requests,
  replicates in the background, receives blobs and manifests from peers, and is started again on
  the disk it left. What its clients are served is the content they name.
\<close>

subsection \<open>What the distributed store keeps\<close>

text \<open>Peers name the digest of a manifest they send; the store uses it as a file name. A network is
  trusted when what it names are digests, or nothing.\<close>

definition trusted :: "net \<Rightarrow> bool" where
  "trusted nt \<longleftrightarrow> (\<forall>p repo ref m. n_RequestManifest nt p repo ref = Ok m \<longrightarrow>
     m_Digest m = [] \<or> canonical_digest (m_Digest m))"

lemma local_do_snd [simp]: "d_local (snd (local_do f st)) = snd (f (d_local st))"
  by (simp add: local_do_def split: prod.split)

lemma local_do_run: "local_do f st = (r, st1) \<Longrightarrow> d_local st1 = snd (f (d_local st))"
  using local_do_snd [of f st] by simp

context kept
begin

lemma keep_fetch_blob: "I s \<Longrightarrow> I (snd (fetch_blob nt ops d ps s))"
  by (induction ps arbitrary: s) (auto intro!: keep_bind keeps split: sum.split)

lemma keep_getBlobFromPeers: "I s \<Longrightarrow> I (snd (getBlobFromPeers nt ops d s))"
  by (simp add: getBlobFromPeers_def keep_fetch_blob split: prod.split option.split)

lemma keep_fetch_manifest:
  assumes "trusted nt" and "repo_ok repo" and "safe_comp ref"
  shows "I s \<Longrightarrow> I (snd (fetch_manifest nt ops repo ref ps s))"
proof (induction ps arbitrary: s)
  case (Cons p ps)
  show ?case
  proof (cases "n_RequestManifest nt p repo ref")
    case (Inr m)
    then have "man_args repo ref m" using assms unfolding trusted_def man_args_def by blast
    from keep_PutManifest [OF Cons.prems this] Inr show ?thesis by (auto split: prod.split)
  qed (use Cons in simp)
qed simp

lemma keep_getManifestFromPeers:
  assumes "I s" and "trusted nt" and "repo_ok repo" and "safe_comp ref"
  shows "I (snd (getManifestFromPeers nt ops repo ref s))"
  using assms by (simp add: getManifestFromPeers_def keep_fetch_manifest split: prod.split option.split)

lemma keep_run_task: "I (d_local st) \<Longrightarrow> I (d_local (run_task cfg nt ops t st))"
proof (cases t)
  case (ReplicateBlobTask d)
  assume "I (d_local st)"
  then have "I (snd (op_GetBlob ops d (d_local st)))" by (rule keep_GetBlob)
  then show ?thesis
    by (auto simp: ReplicateBlobTask replicateBlobToPeers_def Let_def split: prod.split sum.split)
qed (simp add: replicateManifestToPeers_def split: sum.split)

lemma keep_run_next: "I (d_local st) \<Longrightarrow> I (d_local (run_next cfg nt ops st))"
  by (simp add: run_next_def keep_run_task split: list.split)

text \<open>The calls that may go to the peers.\<close>

lemma keep_dist_blobs:
  assumes "I (d_local st)"
  shows "I (d_local (snd (dist_GetBlob nt ops d st)))" "I (d_local (snd (dist_PutBlob cfg ops d rd st)))"
    "I (d_local (snd (dist_BlobExists nt ops d st)))"
proof -
  obtain r1 st1 where get: "local_do (op_GetBlob ops d) st = (r1, st1)" by fastforce
  then have "I (d_local st1)" using local_do_run keep_GetBlob [OF assms] by metis
  then show "I (d_local (snd (dist_GetBlob nt ops d st)))"
    using keep_getBlobFromPeers by (simp add: dist_GetBlob_def get split: sum.split)
  obtain r2 st2 where put: "local_do (op_PutBlob ops d rd) st = (r2, st2)" by fastforce
  then have i2: "I (d_local st2)" using local_do_run keep_PutBlob [OF assms] by metis
  obtain r3 st3 where sz: "local_do (op_GetBlobSize ops d) st2 = (r3, st3)" by fastforce
  then have "I (d_local st3)" using local_do_run keep_GetBlobSize [OF i2] by metis
  then show "I (d_local (snd (dist_PutBlob cfg ops d rd st)))"
    using i2 by (simp add: dist_PutBlob_def put sz split: sum.split)
  show "I (d_local (snd (dist_BlobExists nt ops d st)))"
    using keep_BlobExists [OF assms, of d]
    by (auto simp: dist_BlobExists_def local_do_def split: prod.split sum.split bool.split)
qed

lemma keep_dist_manifests:
  assumes "I (d_local st)"
  shows "trusted nt \<Longrightarrow> repo_ok repo \<Longrightarrow> safe_comp ref \<Longrightarrow> I (d_local (snd (dist_GetManifest nt ops repo ref st)))"
    and "man_args repo ref m \<Longrightarrow> I (d_local (snd (dist_PutManifest ops repo ref m st)))"
    and "I (d_local (snd (dist_ManifestExists nt ops repo ref st)))"
proof -
  assume a: "trusted nt" "repo_ok repo" "safe_comp ref"
  obtain r1 st1 where get: "local_do (op_GetManifest ops repo ref) st = (r1, st1)" by fastforce
  then have "I (d_local st1)" using local_do_run keep_GetManifest [OF assms a(2,3)] by metis
  then show "I (d_local (snd (dist_GetManifest nt ops repo ref st)))"
    using keep_getManifestFromPeers [OF _ a] by (simp add: dist_GetManifest_def get split: sum.split)
next
  assume "man_args repo ref m"
  then have "I (snd (op_PutManifest ops repo ref m (d_local st)))" by (rule keep_PutManifest [OF assms])
  then show "I (d_local (snd (dist_PutManifest ops repo ref m st)))"
    by (auto simp: dist_PutManifest_def local_do_def spawn_def split: prod.split sum.split)
next
  show "I (d_local (snd (dist_ManifestExists nt ops repo ref st)))"
    using keep_ManifestExists [OF assms, of repo ref]
    by (auto simp: dist_ManifestExists_def local_do_def split: prod.split sum.split bool.split)
qed

end

locale distributed_kept = kb: kept base I for base :: "'s store_ops" and I +
  fixes cfg :: dconfig and nt :: net

sublocale distributed_kept \<subseteq> kept "distributed_ops cfg nt base" "\<lambda>st. trusted nt \<and> I (d_local st)"
  by (unfold_locales, unfold distributed_ops_def store_ops.simps)
    (simp_all add: kb.keeps kb.keep_DeleteManifest kb.keep_dist_blobs kb.keep_dist_manifests)

text \<open>With no assumption on the environment but that digests are computed, for the stores a
  configuration chooses.\<close>

interpretation near: distributed_kept "fs_ops e" "\<lambda>s. digest_ok e \<and> uuid_ok e \<and> reachable base t s" cfg nt
  for e base t cfg nt
  by (intro distributed_kept.intro run.kept_axioms)

interpretation met_dist: store_view "metrics_ops el (distributed_ops cfg nt (fs_ops e))" "distributed_ops cfg nt (fs_ops e)" snd
  for el cfg nt e
  by (rule metrics_view) (auto simp: distributed_ops_def local_do_def GetUpload_def split: prod.split option.split)

interpretation safe_dist: distributed_blobs "fs_ops e" "fs_safe e" fs_blobs cfg nt for e cfg nt
  by (intro distributed_blobs.intro fss.blob_store_axioms)

subsection \<open>Requests\<close>

text \<open>An endpoint of the program is the endpoint on the distributed store, or on the filesystem store
  when there are no peers; the metrics do not matter.\<close>

abbreviation near_ops :: "Config \<Rightarrow> net \<Rightarrow> env \<Rightarrow> Store dstate store_ops" where
  "near_ops cfg nt e \<equiv> distributed_ops (distributed_config cfg) nt (fs_ops e)"

lemma program_endpoint_peers:
  assumes "p2_Enabled (c_P2P cfg)" and "program_endpoint cfg el nt e ep r w x = (w', x')"
  shows "serve ep (near_ops cfg nt e) r w (wb_store x) = (w', wb_store x')"
  using assms met_dist.serve_view [of ep "distributed_config cfg" nt e r w "(wb_registry x, wb_store x)" el]
  by (auto simp: program_endpoint_def run_endpoint_def Let_def split: prod.splits if_splits)

lemma program_endpoint_alone:
  assumes "\<not> p2_Enabled (c_P2P cfg)" and "program_endpoint cfg el nt e ep r w x = (w', x')"
  shows "serve ep (fs_ops e) r w (d_local (wb_store x)) = (w', d_local (wb_store x'))"
  using assms met.serve_view [of ep e r w "(wb_registry x, d_local (wb_store x))" el]
  by (auto simp: program_endpoint_def split: prod.splits if_splits)

lemma program_endpoint_keeps:
  assumes "program_endpoint cfg el nt e ep r w x = (w', x')" and "safe_params ep r"
    and "digest_ok e" and "uuid_ok e" and "trusted nt" and "reachable base t (d_local (wb_store x))"
  shows "reachable base t (d_local (wb_store x'))"
proof (cases "p2_Enabled (c_P2P cfg)")
  case True
  show ?thesis
    using near.keep_serve [of nt e base t "wb_store x" ep r] program_endpoint_peers [OF True assms(1)] assms(2-)
    by (metis snd_conv)
next
  case False
  show ?thesis
    using run.keep_serve [of e base t "d_local (wb_store x)" ep r] program_endpoint_alone [OF False assms(1)] assms(2-)
    by (metis snd_conv)
qed

lemma program_get_blob:
  assumes "program_endpoint cfg el nt e EpGetBlob r w x = (w', x')" and "fs_safe e (d_local (wb_store x))"
    and "canonical_digest (GetParam r ''digest'')" and "unsent w" and "status w' < 300" and "\<not> w_cut w'"
  shows "sha256_digest (w_body w') = GetParam r ''digest''"
proof (cases "p2_Enabled (c_P2P cfg)")
  case True
  show ?thesis
    using safe_dist.get_handler_hash(1) [OF assms(2-4)] program_endpoint_peers [OF True assms(1)] assms(5,6) by simp
next
  case False
  show ?thesis
    using fss.get_handler_hash(1) [OF assms(2-4)] program_endpoint_alone [OF False assms(1)] assms(5,6) by simp
qed

lemma metrics_Handler_state: "metrics_Handler prom b u p r w x = (w', x') \<Longrightarrow> x' = x"
  by (auto simp: metrics_Handler_def basicAuth_def Let_def split: if_splits option.splits)

lemma main_handler_cases:
  assumes "main_handler cfg router took prom el nt e req w x = (w', x')" and "main_router cfg = Some router" and "unsent w"
  obtains (unhandled) "wb_store x' = wb_store x" "status w' \<in> {200, 400, 404}" "find_route octo_router req = None \<or> r_Method req = ''OPTIONS'' \<or> status w' = 400"
  | (metrics) "wb_store x' = wb_store x" "find_route octo_router req = None"
  | (handled) ep req' w1 x1 where "find_route octo_router req = Some (ep, req')" "unsent w1"
      "program_endpoint cfg el nt e ep req' w1 x = (w', x1)" "wb_store x' = wb_store x1"
proof -
  let ?inner = "Router_ServeHTTP (program_route cfg prom el nt e) router"
  obtain x2 where web: "Chain (web_middlewares took) ?inner req w x = (w', x2)" and x2: "wb_store x' = wb_store x2"
    using metered_chain [of "mc_Endpoint (c_Metrics cfg)" took ?inner req w x w' x'] assms(1)
    unfolding main_handler_def main_middlewares_def by (auto split: if_splits)
  from web assms(3) show thesis
  proof (cases rule: web_chain_cases)
    case (inside x1)
    show ?thesis
    proof (cases "find_route router req")
      case None
      then have "find_route octo_router req = None"
        using main_router_endpoint [OF assms(2), of req] by (cases "find_route octo_router req") auto
      then show ?thesis using unhandled inside x2 assms(3) None by (auto simp: Router_ServeHTTP_def NotFound_def)
    next
      case (Some hr)
      obtain h req' where hr: "hr = (h, req')" by fastforce
      show ?thesis
      proof (cases h)
        case None
        then have "find_route octo_router req = None"
          using main_router_endpoint [OF assms(2), of req] Some hr by (cases "find_route octo_router req") auto
        moreover have "x1 = x" using inside(1) Some hr None metrics_Handler_state
          by (auto simp: Router_ServeHTTP_def program_route_def Let_def)
        ultimately show ?thesis using metrics inside(2) x2 by simp
      next
        case o: (Some ep)
        then show ?thesis
          using handled [of ep req' "docker_headers w" x1] main_router_endpoint [OF assms(2), of req ep req']
            inside x2 assms(3) Some hr by (simp add: Router_ServeHTTP_def program_route_def)
      qed
    qed
  qed (use unhandled x2 in auto)
qed

subsection \<open>The life of a node\<close>

definition local_disk :: "program \<Rightarrow> Store" where
  "local_disk n = d_local (wb_store (pg_web n))"

definition with_store :: "Store dstate \<Rightarrow> program \<Rightarrow> program" where
  "with_store st n = n\<lparr>pg_web := (pg_web n)\<lparr>wb_store := st\<rparr>\<rparr>"

definition with_local :: "Store \<Rightarrow> program \<Rightarrow> program" where
  "with_local s n = with_store ((wb_store (pg_web n))\<lparr>d_local := s\<rparr>) n"

lemma local_disk_sel [simp]:
  "local_disk (with_store st n) = d_local st" "local_disk (with_local s n) = s"
  "local_disk (n\<lparr>pg_web := x\<rparr>) = d_local (wb_store x)"
  by (simp_all add: local_disk_def with_store_def with_local_def)

text \<open>The states of a node whose store is at \<open>base\<close>, first started on the disk \<open>t\<close>: it starts, on
  that disk or on the one it left, with any configuration file, environment and command line;
  handles a request; runs a replication; has a blob or a manifest put by a peer. Every step may
  meet another environment and another network.\<close>

inductive node_reach :: "path \<Rightarrow> fs \<Rightarrow> program \<Rightarrow> bool" for base t where
  start: "node_reach base t n"
    if "main_start h v uuid clock hostname getenv e t file0 workdir listen = Ok n"
      "storage_path workdir (sc_Path (c_Storage (pg_config n))) = base"
| restart: "node_reach base t n'"
    if "node_reach base t n" "main_start h v uuid clock hostname getenv e (s_disk (local_disk n)) file0 workdir listen = Ok n'"
      "storage_path workdir (sc_Path (c_Storage (pg_config n'))) = base"
| request: "node_reach base t (n\<lparr>pg_web := x'\<rparr>)"
    if "node_reach base t n" "digest_ok e" "uuid_ok e" "trusted nt" "last_seg (r_Path req) \<notin> {''.'', ''..''}"
      "main_handler (pg_config n) (pg_router n) took prom el nt e req new_rw (pg_web n) = (w, x')"
| background: "node_reach base t (with_store (run_next (distributed_config (pg_config n)) nt (fs_ops e) (wb_store (pg_web n))) n)"
    if "node_reach base t n" "digest_ok e" "uuid_ok e"
| peer_blob: "node_reach base t (with_local s' n)"
    if "node_reach base t n" "digest_ok e" "P2P_PutBlob (fs_ops e) cs er (local_disk n) = (resp, s')"
| peer_manifest: "node_reach base t (with_local s' n)"
    if "node_reach base t n" "digest_ok e" "repo_ok (pq_Repository pq)" "safe_comp (pq_Reference pq)"
      "P2P_PutManifest (fs_ops e) pq (local_disk n) = (resm, s')"

lemma main_start_Ok:
  assumes "main_start h v uuid clock hostname getenv e t file0 workdir listen = Ok n"
  shows "main_router (pg_config n) = Some (pg_router n) \<and>
    New e (storage_path workdir (sc_Path (c_Storage (pg_config n)))) t = Ok (local_disk n)"
  using assms by (auto simp: main_start_def local_disk_def Let_def split: if_splits sum.splits option.splits)

lemma P2P_PutBlob_step:
  assumes "P2P_PutBlob (fs_ops e) cs er s = (resp, s')" and "digest_ok e" and "reachable base t s"
  shows "reachable base t s'"
proof (cases "recv_chunks [] [] 0 cs er")
  case (Inr res)
  obtain d b z where res: "res = (d, b, z)" by (rule prod_cases3)
  obtain r1 s1 where put: "PutBlob e d (bytes_reader b) s = (r1, s1)" by fastforce
  then have "s' = s1" using assms(1) Inr by (cases r1) (simp_all add: P2P_PutBlob_def res)
  then show ?thesis using reachable.step [OF assms(3) fs_step.put_blob [OF assms(2) put]] by simp
qed (use assms in \<open>simp add: P2P_PutBlob_def\<close>)

lemma P2P_PutManifest_step:
  assumes "P2P_PutManifest (fs_ops e) pq s = (resp, s')" and "digest_ok e" and "reachable base t s"
    and "repo_ok (pq_Repository pq)" and "safe_comp (pq_Reference pq)"
  shows "reachable base t s'"
proof (cases "UnmarshalManifest (pq_ManifestData pq) (zero_Manifest\<lparr>m_MediaType := pq_MediaType pq\<rparr>)")
  case (Some m)
  have "man_args (pq_Repository pq) (pq_Reference pq) m"
    using assms(4,5) UnmarshalManifest_Digest [OF Some] by (simp add: man_args_def zero_Manifest_def)
  note args = man_args_put [OF this]
  obtain r1 s1 where put: "PutManifest e (pq_Repository pq) (pq_Reference pq) m s = (r1, s1)" by fastforce
  then have "s' = s1" using assms(1) Some by (cases r1) (simp_all add: P2P_PutManifest_def)
  then show ?thesis using reachable.step [OF assms(3) fs_step.put_manifest [OF assms(2) args put]] by simp
qed (use assms in \<open>simp add: P2P_PutManifest_def\<close>)

text \<open>At any moment the router is that of the configuration, and the store is one reached from a good
  disk.\<close>

definition node_ok :: "path \<Rightarrow> program \<Rightarrow> bool" where
  "node_ok base n \<longleftrightarrow> main_router (pg_config n) = Some (pg_router n) \<and>
     (\<exists>t. disk_ok base t \<and> reachable base t (local_disk n))"

lemma node_ok_store: "node_ok base n \<Longrightarrow> store_ok (local_disk n)"
  using reachable_store_ok by (auto simp: node_ok_def)

lemma node_ok_disk: "node_ok base n \<Longrightarrow> disk_ok base (s_disk (local_disk n))"
  using reachable_base by (auto simp: node_ok_def)

lemma started_ok:
  assumes "main_start h v uuid clock hostname getenv e t file0 workdir listen = Ok n"
    and "storage_path workdir (sc_Path (c_Storage (pg_config n))) = base" and "disk_ok base t"
  shows "node_ok base n"
  using main_start_Ok [OF assms(1)] assms(2,3) reachable.start by (auto simp: node_ok_def)

lemma request_keeps:
  assumes "main_handler cfg router took prom el nt e req new_rw x = (w, x')" and "main_router cfg = Some router"
    and "digest_ok e" and "uuid_ok e" and "trusted nt" and "last_seg (r_Path req) \<notin> {''.'', ''..''}"
    and "reachable base t (d_local (wb_store x))"
  shows "reachable base t (d_local (wb_store x'))"
  using assms(1,2) unsent_new
proof (cases rule: main_handler_cases)
  case (handled ep req' w1 x1)
  from program_endpoint_keeps [OF handled(3) routed_safe_params [OF handled(1) assms(6)] assms(3-5,7)] handled(4)
  show ?thesis by simp
qed (use assms(7) in simp_all)

lemma node_reach_ok: "node_reach base t n \<Longrightarrow> disk_ok base t \<Longrightarrow> node_ok base n"
proof (induction rule: node_reach.induct)
  case (restart n h v uuid clock hostname getenv e file0 workdir listen n')
  then show ?case using started_ok node_ok_disk by blast
next
  case (request n e nt req took prom el w x')
  then obtain t1 where "main_router (pg_config n) = Some (pg_router n)" "disk_ok base t1"
      "reachable base t1 (d_local (wb_store (pg_web n)))"
    by (auto simp: node_ok_def local_disk_def)
  with request_keeps [OF request.hyps(6) _ request.hyps(2-5)] show ?case by (auto simp: node_ok_def)
next
  case (background n e nt)
  have "digest_ok e \<and> uuid_ok e \<and> reachable base t1 (d_local (run_next (distributed_config (pg_config n)) nt (fs_ops e)
      (wb_store (pg_web n))))" if "reachable base t1 (local_disk n)" for t1
    using run.keep_run_next that background.hyps by (simp add: local_disk_def)
  then show ?case using background by (auto simp: node_ok_def with_store_def)
next
  case (peer_blob n e cs er resp s')
  then show ?case using P2P_PutBlob_step by (auto simp: node_ok_def with_local_def with_store_def)
next
  case (peer_manifest n e pq resm s')
  then show ?case using P2P_PutManifest_step by (auto simp: node_ok_def with_local_def with_store_def)
qed (rule started_ok)

subsection \<open>What clients are served\<close>

lemma routed_get:
  assumes "r_Method req = ''GET''" and "r_Path req = path_of (BlobAt name d)" and "routed_name name" and "canonical_digest d"
  shows "find_route octo_router req = Some (EpGetBlob, routed_request (BlobAt name d) req)"
  using find_route_path [of "BlobAt name d" req] assms canonical_digest_word by simp

lemma node_get:
  assumes "node_ok base n" and "digest_ok e"
    and "r_Method req = ''GET''" and "r_Path req = path_of (BlobAt name d)" and "routed_name name" and "canonical_digest d"
    and "main_handler (pg_config n) (pg_router n) took prom el nt e req new_rw (pg_web n) = (w, x')"
    and "status w < 300" and "\<not> w_cut w"
  shows "sha256_digest (w_body w) = d"
proof -
  note route = routed_get [OF assms(3-6)]
  have dg: "GetParam (routed_request (BlobAt name d) req) ''digest'' = d" by (rule GetParam_routed) simp
  have "main_router (pg_config n) = Some (pg_router n)" using assms(1) by (simp add: node_ok_def)
  from assms(7) this unsent_new show ?thesis
  proof (cases rule: main_handler_cases)
    case (handled ep req' w1 x1)
    then have "ep = EpGetBlob" "req' = routed_request (BlobAt name d) req" using route by simp_all
    moreover have "fs_safe e (d_local (wb_store (pg_web n)))"
      using node_ok_store [OF assms(1)] assms(2) by (simp add: fs_safe_store_ok local_disk_def)
    ultimately show ?thesis
      using program_get_blob [of "pg_config n" el nt e "routed_request (BlobAt name d) req" w1 "pg_web n" w x1]
        handled(2,3) dg assms(6,8,9) by simp
  qed (use route assms(3,8) in auto)
qed


lemma main_handler_serves:
  assumes "main_router cfg = Some router" and "no_route_params req" and "r_Method req \<noteq> ''OPTIONS''"
    and "find_route octo_router req = Some (ep, req')"
    and "program_endpoint cfg el nt e ep req' (docker_headers w) x = (w', x1)"
  shows "\<exists>x'. main_handler cfg router took prom el nt e req w x = (w', x') \<and> wb_store x' = wb_store x1"
proof -
  have "find_route router req = Some (Some ep, req')" using main_router_endpoint [OF assms(1)] assms(4) by simp
  then show ?thesis using assms(3,5)
    by (simp add: main_handler_def main_middlewares_def metered_middlewares_def web_middlewares_def Chain_def
        SkipMetricsEndpoint_def HTTPMetrics_def SetCORSHeaders_def SetDockerHeaders_def RequestLogger_def
        validators_pass [OF assms(2)] Router_ServeHTTP_def program_route_def docker_headers_def Let_def)
qed

text \<open>Stores behind a configuration: a blob put locally is put, and a blob held locally is read.\<close>

lemma near_push:
  assumes "PutBlob e d (bytes_reader b) (d_local st) = (Ok (), s')" and "canonical_digest d"
  shows "\<exists>st'. op_PutBlob (near_ops cfg nt e) d (bytes_reader b) st = (Ok (), st') \<and> d_local st' = s'"
proof -
  obtain z where "GetBlobSize e d s' = (z, s')" using reads_keep_state(3) by (metis prod.collapse)
  then show ?thesis using assms canonical_long [OF assms(2)]
    by (cases z) (auto simp: dist_ops_sel dist_PutBlob_def local_do_def)
qed

lemma near_pull:
  assumes "quiet e" and "wf_fs (s_disk (d_local st))" and "content (fs_get (s_disk (d_local st)) (blobPath e (d_local st) d)) = Some b"
    and "canonical_digest d"
  shows "op_BlobExists (near_ops cfg nt e) d st = (Ok True, st)"
    "op_GetBlob (near_ops cfg nt e) d st = (Ok (bytes_reader b), st)"
    "op_GetBlobSize (near_ops cfg nt e) d st = (Ok (int (length b)), st)"
  using GetBlob_present [OF assms(1-3)] canonical_long [OF assms(4)]
  by (simp_all add: dist_ops_sel dist_BlobExists_def dist_GetBlob_def local_do_def)

lemma node_push:
  assumes "main_router cfg = Some router" and "quiet e" and "fs_safe e (d_local (wb_store x))"
    and "slot_free (d_local (wb_store x)) d" and "sha256_digest b = d" and "routed_name name"
  obtains w x' s' where "main_handler cfg router took prom el nt e (push_request name d b) new_rw x = (w, x')"
    "status w = 201" "d_local (wb_store x') = s'" "PutBlob e d (bytes_reader b) (d_local (wb_store x)) = (Ok (), s')"
proof -
  let ?s = "d_local (wb_store x)" and ?req = "routed_request (Uploads name) (push_request name d b)"
  have can: "canonical_digest d" using assms(5) canonical_sha256_digest by metis
  then have "d \<noteq> []" by (auto simp: canonical_digest_def HasPrefix_iff)
  have ok: "digest_ok e" "wf_fs (s_disk ?s)" using assms(3) by (simp_all add: fs_safe_def)
  obtain s' where put: "PutBlob e d (bytes_reader b) ?s = (Ok (), s')"
    using PutBlob_succeeds [OF assms(2) ok assms(4), of "bytes_reader b"] assms(5) by auto
  obtain w x1 where run: "program_endpoint cfg el nt e EpStartUpload ?req (docker_headers new_rw) x = (w, x1)" by fastforce
  have "status w = 201 \<and> d_local (wb_store x1) = s'"
  proof (cases "p2_Enabled (c_P2P cfg)")
    case True
    obtain st' where "op_PutBlob (near_ops cfg nt e) d (bytes_reader b) (wb_store x) = (Ok (), st')" "d_local st' = s'"
      using near_push [OF put can] by blast
    with push_served [of "near_ops cfg nt e" d b "wb_store x" st' "docker_headers new_rw" name] \<open>d \<noteq> []\<close>
      program_endpoint_peers [OF True run]
    show ?thesis by auto
  next
    case False
    show ?thesis
      using push_served [of "fs_ops e" d b ?s s' "docker_headers new_rw" name] put \<open>d \<noteq> []\<close>
        program_endpoint_alone [OF False run] by auto
  qed
  moreover obtain x' where "main_handler cfg router took prom el nt e (push_request name d b) new_rw x = (w, x')"
    "wb_store x' = wb_store x1"
    using main_handler_serves [OF assms(1) _ _ push_routed [OF assms(6)] run] by auto
  ultimately show thesis using that put by auto
qed

lemma node_pull:
  assumes "main_router cfg = Some router" and "quiet e" and "wf_fs (s_disk (d_local (wb_store x)))"
    and "content (fs_get (s_disk (d_local (wb_store x))) (blobPath e (d_local (wb_store x)) d)) = Some b"
    and "canonical_digest d" and "routed_name name"
  shows "\<exists>w x'. main_handler cfg router took prom el nt e (pull_request name d) new_rw x = (w, x') \<and>
    status w = 200 \<and> w_body w = b \<and> \<not> w_cut w"
proof -
  let ?req = "routed_request (BlobAt name d) (pull_request name d)" and ?s = "d_local (wb_store x)"
  obtain w x1 where run: "program_endpoint cfg el nt e EpGetBlob ?req (docker_headers new_rw) x = (w, x1)" by fastforce
  have "status w = 200 \<and> w_body w = b \<and> \<not> w_cut w"
  proof (cases "p2_Enabled (c_P2P cfg)")
    case True
    show ?thesis
      using pull_served [OF near_pull [OF assms(2-5), of cfg nt], of "docker_headers new_rw" name]
        program_endpoint_peers [OF True run] by auto
  next
    case False
    show ?thesis
      using pull_served [of "fs_ops e" d ?s ?s b ?s "int (length b)" ?s "docker_headers new_rw" name]
        GetBlob_present [OF assms(2-4)] program_endpoint_alone [OF False run] by auto
  qed
  then show ?thesis using main_handler_serves [OF assms(1) _ _ pull_routed [OF assms(6,5)] run, of took prom] by auto
qed

lemma push_then_pull:
  assumes "main_router cfg = Some router" and "quiet e" and "fs_safe e (d_local (wb_store x))"
    and "slot_free (d_local (wb_store x)) d" and "sha256_digest b = d" and "routed_name name" and "routed_name name'"
  shows "\<exists>w x' w' x''.
    main_handler cfg router took prom el nt e (push_request name d b) new_rw x = (w, x') \<and> status w = 201 \<and>
    main_handler cfg router took prom el nt' e (pull_request name' d) new_rw x' = (w', x'') \<and>
    status w' = 200 \<and> w_body w' = b \<and> \<not> w_cut w'"
proof -
  obtain w x' s' where push: "main_handler cfg router took prom el nt e (push_request name d b) new_rw x = (w, x')"
    "status w = 201" "d_local (wb_store x') = s'" and put: "PutBlob e d (bytes_reader b) (d_local (wb_store x)) = (Ok (), s')"
    by (rule node_push [OF assms(1-6)])
  have can: "canonical_digest d" using assms(5) canonical_sha256_digest by metis
  have "digest_ok e" using assms(3) by (simp add: fs_safe_def)
  from put_present(2,1) [OF put assms(3) this] push(3)
  have "wf_fs (s_disk (d_local (wb_store x')))"
    "content (fs_get (s_disk (d_local (wb_store x'))) (blobPath e (d_local (wb_store x')) d)) = Some b" by simp_all
  from node_pull [OF assms(1,2) this can assms(7)] push show ?thesis by blast
qed

text \<open>C2. Push and pull at a node, whatever its configuration: with nothing failing, bytes pushed with
  POST under their digest to a repository the routes admit are answered 201, and a GET of the
  blob's path, in any repository, is then answered 200 with exactly those bytes, whatever the peers
  and the network do.\<close>

theorem node_push_pull:
  assumes "main_router cfg = Some router" and "quiet e" and "fs_safe e (d_local (wb_store x))"
    and "slot_free (d_local (wb_store x)) d" and "sha256_digest b = d" and "routed_name name" and "routed_name name'"
  shows "\<exists>w x' w' x''.
    main_handler cfg router took prom el nt e (push_request name d b) new_rw x = (w, x') \<and> status w = 201 \<and>
    main_handler cfg router took prom el nt' e (pull_request name' d) new_rw x' = (w', x'') \<and>
    status w' = 200 \<and> w_body w' = b \<and> \<not> w_cut w'"
  by (rule push_then_pull [OF assms])

subsection \<open>A node started with nothing\<close>

text \<open>No configuration file, no environment variable, an empty directory.\<close>

lemma LoadFromEnv_nothing: "LoadFromEnv (\<lambda>_. []) c = c"
  by (simp add: LoadFromEnv_def server_env_def storage_env_def logging_env_def metrics_env_def p2p_env_def
      override_def override_with_def)

lemma Load_missing: "os_Stat e t file0 = Err ENOENT \<Longrightarrow> Load hostname e t file0 = Ok Default"
  by (simp add: Load_def)

lemma Default_path: "storage_path [] (sc_Path (c_Storage Default)) = [''data'']"
  by code_simp

definition default_node :: program where
  "default_node =
     \<lparr>pg_config = Default, pg_logger = (LevelInfo, True), pg_router = the (main_router Default), pg_manager = None,
      pg_server = main_server Default, pg_web = \<lparr>wb_registry = NewRegistry, wb_store = node fresh, wb_log = []\<rparr>\<rparr>"

lemma default_node_sel [simp]:
  "pg_config default_node = Default" "d_local (wb_store (pg_web default_node)) = fresh" "local_disk default_node = fresh"
  by (simp_all add: default_node_def local_disk_def)

lemma default_router: "main_router Default = Some (pg_router default_node)"
  using Default_router by (auto simp: default_node_def)

lemma default_started:
  "main_start False False uuid clock hostname (\<lambda>_. []) calm [] [''config.json''] [] listen = Ok default_node"
proof -
  have missing: "os_Stat calm [] [''config.json''] = Err ENOENT" by code_simp
  have p2p: "\<not> p2_Enabled (c_P2P Default)" by (simp add: Default_def)
  have log: "setupLogger (c_Logging Default) = (LevelInfo, True)" by code_simp
  obtain router where router: "main_router Default = Some router" using Default_router by blast
  show ?thesis
    using router by (simp add: main_start_def Load_missing [OF missing] LoadFromEnv_nothing Default_path New_fresh
        new_manager_def start_manager_def p2p log default_node_def node_def)
qed


theorem node_push_pull_witness:
  "\<exists>w x' w' x''.
    main_handler Default (pg_router default_node) (\<lambda>_. 1) (\<lambda>_ _ w. w) (\<lambda>_. 1) alone calm
      (push_request ''app'' (sha256_digest [1]) [1]) new_rw (pg_web default_node) = (w, x') \<and> status w = 201 \<and>
    main_handler Default (pg_router default_node) (\<lambda>_. 1) (\<lambda>_ _ w. w) (\<lambda>_. 1) alone calm
      (pull_request ''app'' (sha256_digest [1])) new_rw x' = (w', x'') \<and>
    status w' = 200 \<and> w_body w' = [1] \<and> \<not> w_cut w'"
  by (rule node_push_pull [OF default_router]) (use fresh_inv in \<open>simp_all add: routed_app fs_inv_def\<close>)

lemma default_push_pull:
  "\<exists>w x' w' x''.
    main_handler Default (pg_router default_node) (\<lambda>_. 1) (\<lambda>_ _ w. w) (\<lambda>_. 1) alone calm
      (push_request ''app'' (sha256_digest [1]) [1]) new_rw (pg_web default_node) = (w, x') \<and> status w = 201 \<and>
    main_handler Default (pg_router default_node) (\<lambda>_. 1) (\<lambda>_ _ w. w) (\<lambda>_. 1) alone calm
      (pull_request ''app'' (sha256_digest [1])) new_rw x' = (w', x'') \<and>
    status w' = 200 \<and> w_body w' = [1] \<and> \<not> w_cut w'"
  by (rule push_then_pull [OF default_router]) (use fresh_inv in \<open>simp_all add: routed_app fs_inv_def\<close>)


end
