(* ===== verification/PeerTrust.thy ===== *)
theory PeerTrust
  imports Node
begin

text \<open>
  Why a node must trust its peers: the digest a peer names with a manifest becomes part of a path, and a
  digest that climbs out of the directory of manifests lands on a blob.
\<close>

definition escape :: "string \<Rightarrow> string" where
  "escape d = (let h = drop 7 d in
     ''../../blobs/sha256/'' @ take 2 h @ CHR ''/'' # take 2 (drop 2 h) @ CHR ''/'' # h)"

lemma escape_path:
  assumes "canonical_digest d" and "digest_ok e" and "repo_ok repo"
  shows "manifestPath s repo (escape d) = blobPath e s d"
proof -
  let ?h = "drop 7 d"
  have hex: "canonical_hex ?h" using assms(1) by (simp add: canonical_digest_def)
  have esc: "escape d = ''..'' @ CHR ''/'' # ''..'' @ CHR ''/'' # ''blobs'' @ CHR ''/'' # ''sha256'' @ CHR ''/'' #
      take 2 ?h @ CHR ''/'' # take 2 (drop 2 ?h) @ CHR ''/'' # ?h"
    by (simp add: escape_def Let_def)
  have "Split CHR ''/'' (escape d) = [''..'', ''..'', ''blobs'', ''sha256'', take 2 ?h, take 2 (drop 2 ?h), ?h]"
    unfolding esc using canonical_hex_safe [OF hex]
    by (simp only: Split_append_sep Split_no_sep safe_comp_def) (simp add: Split_append_sep Split_no_sep)
  then show ?thesis
    using canonical_hex_safe [OF hex] assms(3)
    by (simp add: manifestPath_def Join_def blobPath_blob_file assms(1,2) blob_file_def safe_comp_def repo_ok_def
        Split_no_sep butlast_append)
qed

lemma escape_nonempty [simp]: "escape d \<noteq> []"
  by (simp add: escape_def Let_def)

text \<open>C38. A peer can replace a blob: when a node that lacks a manifest fetches it from a peer that names
  such a digest, and the copies are written, then \<open>GetBlob\<close> under the digest of the blob returns the
  text of that manifest from then on, whatever the blob was.\<close>

theorem peer_overwrites_blob:
  assumes "quiet e" and "wf_fs (s_disk (d_local st))" and "digest_ok e" and "canonical_digest d"
    and "repo_ok repo" and "\<not> is_digest_ref ref"
    and "op_GetManifest (fs_ops e) repo ref (d_local st) = (Err ErrManifestNotFound, d_local st)"
    and "findPeersWithManifest nt repo ref = ([p], None)" and "n_RequestManifest nt p repo ref = Ok m"
    and "m_Digest m = escape d" and "PutManifest e repo ref m (d_local st) = (Ok u, s')"
  shows "\<exists>st'. dist_GetManifest nt (fs_ops e) repo ref st = (Ok m, st') \<and>
    GetBlob e d (d_local st') = (Ok (bytes_reader (MarshalManifest m)), d_local st')"
proof -
  from assms(6,10,11) obtain t where
    w: "writeManifestFile e t (manifestPath (d_local st) repo (escape d)) (MarshalManifest m) = (Ok u, s_disk s')"
    and s': "s_basePath s' = s_basePath (d_local st)"
    by (auto simp: PutManifest_def Let_def split: prod.splits sum.splits)
  have path: "manifestPath (d_local st) repo (escape d) = blobPath e s' d"
    using escape_path [OF assms(4,3,5)] s' by (simp add: blobPath_blob_file assms(3,4))
  have "content (fs_get (s_disk s') (blobPath e s' d)) = Some (MarshalManifest m)"
    using writeManifestFile_Ok [OF w] by (simp add: path)
  moreover have "wf_fs (s_disk s')" using PutManifest_state [OF assms(11)] assms(2) by simp
  ultimately have "GetBlob e d s' = (Ok (bytes_reader (MarshalManifest m)), s')"
    using GetBlob_present [OF assms(1)] by blast
  moreover have "dist_GetManifest nt (fs_ops e) repo ref st = (Ok m, st\<lparr>d_local := s'\<rparr>)"
    using assms(7-9,11) by (simp add: dist_GetManifest_def local_do_def getManifestFromPeers_def)
  ultimately show ?thesis by simp
qed

definition overwritten :: string where
  "overwritten = ''sha256:'' @ replicate 64 CHR ''a''"

lemma forged_put: "isOk (fst (PutManifest calm ''app'' ''v1'' (zero_Manifest\<lparr>m_Digest := escape overwritten\<rparr>) fresh))"
  by code_simp

lemma fresh_lacks: "fst (GetManifest calm ''app'' ''v1'' fresh) = Err ErrManifestNotFound"
  by code_simp

definition forging_net :: net where
  "forging_net = alone\<lparr>n_Peers := Ok [peer ''m''], n_ManifestAnswers := (\<lambda>ps _ _. map (\<lambda>p. (p, True)) ps),
     n_RequestManifest := (\<lambda>_ _ _. Ok (zero_Manifest\<lparr>m_Digest := escape overwritten\<rparr>))\<rparr>"

theorem peer_overwrites_blob_witness:
  "\<not> trusted forging_net \<and>
   (\<exists>m st'. dist_GetManifest forging_net (fs_ops calm) ''app'' ''v1'' (node fresh) = (Ok m, st') \<and>
     GetBlob calm overwritten (d_local st') = (Ok (bytes_reader (MarshalManifest m)), d_local st'))"
proof -
  let ?m = "zero_Manifest\<lparr>m_Digest := escape overwritten\<rparr>"
  obtain u s' where put: "PutManifest calm ''app'' ''v1'' ?m fresh = (Ok u, s')"
    using forged_put by (cases "PutManifest calm ''app'' ''v1'' ?m fresh"; cases "fst (PutManifest calm ''app'' ''v1'' ?m fresh)") auto
  have absent: "op_GetManifest (fs_ops calm) ''app'' ''v1'' fresh = (Err ErrManifestNotFound, fresh)"
    using reads_keep_state(4) [of calm "''app''" "''v1''" fresh] fresh_lacks by (metis fs_ops_sel(6) prod.collapse)
  have can: "canonical_digest overwritten" by code_simp
  have "\<not> canonical_digest (escape overwritten)" by code_simp
  then have "\<not> trusted forging_net" by (auto simp: trusted_def forging_net_def)
  moreover have find: "findPeersWithManifest forging_net ''app'' ''v1'' = ([peer ''m''], None)"
    by (simp add: findPeersWithManifest_def forging_net_def)
  have repo: "repo_ok ''app''" by code_simp
  have "\<exists>st'. dist_GetManifest forging_net (fs_ops calm) ''app'' ''v1'' (node fresh) = (Ok ?m, st') \<and>
      GetBlob calm overwritten (d_local st') = (Ok (bytes_reader (MarshalManifest ?m)), d_local st')"
    by (rule peer_overwrites_blob [OF quiet_calm _ digest_ok_calm can repo safe_v1(2) _ find])
      (use put absent in \<open>simp_all add: forging_net_def\<close>)
  ultimately show ?thesis by blast
qed

end
