(* ===== verification/MetricsRegistry.thy ===== *)
theory MetricsRegistry
  imports MetricsStore
begin

text \<open>
  The collectors of \<open>internal/metrics/registry.go\<close>, as \<open>initializeMetrics\<close> creates and registers them:
  names, help texts, buckets and labels. Registration panics on a name that is taken or malformed;
  none is.
\<close>

datatype buckets = DefBuckets | ExponentialBuckets nat nat nat

text \<open>The upper bounds: \<open>count\<close> buckets from \<open>start\<close>, each \<open>factor\<close> times the one before. The default
  ones are the library's.\<close>

fun bounds :: "buckets \<Rightarrow> nat list option" where
  "bounds DefBuckets = None"
| "bounds (ExponentialBuckets start factor count) = Some (map (\<lambda>i. start * factor ^ i) [0..<count])"

datatype collector =
    CounterVec (col_Name: string) (col_Help: string) (col_Labels: "string list")
  | HistogramVec (col_Name: string) (col_Help: string) (col_Buckets: buckets) (col_Labels: "string list")
  | Gauge (col_Name: string) (col_Help: string)
where
  "col_Labels (Gauge n h) = []"

definition http_metrics :: "collector list" where
  "http_metrics =
     [CounterVec ''http_requests_total'' ''Total number of HTTP requests'' [''method'', ''endpoint'', ''status''],
      HistogramVec ''http_request_duration_seconds'' ''Duration of HTTP requests in seconds'' DefBuckets
        [''method'', ''endpoint''],
      HistogramVec ''http_request_size_bytes'' ''Size of HTTP request bodies in bytes'' (ExponentialBuckets 1024 2 10)
        [''method'', ''endpoint''],
      HistogramVec ''http_response_size_bytes'' ''Size of HTTP response bodies in bytes'' (ExponentialBuckets 1024 2 10)
        [''method'', ''endpoint'']]"

definition operation_metrics :: "collector list" where
  "operation_metrics =
     [CounterVec ''registry_blob_operations_total'' ''Total number of blob operations''
        [''operation'', ''repository'', ''status''],
      CounterVec ''registry_manifest_operations_total'' ''Total number of manifest operations''
        [''operation'', ''repository'', ''status''],
      Gauge ''registry_upload_sessions_active'' ''Number of active upload sessions'']"

definition storage_metrics :: "collector list" where
  "storage_metrics =
     [HistogramVec ''storage_operation_duration_seconds'' ''Duration of storage operations in seconds'' DefBuckets
        [''operation'', ''status''],
      CounterVec ''storage_errors_total'' ''Total number of storage operation errors'' [''operation'', ''error_type''],
      Gauge ''storage_disk_usage_bytes'' ''Total disk space used by the registry in bytes'']"

definition statistics_metrics :: "collector list" where
  "statistics_metrics =
     [Gauge ''registry_repositories_total'' ''Total number of repositories in the registry'',
      Gauge ''registry_tags_total'' ''Total number of tags across all repositories'']"

definition initializeMetrics :: "collector list" where
  "initializeMetrics = http_metrics @ operation_metrics @ storage_metrics @ statistics_metrics"

text \<open>Names as Prometheus wants them, without the colon reserved for rules.\<close>

definition metric_name :: "string \<Rightarrow> bool" where
  "metric_name s \<longleftrightarrow> s \<noteq> [] \<and> hd s \<notin> set ''0123456789'' \<and>
     list_all (\<lambda>c. c \<in> set ''abcdefghijklmnopqrstuvwxyz_0123456789'') s"

lemma registration_succeeds:
  "distinct (map col_Name initializeMetrics) \<and> list_all metric_name (map col_Name initializeMetrics) \<and>
   list_all (\<lambda>c. distinct (col_Labels c) \<and> list_all metric_name (col_Labels c)) initializeMetrics"
  by code_simp

text \<open>The buckets for sizes end at 512 KiB, where the comment has 512 MB.\<close>

lemma size_buckets: "map_option last (bounds (ExponentialBuckets 1024 2 10)) = Some (512 * 1024)"
  by (simp add: last_map)

text \<open>No call panics on the number of its label values: each writes under as many values as the
  collector has labels, and under no other.\<close>

definition arity :: "string \<Rightarrow> nat option" where
  "arity name = map_of (map (\<lambda>c. (col_Name c, length (col_Labels c))) initializeMetrics) name"

lemma arities:
  "arity ''http_requests_total'' = Some 3" "arity ''http_request_duration_seconds'' = Some 2"
  "arity ''http_request_size_bytes'' = Some 2" "arity ''http_response_size_bytes'' = Some 2"
  "arity ''registry_blob_operations_total'' = Some 3" "arity ''registry_manifest_operations_total'' = Some 3"
  "arity ''storage_operation_duration_seconds'' = Some 2" "arity ''storage_errors_total'' = Some 2"
  by code_simp+

lemma label_arity:
  "length ls \<noteq> the (arity ''http_requests_total'') \<Longrightarrow>
     httpRequestsTotal (RecordHTTPRequest meth ep st t n k m) ls = httpRequestsTotal m ls"
  "length ls \<noteq> the (arity ''http_request_duration_seconds'') \<Longrightarrow>
     httpRequestDuration (RecordHTTPRequest meth ep st t n k m) ls = httpRequestDuration m ls"
  "length ls \<noteq> the (arity ''http_request_size_bytes'') \<Longrightarrow>
     httpRequestSize (RecordHTTPRequest meth ep st t n k m) ls = httpRequestSize m ls"
  "length ls \<noteq> the (arity ''http_response_size_bytes'') \<Longrightarrow>
     httpResponseSize (RecordHTTPRequest meth ep st t n k m) ls = httpResponseSize m ls"
  "length ls \<noteq> the (arity ''registry_blob_operations_total'') \<Longrightarrow>
     blobOperationsTotal (RecordBlobOperation op repo st m) ls = blobOperationsTotal m ls"
  "length ls \<noteq> the (arity ''registry_manifest_operations_total'') \<Longrightarrow>
     manifestOperationsTotal (RecordManifestOperation op repo st m) ls = manifestOperationsTotal m ls"
  "length ls \<noteq> the (arity ''storage_operation_duration_seconds'') \<Longrightarrow>
     storageOperationDuration (RecordStorageOperation op st t m) ls = storageOperationDuration m ls"
  "length ls \<noteq> the (arity ''storage_errors_total'') \<Longrightarrow>
     storageErrorsTotal (RecordStorageError op st m) ls = storageErrorsTotal m ls"
  unfolding arities
  by (auto simp: RecordHTTPRequest_def RecordBlobOperation_def RecordManifestOperation_def RecordStorageOperation_def
      RecordStorageError_def Inc_def Observe_def Let_def)

end
