(* ===== verification/Names.thy ===== *)
theory Names
  imports Middleware
begin

text \<open>
  Repository names: those the validation of \<open>middleware/validation.go\<close> accepts against those the
  routes of \<open>router.go\<close> admit. The two expressions are compared part by part.
\<close>

subsection \<open>Expressions alike on some words\<close>

definition accepts :: "re \<Rightarrow> bool \<Rightarrow> string \<Rightarrow> string \<Rightarrow> bool" where
  "accepts r b w t \<longleftrightarrow> (\<exists>c. matches r b w c t)"

text \<open>Submatches aside, and whatever the context, the words of \<open>P\<close> that match are the same.\<close>

inductive alike :: "(string \<Rightarrow> bool) \<Rightarrow> re \<Rightarrow> re \<Rightarrow> bool" for P where
  atom: "(\<And>b b' w t t'. P w \<Longrightarrow> accepts r b w t \<longleftrightarrow> accepts q b' w t') \<Longrightarrow> alike P r q"
| grouped: "alike P r q \<Longrightarrow> alike P (RGroup r) q"
| sequence: "alike P r1 q1 \<Longrightarrow> alike P r2 q2 \<Longrightarrow> alike P (RSeq r1 r2) (RSeq q1 q2)"
| choice: "alike P r1 q1 \<Longrightarrow> alike P r2 q2 \<Longrightarrow> alike P (RAlt r1 r2) (RAlt q1 q2)"
| repeated: "alike P r q \<Longrightarrow> alike P (RRepeat r n k) (RRepeat q n k)"

lemma accepts_simps:
  "accepts REps b w t \<longleftrightarrow> w = []" "accepts (RChar x) b w t \<longleftrightarrow> w = [x]"
  "accepts (RSeq r q) b w t \<longleftrightarrow> (\<exists>w1 w2. w = w1 @ w2 \<and> accepts r b w1 (w2 @ t) \<and> accepts q (b \<and> w1 = []) w2 t)"
  "accepts (RAlt r q) b w t \<longleftrightarrow> accepts r b w t \<or> accepts q b w t"
  "accepts (RGroup r) b w t \<longleftrightarrow> accepts r b w t"
  unfolding accepts_def by (auto, blast)

lemma rounds_alike:
  assumes split: "\<And>u v. P (u @ v) \<Longrightarrow> P u \<and> P v"
    and one: "\<And>b b' w c t t'. P w \<Longrightarrow> M b w c t \<Longrightarrow> \<exists>c'. M' b' w c' t'"
  shows "rounds M n k cur b w c t \<Longrightarrow> P w \<Longrightarrow> \<exists>c'. rounds M' n k cur' b' w c' t'"
proof (induction arbitrary: cur' b' rule: rounds.induct)
  case (stop k cur b t)
  show ?case using rounds.stop [of M' k cur' b' t'] by blast
next
  case (again k w b c w' t n c' cur)
  from again.prems have "P w" "P w'" using split by blast+
  with one again.hyps(3) obtain d where "M' b' w d (w' @ t')" by blast
  moreover from again.IH [OF \<open>P w'\<close>] obtain d' where
    "rounds M' (n - 1) (map_option (\<lambda>x. x - 1) k) d False w' d' t'" by blast
  ultimately show ?case using rounds.again [of k w M' b' d w' t' n d' cur'] again.hyps(1,2) by blast
qed

lemma alike_accepts:
  assumes split: "\<And>u v. P (u @ v) \<Longrightarrow> P u \<and> P v"
  shows "alike P r q \<Longrightarrow> P w \<Longrightarrow> accepts r b w t \<longleftrightarrow> accepts q b' w t'"
proof (induction arbitrary: b b' w t t' rule: alike.induct)
  case (sequence r1 q1 r2 q2)
  have "accepts r1 b w1 (w2 @ t) \<longleftrightarrow> accepts q1 b' w1 (w2 @ t')" "accepts r2 c w2 t \<longleftrightarrow> accepts q2 c' w2 t'"
    if "w = w1 @ w2" for w1 w2 c c'
    using split sequence that by blast+
  then show ?case unfolding accepts_simps by blast
next
  case (repeated r q n k)
  have fwd: "\<exists>c'. matches q b' w c' t'" if "P w" "matches r b w c t" for b b' w c t t'
    using repeated.IH [OF that(1), of b t b' t'] that(2) unfolding accepts_def by blast
  have bwd: "\<exists>c'. matches r b w c' t" if "P w" "matches q b' w c t'" for b b' w c t t'
    using repeated.IH [OF that(1), of b t b' t'] that(2) unfolding accepts_def by blast
  have there: "\<exists>c'. rounds (matches q) n k cur' b' w c' t'" if "rounds (matches r) n k cur b w c t" for cur cur' c
    by (rule rounds_alike [where P = P and M = "matches r", OF split fwd that repeated.prems])
  have hither: "\<exists>c'. rounds (matches r) n k cur' b w c' t" if "rounds (matches q) n k cur b' w c t'" for cur cur' c
    by (rule rounds_alike [where P = P and M = "matches q", OF split bwd that repeated.prems])
  show ?case unfolding accepts_def matches.simps(7) using there hither by blast
next
  case (choice r1 q1 r2 q2)
  have "accepts r1 b w t \<longleftrightarrow> accepts q1 b' w t'" "accepts r2 b w t \<longleftrightarrow> accepts q2 b' w t'"
    using choice by blast+
  then show ?case unfolding accepts_simps by blast
next
  case (grouped r q)
  have "accepts r b w t \<longleftrightarrow> accepts q b' w t'" using grouped by blast
  then show ?case unfolding accepts_simps .
qed

subsection \<open>Validated names\<close>

text \<open>The validation's expression, compiled: the separators are the same but for the first, a dot.\<close>

definition valid_runs :: re where
  "valid_runs = RRepeat (RGroup (seq_of [RGroup (sep_re (seq_of (lit ''.''))), alnum_re])) 0 None"

definition valid_name_re :: re where
  "valid_name_re = seq_of [alnum_re, valid_runs,
     RRepeat (RGroup (seq_of [RChar CHR ''/'', alnum_re, valid_runs])) 0 None]"

lemma compile_repository: "Compile repository_pattern =
    Some (anchored [alnum_re, valid_runs, RRepeat (RGroup (seq_of [RChar CHR ''/'', alnum_re, valid_runs])) 0 None])"
  by code_simp

definition plain_word :: "string \<Rightarrow> bool" where
  "plain_word w \<longleftrightarrow> CHR ''.'' \<notin> set w \<and> bs \<notin> set w"

lemma plain_append: "plain_word (u @ v) \<Longrightarrow> plain_word u \<and> plain_word v"
  by (simp add: plain_word_def)

lemma alike_chars: "alike plain_word REps REps" "alike plain_word (RChar x) (RChar x)"
  by (rule alike.atom; simp add: accepts_simps)+

lemma alike_alnum: "alike plain_word alnum_re alnum_re"
  unfolding alnum_re_def by (rule alike.atom) (simp add: accepts_def matches_class_run)

lemma alike_dot: "alike plain_word (RSeq (RChar CHR ''.'') REps) (RSeq (RChar bs) (RSeq RAny REps))"
  by (rule alike.atom) (auto simp: accepts_simps plain_word_def)

lemma alike_runs: "alike plain_word valid_runs (runs_re (sep_re backslash_any))"
  unfolding valid_runs_def runs_re_def sep_re_def backslash_any_def seq_of_def lit_def
  by (simp add: alike.intros(2-) alike_chars alike_alnum alike_dot)

lemma alike_name: "alike plain_word valid_name_re name_re"
  unfolding valid_name_re_def name_re_def Let_def seq_of_def
  by (simp add: alike.intros(2-) alike_chars alike_alnum alike_runs)

lemma must_match_repository: "must_match repository_pattern n \<longleftrightarrow> accepts valid_name_re True n []"
  by (auto simp: must_match_def compile_repository Match_anchored valid_name_re_def accepts_def matches_seq_Cons)

text \<open>C36. For names without dots (and backslashes) the two expressions agree: what the validation's
  expression accepts is exactly what the routes admit as a name.\<close>

theorem dotless_names_routed:
  assumes "CHR ''.'' \<notin> set n" and "bs \<notin> set n"
  shows "must_match repository_pattern n \<longleftrightarrow> routed_name n"
proof -
  have "plain_word n" using assms by (simp add: plain_word_def)
  from alike_accepts [OF plain_append alike_name this, of True "[]" False "''/''"]
  show ?thesis
    using matches_no_groups [OF name_no_groups] by (auto simp: must_match_repository routed_name_def accepts_def)
qed

theorem dotless_names_routed_witness:
  "must_match repository_pattern ''lib/my_app'' \<and> routed_name ''lib/my_app''"
proof -
  have "must_match repository_pattern ''lib/my_app''" by code_simp
  then show ?thesis using dotless_names_routed [of "''lib/my_app''"] by simp
qed

text \<open>The repository a resource is in.\<close>

fun name_of :: "resource \<Rightarrow> string option" where
  "name_of Base = None"
| "name_of (BlobAt n _) = Some n"
| "name_of (Uploads n) = Some n"
| "name_of (UploadAt n _) = Some n"
| "name_of (ManifestAt n _) = Some n"
| "name_of (TagsOf n) = Some n"
| "name_of (ReferrersOf n _) = Some n"

fun wf_last :: "resource \<Rightarrow> bool" where
  "wf_last (BlobAt _ d) = digest_word d"
| "wf_last (UploadAt _ u) = uuid_word u"
| "wf_last (ManifestAt _ r) = reference_word r"
| "wf_last (ReferrersOf _ d) = digest_word d"
| "wf_last _ = True"

lemma same_path_same_name:
  assumes "wf_last a" "wf_resource b" "path_of a = path_of b"
  shows "name_of a = name_of b"
proof -
  have "segs (path_of a) = segs (path_of b)" using assms(3) by simp
  with assms(1,2) show ?thesis
    by (cases a; cases b) (auto simp: segs_path words_no_slash simp del: path_of.simps)
qed

text \<open>C37. Repository names with a dot, which the validation and the specification allow, are served
  nowhere: the router quotes the whole expression and restores it in part, so that what was an
  escaped dot demands a backslash and any character, and every request for a resource of such a
  repository is answered 404 without reaching a handler.\<close>

theorem dotted_repository_404:
  assumes "name_of x = Some n" and "CHR ''.'' \<in> set n" and "bs \<notin> set n"
    and "wf_last x" and "r_Path req = path_of x"
  shows "Router_ServeHTTP run octo_router req w s = (NotFound w, s)"
proof -
  have "find_route octo_router req = None"
  proof (rule find_route_nowhere, rule notI)
    assume "\<exists>y. wf_resource y \<and> path_of y = r_Path req"
    then obtain y where y: "wf_resource y" "path_of x = path_of y" using assms(5) by auto
    then have "name_of y = Some n" using same_path_same_name [OF assms(4)] assms(1) by simp
    then have "routed_name n" using y(1) by (cases y) auto
    then show False using routed_name_dot assms(2,3) by blast
  qed
  then show ?thesis by (simp add: Router_ServeHTTP_def)
qed

theorem dotted_repository_404_witness:
  "isValidRepositoryName ''my.app'' \<and>
   Router_ServeHTTP (\<lambda>ep r w (s :: nat). (w, Suc s)) octo_router
     \<lparr>r_Method = ''GET'', r_Path = ''/v2/my.app/tags/list'', r_Query = [], r_Header = [],
      r_Body = bytes_reader [], r_ContentLength = 0\<rparr> new_rw 0 = (NotFound new_rw, 0)"
proof -
  have "isValidRepositoryName ''my.app''" by code_simp
  then show ?thesis by (auto intro!: dotted_repository_404 [of "TagsOf ''my.app''"])
qed

end
